(* ===== verification/Prelude.thy ===== *)
theory Prelude
  imports Main "HOL-Library.Word" "HOL-Library.AList"
begin

text \<open>
  What every component shares: bytes, JavaScript strings and numbers, little-endian integers as
  a \<^verbatim>\<open>DataView\<close> reads and writes them, and JavaScript \<^verbatim>\<open>Map\<close> objects as association
  lists.

  A \<^verbatim>\<open>Uint8Array\<close> is a list of 8-bit words. A JavaScript string is the list of its UTF-16 code
  units, 16-bit words. A JavaScript \<^verbatim>\<open>number\<close> is an \<open>int\<close>: the ids, counts and
  times of this program are integral, and fractions, NaN and the infinities are outside the
  model. A \<^verbatim>\<open>bigint\<close> is an \<open>int\<close> too.
\<close>

type_synonym byte = "8 word"
type_synonym bytes = "byte list"
type_synonym code_unit = "16 word"
type_synonym jsstring = "code_unit list"

text \<open>A string literal of the source.\<close>

definition js :: "string \<Rightarrow> jsstring" where
  "js s = map of_char s"

lemma js_Nil [simp]: "js [] = []"
  by (simp add: js_def)

lemma js_Cons [simp]: "js (c # s) = of_char c # js s"
  by (simp add: js_def)

lemma length_js [simp]: "length (js s) = length s"
  by (simp add: js_def)

text \<open>The simplification rules of the effects, and those of the asynchronous functions.\<close>

named_theorems op_simps
named_theorems task_simps

subsection \<open>The unsigned right shift by zero\<close>

text \<open>\<^verbatim>\<open>n >>> 0\<close> is ECMAScript's ToUint32: the value modulo \<open>2 ^ 32\<close>.\<close>

definition to_uint32 :: "int \<Rightarrow> int" where
  "to_uint32 n = n mod 2 ^ 32"

lemma to_uint32_bounds: "0 \<le> to_uint32 n \<and> to_uint32 n < 2 ^ 32"
  by (simp add: to_uint32_def)

lemma to_uint32_idem [simp]: "to_uint32 (to_uint32 n) = to_uint32 n"
  by (simp add: to_uint32_def)

lemma to_uint32_id: "0 \<le> n \<Longrightarrow> n < 2 ^ 32 \<Longrightarrow> to_uint32 n = n"
  by (simp add: to_uint32_def)

subsection \<open>Little-endian integers\<close>

fun le_bytes :: "nat \<Rightarrow> nat \<Rightarrow> bytes" where
  "le_bytes 0 v = []"
| "le_bytes (Suc n) v = of_nat v # le_bytes n (v div 256)"

fun from_le :: "bytes \<Rightarrow> nat" where
  "from_le [] = 0"
| "from_le (b # bs) = unat b + 256 * from_le bs"

lemma length_le_bytes [simp]: "length (le_bytes n v) = n"
  by (induction n arbitrary: v) auto

lemma le_bytes_0: "le_bytes n 0 = replicate n 0"
  by (induction n) auto

lemma unat_of_nat_byte: "unat (of_nat v :: byte) = v mod 256"
  by (simp add: unat_of_nat)

lemma from_le_le_bytes: "from_le (le_bytes n v) = v mod 256 ^ n"
proof (induction n arbitrary: v)
  case 0
  then show ?case by simp
next
  case (Suc n)
  have "v mod 256 ^ Suc n = v mod 256 + 256 * (v div 256 mod 256 ^ n)"
    using mod_mult2_eq [of v 256 "256 ^ n"] by simp
  then show ?case by (simp add: Suc.IH unat_of_nat_byte)
qed

lemma from_le_le_bytes_id [simp]: "v < 256 ^ n \<Longrightarrow> from_le (le_bytes n v) = v"
  by (simp add: from_le_le_bytes)

lemma from_le_bound: "from_le bs < 256 ^ length bs"
proof (induction bs)
  case Nil
  then show ?case by simp
next
  case (Cons b bs)
  have "unat b < 256"
    using unsigned_less [of b] by simp
  then show ?case using Cons.IH by simp
qed

lemma byte_256_times [simp]: "(256 :: byte) * x = 0"
proof -
  have "(256 :: byte) = 0" by simp
  then show ?thesis by (simp only: mult_zero_left)
qed

lemma le_bytes_from_le: "le_bytes (length bs) (from_le bs) = bs"
proof (induction bs)
  case Nil
  then show ?case by simp
next
  case (Cons b bs)
  have "unat b < 256"
    using unsigned_less [of b] by simp
  then show ?case using Cons.IH by simp
qed

text \<open>Two's complement, for the signed 64-bit ids of the C structs.\<close>

definition to_twos :: "nat \<Rightarrow> int \<Rightarrow> nat" where
  "to_twos w i = nat (i mod 2 ^ w)"

definition from_twos :: "nat \<Rightarrow> nat \<Rightarrow> int" where
  "from_twos w n = (if 2 * n < 2 ^ w then int n else int n - 2 ^ w)"

lemma to_twos_bound: "to_twos w i < 2 ^ w"
  by (simp add: to_twos_def nat_less_iff)

lemma mod_neg_once:
  assumes "- n \<le> i" "i < (0::int)"
  shows "i mod n = i + n"
proof -
  have "i mod n = (i + n) mod n" by simp
  also have "\<dots> = i + n" using assms by (intro mod_pos_pos_trivial) auto
  finally show ?thesis .
qed

lemma from_to_twos_64: "- (2 ^ 63) \<le> i \<Longrightarrow> i < 2 ^ 63 \<Longrightarrow> from_twos 64 (to_twos 64 i) = i"
  by (cases "i < 0") (auto simp: to_twos_def from_twos_def mod_neg_once)

subsection \<open>Slices\<close>

text \<open>\<open>slice at n bs\<close> reads \<open>n\<close> elements from offset \<open>at\<close>, and \<open>splice at new bs\<close>
  overwrites elements from offset \<open>at\<close> on.\<close>

definition slice :: "nat \<Rightarrow> nat \<Rightarrow> 'a list \<Rightarrow> 'a list" where
  "slice at n xs = take n (drop at xs)"

definition splice :: "nat \<Rightarrow> 'a list \<Rightarrow> 'a list \<Rightarrow> 'a list" where
  "splice at new xs = take at xs @ new @ drop (at + length new) xs"

lemma length_slice: "at + n \<le> length xs \<Longrightarrow> length (slice at n xs) = n"
  by (simp add: slice_def)

lemma length_splice [simp]: "at + length new \<le> length xs \<Longrightarrow> length (splice at new xs) = length xs"
  by (simp add: splice_def)

lemma slice_append_skip: "length pre = at \<Longrightarrow> slice at n (pre @ xs) = take n xs"
  by (simp add: slice_def)

subsection \<open>JavaScript maps\<close>

text \<open>
  A \<^verbatim>\<open>Map\<close> keeps its keys in the order of their first insertion: \<^verbatim>\<open>set\<close> on a key it
  holds replaces the value in place, on a new key it appends, and \<^verbatim>\<open>delete\<close> removes the
  entry. These are the library's association-list operations \<open>AList.update\<close> and
  \<open>AList.delete\<close>, with \<open>map_of\<close> for \<^verbatim>\<open>get\<close>. A \<^verbatim>\<open>Set\<close> is the list of its
  members, \<open>List.insert\<close>ed at the end.
\<close>

type_synonym ('k, 'v) js_map = "('k \<times> 'v) list"

definition map_get :: "('k, 'v) js_map \<Rightarrow> 'k \<Rightarrow> 'v option" where
  "map_get m k = map_of m k"

definition map_set :: "'k \<Rightarrow> 'v \<Rightarrow> ('k, 'v) js_map \<Rightarrow> ('k, 'v) js_map" where
  "map_set k v m = AList.update k v m"

definition map_delete :: "'k \<Rightarrow> ('k, 'v) js_map \<Rightarrow> ('k, 'v) js_map" where
  "map_delete k m = AList.delete k m"

definition map_keys :: "('k, 'v) js_map \<Rightarrow> 'k list" where
  "map_keys m = map fst m"

definition set_add :: "'k \<Rightarrow> 'k list \<Rightarrow> 'k list" where
  "set_add k ks = (if k \<in> set ks then ks else ks @ [k])"

lemma map_get_Nil [simp]: "map_get [] k = None"
  by (simp add: map_get_def)

lemma map_get_set [simp]: "map_get (map_set k v m) k' = (if k' = k then Some v else map_get m k')"
  by (simp add: map_get_def map_set_def update_conv')

lemma map_get_delete [simp]:
  "map_get (map_delete k m) k' = (if k' = k then None else map_get m k')"
  by (simp add: map_get_def map_delete_def delete_conv')

lemma map_keys_set:
  "map_keys (map_set k v m) = (if k \<in> set (map_keys m) then map_keys m else map_keys m @ [k])"
  by (simp add: map_keys_def map_set_def update_keys)

lemma distinct_map_keys_set: "distinct (map_keys m) \<Longrightarrow> distinct (map_keys (map_set k v m))"
  by (simp add: map_keys_set)

lemma distinct_map_keys_delete: "distinct (map_keys m) \<Longrightarrow> distinct (map_keys (map_delete k m))"
  by (simp add: map_keys_def map_delete_def distinct_delete)

lemma map_keys_delete: "map_keys (map_delete k m) = removeAll k (map_keys m)"
  by (induction m) (auto simp: map_keys_def map_delete_def AList.delete_eq)

lemma map_get_None_iff: "map_get m k = None \<longleftrightarrow> k \<notin> set (map_keys m)"
  by (simp add: map_get_def map_keys_def map_of_eq_None_iff)

lemma set_set_add [simp]: "set (set_add k ks) = insert k (set ks)"
  by (auto simp: set_add_def)

lemma distinct_set_add: "distinct ks \<Longrightarrow> distinct (set_add k ks)"
  by (simp add: set_add_def)

end
