(* ===== verification/Text.thy ===== *)
theory Text
  imports Prelude
begin

text \<open>
  What the package uses of JavaScript strings: the decimal form of a number in a template
  literal, hexadecimal digits, \<^verbatim>\<open>TextEncoder\<close> and \<^verbatim>\<open>TextDecoder\<close> (UTF-8, the
  decoder as the WHATWG state machine with its replacement character and its dropped byte order
  mark) and \<^verbatim>\<open>split\<close>. The lemmas: decimal forms are non-empty strings of digits and
  injective, hexadecimal pairs read back, and decoding what was encoded gives the string back
  when it has no lone surrogate and no leading byte order mark.
\<close>

subsection \<open>Decimal\<close>

fun nat_decimal :: "nat \<Rightarrow> jsstring" where
  "nat_decimal n = (if n < 10 then [of_nat (48 + n)] else nat_decimal (n div 10) @ [of_nat (48 + n mod 10)])"

declare nat_decimal.simps [simp del]

definition decimal :: "int \<Rightarrow> jsstring" where
  "decimal i = (if i < 0 then 45 # nat_decimal (nat (- i)) else nat_decimal (nat i))"

definition is_digit :: "code_unit \<Rightarrow> bool" where
  "is_digit c \<longleftrightarrow> 48 \<le> unat c \<and> unat c \<le> 57"

lemma unat_of_nat_unit: "n < 65536 \<Longrightarrow> unat (of_nat n :: code_unit) = n"
  by (simp add: unat_of_nat)

lemma nat_decimal_digits: "c \<in> set (nat_decimal n) \<Longrightarrow> is_digit c"
proof (induction n rule: nat_decimal.induct)
  case (1 n)
  then show ?case
    by (subst (asm) (2) nat_decimal.simps)
       (auto simp: is_digit_def unat_of_nat_unit simp del: of_nat_add split: if_splits)
qed

lemma nat_decimal_nonempty [simp]: "nat_decimal n \<noteq> []"
  by (subst nat_decimal.simps) simp

definition decimal_value :: "jsstring \<Rightarrow> nat" where
  "decimal_value s = foldl (\<lambda>v c. 10 * v + (unat c - 48)) 0 s"

lemma decimal_value_nat_decimal [simp]: "decimal_value (nat_decimal n) = n"
proof (induction n rule: nat_decimal.induct)
  case (1 n)
  show ?case
  proof (cases "n < 10")
    case True
    then show ?thesis
      by (subst nat_decimal.simps) (simp add: decimal_value_def unat_of_nat_unit del: of_nat_add)
  next
    case False
    then have "foldl (\<lambda>v c. 10 * v + (unat c - 48)) 0 (nat_decimal (n div 10)) = n div 10"
      using "1.IH" by (simp add: decimal_value_def)
    moreover have "48 + n mod 10 < 65536"
      using mod_less_divisor [of 10 n] by linarith
    ultimately show ?thesis
      using False by (subst nat_decimal.simps)
        (simp add: decimal_value_def unat_of_nat_unit del: of_nat_add)
  qed
qed

lemma nat_decimal_inj [simp]: "nat_decimal m = nat_decimal n \<longleftrightarrow> m = n"
  by (metis decimal_value_nat_decimal)

lemma decimal_inj: "0 \<le> i \<Longrightarrow> 0 \<le> j \<Longrightarrow> decimal i = decimal j \<longleftrightarrow> i = j"
  by (auto simp: decimal_def)

lemma decimal_digits: "0 \<le> i \<Longrightarrow> c \<in> set (decimal i) \<Longrightarrow> is_digit c"
  by (auto simp: decimal_def dest: nat_decimal_digits)

text \<open>A separator that is no digit splits a string from a decimal suffix in one way.\<close>

lemma append_digits_unique:
  assumes "xs @ c # ds = ys @ c # es"
    and "\<forall>d\<in>set ds. is_digit d" "\<forall>d\<in>set es. is_digit d" and "\<not> is_digit c"
  shows "xs = ys \<and> ds = es"
proof -
  have c: "c \<notin> set ds" "c \<notin> set es" using assms(2-4) by auto
  have "takeWhile (\<lambda>d. d \<noteq> c) (rev ds @ c # rev xs) = rev ds"
    "takeWhile (\<lambda>d. d \<noteq> c) (rev es @ c # rev ys) = rev es"
    using c by (auto simp: takeWhile_tail takeWhile_eq_all_conv)
  moreover have "rev ds @ c # rev xs = rev es @ c # rev ys"
    using arg_cong [OF assms(1), of rev] by simp
  ultimately have "ds = es" by simp
  then show ?thesis using assms(1) by simp
qed

subsection \<open>Hexadecimal\<close>

text \<open>The digits \<^verbatim>\<open>toString(16)\<close> prints, and the value of a character of the class
  \<^verbatim>\<open>[0-9a-fA-F]\<close>.\<close>

definition hex_digit :: "nat \<Rightarrow> code_unit" where
  "hex_digit n = (if n < 10 then of_nat (48 + n) else of_nat (87 + n))"

definition hex_value :: "code_unit \<Rightarrow> nat option" where
  "hex_value c =
     (if 48 \<le> unat c \<and> unat c \<le> 57 then Some (unat c - 48)
      else if 97 \<le> unat c \<and> unat c \<le> 102 then Some (unat c - 87)
      else if 65 \<le> unat c \<and> unat c \<le> 70 then Some (unat c - 55)
      else None)"

definition is_hex :: "code_unit \<Rightarrow> bool" where
  "is_hex c \<longleftrightarrow> hex_value c \<noteq> None"

lemma hex_value_digit [simp]: "n < 16 \<Longrightarrow> hex_value (hex_digit n) = Some n"
  by (cases "n < 10") (simp_all add: hex_digit_def hex_value_def unat_of_nat_unit del: of_nat_add)

lemma hex_value_bound: "hex_value c = Some n \<Longrightarrow> n < 16"
  by (auto simp: hex_value_def split: if_splits)

lemma hex_value_dash [simp]: "hex_value 45 = None"
  by (simp add: hex_value_def)

lemma hex_digit_neq_dash [simp]: "n < 16 \<Longrightarrow> hex_digit n \<noteq> 45"
  by (metis hex_value_dash hex_value_digit option.distinct(1))

text \<open>\<^verbatim>\<open>b.toString(16).padStart(2, '0')\<close>.\<close>

definition hex2 :: "byte \<Rightarrow> jsstring" where
  "hex2 b = [hex_digit (unat b div 16), hex_digit (unat b mod 16)]"

lemma unat_byte_bound: "unat (b :: byte) < 256"
  using unsigned_less [of b] by simp

lemma hex2_nibbles: "unat (b :: byte) div 16 < 16" "unat (b :: byte) mod 16 < 16"
  using unat_byte_bound [of b] by auto

subsection \<open>UTF-8\<close>

fun utf8_of_code_point :: "nat \<Rightarrow> nat list" where
  "utf8_of_code_point c =
     (if c < 0x80 then [c]
      else if c < 0x800 then [0xC0 + c div 64, 0x80 + c mod 64]
      else if c < 0x10000 then [0xE0 + c div 4096, 0x80 + c div 64 mod 64, 0x80 + c mod 64]
      else [0xF0 + c div 262144, 0x80 + c div 4096 mod 64, 0x80 + c div 64 mod 64, 0x80 + c mod 64])"

declare utf8_of_code_point.simps [simp del]

definition is_high :: "code_unit \<Rightarrow> bool" where
  "is_high u \<longleftrightarrow> 0xD800 \<le> unat u \<and> unat u \<le> 0xDBFF"

definition is_low :: "code_unit \<Rightarrow> bool" where
  "is_low u \<longleftrightarrow> 0xDC00 \<le> unat u \<and> unat u \<le> 0xDFFF"

text \<open>The code points of a string, a lone surrogate replaced as \<^verbatim>\<open>TextEncoder\<close> does.\<close>

fun code_points :: "jsstring \<Rightarrow> nat list" where
  "code_points [] = []"
| "code_points [u] = [if is_high u \<or> is_low u then 0xFFFD else unat u]"
| "code_points (u # v # s) =
     (if is_high u \<and> is_low v
      then (0x10000 + (unat u - 0xD800) * 0x400 + (unat v - 0xDC00)) # code_points s
      else if is_high u \<or> is_low u then 0xFFFD # code_points (v # s)
      else unat u # code_points (v # s))"

definition utf8_encode :: "jsstring \<Rightarrow> bytes" where
  "utf8_encode s = map of_nat (concat (map utf8_of_code_point (code_points s)))"

definition utf16_of_code_point :: "nat \<Rightarrow> jsstring" where
  "utf16_of_code_point c =
     (if c < 0x10000 then [of_nat c]
      else [of_nat (0xD800 + (c - 0x10000) div 0x400), of_nat (0xDC00 + (c - 0x10000) mod 0x400)])"

text \<open>The decoder: bytes still needed, the code point so far, the bounds of the next byte.\<close>

function utf8_scan :: "nat \<Rightarrow> nat \<Rightarrow> nat \<Rightarrow> nat \<Rightarrow> nat list \<Rightarrow> nat list" where
  "utf8_scan needed cp lo hi [] = (if needed = 0 then [] else [0xFFFD])"
| "utf8_scan needed cp lo hi (b # bs) =
     (if needed = 0 then
        (if b < 0x80 then b # utf8_scan 0 0 0x80 0xBF bs
         else if 0xC2 \<le> b \<and> b \<le> 0xDF then utf8_scan 1 (b - 0xC0) 0x80 0xBF bs
         else if b = 0xE0 then utf8_scan 2 0 0xA0 0xBF bs
         else if b = 0xED then utf8_scan 2 0xD 0x80 0x9F bs
         else if 0xE1 \<le> b \<and> b \<le> 0xEF then utf8_scan 2 (b - 0xE0) 0x80 0xBF bs
         else if b = 0xF0 then utf8_scan 3 0 0x90 0xBF bs
         else if b = 0xF4 then utf8_scan 3 4 0x80 0x8F bs
         else if 0xF1 \<le> b \<and> b \<le> 0xF3 then utf8_scan 3 (b - 0xF0) 0x80 0xBF bs
         else 0xFFFD # utf8_scan 0 0 0x80 0xBF bs)
      else if b < lo \<or> hi < b then 0xFFFD # utf8_scan 0 0 0x80 0xBF (b # bs)
      else if needed = 1 then (cp * 64 + (b - 0x80)) # utf8_scan 0 0 0x80 0xBF bs
      else utf8_scan (needed - 1) (cp * 64 + (b - 0x80)) 0x80 0xBF bs)"
  by pat_completeness auto
termination
  by (relation "measures [\<lambda>(n, c, l, h, bs). length bs, \<lambda>(n, c, l, h, bs). n]") auto

definition utf8_decode :: "bytes \<Rightarrow> jsstring" where
  "utf8_decode bs =
     (let bs' = (if take 3 bs = [0xEF, 0xBB, 0xBF] then drop 3 bs else bs)
      in concat (map utf16_of_code_point (utf8_scan 0 0 0x80 0xBF (map unat bs'))))"

definition scalar :: "nat \<Rightarrow> bool" where
  "scalar c \<longleftrightarrow> c < 0xD800 \<or> 0xDFFF < c \<and> c < 0x110000"

lemma div_64: "(c::nat) = c div 64 * 64 + c mod 64"
  by simp

lemma six_bit_groups2: "(c::nat) = (c div 4096 * 64 + c div 64 mod 64) * 64 + c mod 64"
proof -
  have "c div 4096 = c div 64 div 64" by (simp add: div_mult2_eq [symmetric])
  then show ?thesis by simp
qed

lemma six_bit_groups3:
  "(c::nat) = ((c div 262144 * 64 + c div 4096 mod 64) * 64 + c div 64 mod 64) * 64 + c mod 64"
proof -
  have "c div 262144 = c div 64 div 4096" "c div 4096 = c div 64 div 64"
    by (simp_all add: div_mult2_eq [symmetric])
  then show ?thesis using six_bit_groups2 [of "c div 64"] div_64 [of c] by simp
qed

lemma utf8_scan_Nil [simp]: "utf8_scan 0 0 0x80 0xBF [] = []"
  by simp

lemma utf8_scan_last:
  "lo \<le> b \<Longrightarrow> b \<le> hi \<Longrightarrow>
    utf8_scan (Suc 0) cp lo hi (b # bs) = (cp * 64 + (b - 0x80)) # utf8_scan 0 0 0x80 0xBF bs"
  by simp

lemma utf8_scan_more:
  "lo \<le> b \<Longrightarrow> b \<le> hi \<Longrightarrow> 1 < n \<Longrightarrow>
    utf8_scan n cp lo hi (b # bs) = utf8_scan (n - 1) (cp * 64 + (b - 0x80)) 0x80 0xBF bs"
  by simp

lemma utf8_scan_lead2:
  "2 \<le> a \<Longrightarrow> a < 32 \<Longrightarrow> utf8_scan 0 cp lo hi ((0xC0 + a) # bs) = utf8_scan 1 a 0x80 0xBF bs"
  by simp

lemma utf8_scan_lead3:
  "a < 16 \<Longrightarrow> utf8_scan 0 cp lo hi ((0xE0 + a) # bs) =
    utf8_scan 2 a (if a = 0 then 0xA0 else 0x80) (if a = 13 then 0x9F else 0xBF) bs"
  by auto

lemma utf8_scan_lead4:
  "a < 5 \<Longrightarrow> utf8_scan 0 cp lo hi ((0xF0 + a) # bs) =
    utf8_scan 3 a (if a = 0 then 0x90 else 0x80) (if a = 4 then 0x8F else 0xBF) bs"
  by auto

lemma utf8_scan_ascii: "b < 0x80 \<Longrightarrow> utf8_scan 0 cp lo hi (b # bs) = b # utf8_scan 0 0 0x80 0xBF bs"
  by simp

declare utf8_scan.simps [simp del]

lemmas utf8_scan_steps =
  utf8_scan_ascii utf8_scan_last utf8_scan_more utf8_scan_lead2 utf8_scan_lead3 utf8_scan_lead4

lemma utf8_scan_code_point:
  assumes "scalar c"
  shows "utf8_scan 0 0 0x80 0xBF (utf8_of_code_point c @ bs) = c # utf8_scan 0 0 0x80 0xBF bs"
proof -
  consider "c < 0x80" | "0x80 \<le> c" "c < 0x800" | "0x800 \<le> c" "c < 0x10000" | "0x10000 \<le> c"
    by linarith
  then show ?thesis
  proof cases
    case 1
    then show ?thesis by (simp add: utf8_of_code_point.simps utf8_scan_steps)
  next
    case 2
    then have "c div 64 \<ge> 2" "c div 64 < 32" by auto
    with 2 show ?thesis
      by (simp add: utf8_of_code_point.simps utf8_scan_lead2 utf8_scan_last)
  next
    case 3
    define a b d where "a = c div 4096" and "b = c div 64 mod 64" and "d = c mod 64"
    have c: "c = (a * 64 + b) * 64 + d" unfolding a_def b_def d_def by (rule six_bit_groups2)
    have r: "a < 16" "b < 64" "d < 64" using 3 by (auto simp: a_def b_def d_def)
    have e: "utf8_of_code_point c = [0xE0 + a, 0x80 + b, 0x80 + d]"
      using 3 by (simp add: utf8_of_code_point.simps a_def b_def d_def)
    have lo: "(if a = 0 then 0xA0 else 0x80) \<le> 0x80 + b" using 3 c r by auto
    have hi: "0x80 + b \<le> (if a = 13 then 0x9F else 0xBF)"
      using assms c r unfolding scalar_def by auto
    have "utf8_scan 0 0 0x80 0xBF (utf8_of_code_point c @ bs) =
        ((a * 64 + b) * 64 + d) # utf8_scan 0 0 0x80 0xBF bs"
      unfolding e using r lo hi
      by (simp add: utf8_scan_lead3 utf8_scan_more utf8_scan_last del: if_splits)
    then show ?thesis unfolding c [symmetric] .
  next
    case 4
    define a b d f where "a = c div 262144" and "b = c div 4096 mod 64"
      and "d = c div 64 mod 64" and "f = c mod 64"
    have c: "c = ((a * 64 + b) * 64 + d) * 64 + f"
      unfolding a_def b_def d_def f_def by (rule six_bit_groups3)
    have r: "a < 5" "b < 64" "d < 64" "f < 64"
      using assms 4 by (auto simp: a_def b_def d_def f_def scalar_def)
    have e: "utf8_of_code_point c = [0xF0 + a, 0x80 + b, 0x80 + d, 0x80 + f]"
      using 4 by (simp add: utf8_of_code_point.simps a_def b_def d_def f_def)
    have lo: "(if a = 0 then 0x90 else 0x80) \<le> 0x80 + b" using 4 c r by auto
    have hi: "0x80 + b \<le> (if a = 4 then 0x8F else 0xBF)"
      using assms c r 4 unfolding scalar_def by auto
    have "utf8_scan 0 0 0x80 0xBF (utf8_of_code_point c @ bs) =
        (((a * 64 + b) * 64 + d) * 64 + f) # utf8_scan 0 0 0x80 0xBF bs"
      unfolding e using r lo hi
      by (simp add: utf8_scan_lead4 utf8_scan_more utf8_scan_last del: if_splits)
    then show ?thesis unfolding c [symmetric] .
  qed
qed

lemma utf8_scan_encoded:
  "\<forall>c\<in>set cs. scalar c \<Longrightarrow> utf8_scan 0 0 0x80 0xBF (concat (map utf8_of_code_point cs)) = cs"
  by (induction cs) (auto simp: utf8_scan_code_point)

lemma utf8_of_code_point_bytes: "c < 0x110000 \<Longrightarrow> b \<in> set (utf8_of_code_point c) \<Longrightarrow> b < 256"
  by (auto simp: utf8_of_code_point.simps split: if_splits)

text \<open>A string whose surrogates come in pairs.\<close>

fun well_formed :: "jsstring \<Rightarrow> bool" where
  "well_formed [] = True"
| "well_formed [u] = (\<not> is_high u \<and> \<not> is_low u)"
| "well_formed (u # v # s) =
     (if is_high u then is_low v \<and> well_formed s else \<not> is_low u \<and> well_formed (v # s))"

lemma unat_unit_bound: "unat (u :: code_unit) < 65536"
  using unsigned_less [of u] by simp

lemma utf16_pair:
  assumes "is_high u" "is_low v"
  shows "utf16_of_code_point (0x10000 + (unat u - 0xD800) * 0x400 + (unat v - 0xDC00)) = [u, v]"
proof -
  define a b where "a = unat u - 0xD800" and "b = unat v - 0xDC00"
  have ab: "unat u = 0xD800 + a" "unat v = 0xDC00 + b" "b < 0x400"
    using assms by (auto simp: is_high_def is_low_def a_def b_def)
  have "utf16_of_code_point (0x10000 + a * 0x400 + b) = [of_nat (0xD800 + a), of_nat (0xDC00 + b)]"
    using ab(3) by (simp add: utf16_of_code_point_def del: of_nat_add)
  also have "\<dots> = [u, v]" unfolding ab(1,2) [symmetric] by simp
  finally show ?thesis unfolding a_def b_def .
qed

lemma code_points_scalar: "c \<in> set (code_points s) \<Longrightarrow> scalar c"
proof (induction s rule: code_points.induct)
  case (3 u v s)
  then show ?case using unat_unit_bound [of u] unat_unit_bound [of v]
    by (auto simp: scalar_def is_high_def is_low_def split: if_splits)
next
  case (2 u)
  then show ?case using unat_unit_bound [of u]
    by (auto simp: scalar_def is_high_def is_low_def split: if_splits)
qed simp

lemma utf16_code_points: "well_formed s \<Longrightarrow> concat (map utf16_of_code_point (code_points s)) = s"
proof (induction s rule: code_points.induct)
  case (3 u v s)
  then show ?case
    using unat_unit_bound [of u]
    by (cases "is_high u")
       (simp_all add: utf16_pair, simp add: utf16_of_code_point_def)
qed (use unat_unit_bound in \<open>auto simp: utf16_of_code_point_def\<close>)

lemma map_unat_utf8_encode:
  "map unat (utf8_encode s) = concat (map utf8_of_code_point (code_points s))"
proof -
  have "b < 256" if "b \<in> set (concat (map utf8_of_code_point (code_points s)))" for b
  proof -
    from that obtain c where c: "c \<in> set (code_points s)" "b \<in> set (utf8_of_code_point c)" by auto
    from code_points_scalar [OF c(1)] have "c < 0x110000" by (auto simp: scalar_def)
    with c(2) show ?thesis by (rule utf8_of_code_point_bytes [rotated])
  qed
  then show ?thesis
    unfolding utf8_encode_def map_map o_def
    by (intro map_idI) (simp add: unat_of_nat)
qed

text \<open>No encoding starts with the bytes of the byte order mark unless the string starts with it.\<close>

lemma utf8_bom:
  assumes "take 3 (utf8_encode s) = [0xEF, 0xBB, 0xBF]"
  shows "\<exists>t. code_points s = 0xFEFF # t"
proof -
  have "take 3 (map unat (utf8_encode s)) = [0xEF, 0xBB, 0xBF]"
    using arg_cong [OF assms, of "map unat"] by (simp add: take_map)
  then have e: "take 3 (concat (map utf8_of_code_point (code_points s))) = [0xEF, 0xBB, 0xBF]"
    by (simp add: map_unat_utf8_encode)
  then obtain c t where s: "code_points s = c # t" by (cases "code_points s") auto
  have "scalar c" using code_points_scalar [of c s] s by simp
  have "utf8_scan 0 0 0x80 0xBF ([0xEF, 0xBB, 0xBF] @ drop 3 (concat (map utf8_of_code_point (c # t))))
      = 0xFEFF # utf8_scan 0 0 0x80 0xBF (drop 3 (concat (map utf8_of_code_point (c # t))))"
    by (simp add: utf8_scan.simps)
  moreover have "[0xEF, 0xBB, 0xBF] @ drop 3 (concat (map utf8_of_code_point (c # t)))
      = concat (map utf8_of_code_point (c # t))"
    using e s append_take_drop_id [of 3 "concat (map utf8_of_code_point (c # t))"] by simp
  moreover have "\<forall>c'\<in>set (c # t). scalar c'"
    using code_points_scalar [of _ s] s by simp
  moreover have "utf8_scan 0 0 0x80 0xBF (concat (map utf8_of_code_point (c # t))) = c # t"
    using calculation(3) by (rule utf8_scan_encoded)
  ultimately have "c = 0xFEFF" by (metis list.inject)
  with s show ?thesis by blast
qed

lemma code_points_bom: "well_formed s \<Longrightarrow> code_points s = 0xFEFF # t \<Longrightarrow> \<exists>s'. s = 0xFEFF # s'"
proof (cases s rule: code_points.cases)
  case (2 u)
  assume "code_points s = 0xFEFF # t"
  with 2 have "unat u = unat (0xFEFF :: code_unit)" by (auto split: if_splits)
  then show ?thesis using 2 by (simp add: word_unat_eq_iff)
next
  case (3 u v s')
  assume "well_formed s" "code_points s = 0xFEFF # t"
  with 3 have "unat u = unat (0xFEFF :: code_unit)" by (auto split: if_splits)
  then show ?thesis using 3 by (simp add: word_unat_eq_iff)
qed auto

lemma utf8_roundtrip:
  assumes "well_formed s" "take 1 s \<noteq> [0xFEFF]"
  shows "utf8_decode (utf8_encode s) = s"
proof -
  have "take 3 (utf8_encode s) \<noteq> [0xEF, 0xBB, 0xBF]"
    using utf8_bom code_points_bom [OF assms(1)] assms(2) by fastforce
  then show ?thesis
    using utf8_scan_encoded [of "code_points s"] code_points_scalar utf16_code_points [OF assms(1)]
    by (simp add: utf8_decode_def map_unat_utf8_encode)
qed

subsection \<open>Splitting\<close>

text \<open>\<^verbatim>\<open>text.split(c)\<close> for a separator of one code unit.\<close>

fun split_on :: "code_unit \<Rightarrow> jsstring \<Rightarrow> jsstring list" where
  "split_on c [] = [[]]"
| "split_on c (u # s) =
     (if u = c then [] # split_on c s
      else (case split_on c s of [] \<Rightarrow> [[u]] | w # ws \<Rightarrow> (u # w) # ws))"

fun join_with :: "code_unit \<Rightarrow> jsstring list \<Rightarrow> jsstring" where
  "join_with c [] = []"
| "join_with c [w] = w"
| "join_with c (w # v # ws) = w @ c # join_with c (v # ws)"

lemma split_on_nonempty [simp]: "split_on c s \<noteq> []"
  by (cases s) (auto split: list.splits)

lemma split_on_word: "c \<notin> set w \<Longrightarrow> split_on c w = [w]"
  by (induction w) auto

lemma split_on_append: "c \<notin> set w \<Longrightarrow> split_on c (w @ c # s) = w # split_on c s"
  by (induction w) auto

lemma split_on_join: "ws \<noteq> [] \<Longrightarrow> \<forall>w\<in>set ws. c \<notin> set w \<Longrightarrow> split_on c (join_with c ws) = ws"
  by (induction c ws rule: join_with.induct) (auto simp: split_on_word split_on_append)

lemma join_split_on: "join_with c (split_on c s) = s"
proof (induction s)
  case (Cons u s)
  then show ?case
    by (cases "split_on c s") (auto, (metis join_with.simps(2,3) list.exhaust append_Nil append_Cons)+)
qed simp

end
