(* ===== verification/Faults.thy ===== *)
theory Faults
  imports Prelude
begin

text \<open>
  The errors of \<^verbatim>\<open>sdk/ts/src/core.ts\<close>: the class \<^verbatim>\<open>GossveilError\<close>, the table
  \<^verbatim>\<open>Status\<close>, the table \<^verbatim>\<open>kinds\<close> and the constructor \<^verbatim>\<open>fault\<close>. The
  other constructors of \<open>js_error\<close> are what the runtime raises under the package's code: a
  \<^verbatim>\<open>TypeError\<close>, a \<^verbatim>\<open>RangeError\<close> (a view out of bounds), a wasm trap, a
  rejection of the loader, and \<open>NoReturn\<close> for a loop that does not end.
\<close>

datatype js_error =
    GossveilError (error_status: int) (error_kind: jsstring) (error_message: jsstring)
  | TypeError
  | RangeError
  | RuntimeError
  | LoadError
  | NoReturn

datatype status_key =
    OkKey | InvalidArgument | InvalidState | InvalidKey | InvalidSignature | InvalidMessage
  | InvalidKeyId | UntrustedIdentity | SessionNotFound | DuplicateMessage | LegacyVersion
  | UnrecognizedVersion | OutOfMemory | VerificationFailed | Internal

fun Status :: "status_key \<Rightarrow> int" where
  "Status OkKey = 0"
| "Status InvalidArgument = 1"
| "Status InvalidState = 2"
| "Status InvalidKey = 3"
| "Status InvalidSignature = 4"
| "Status InvalidMessage = 5"
| "Status InvalidKeyId = 6"
| "Status UntrustedIdentity = 7"
| "Status SessionNotFound = 8"
| "Status DuplicateMessage = 9"
| "Status LegacyVersion = 10"
| "Status UnrecognizedVersion = 11"
| "Status OutOfMemory = 12"
| "Status VerificationFailed = 13"
| "Status Internal = 14"

definition kinds :: "int \<Rightarrow> jsstring option" where
  "kinds status = map_of
    [(1, js ''InvalidArgument''), (2, js ''InvalidState''), (3, js ''InvalidKey''),
     (4, js ''InvalidSignature''), (5, js ''InvalidMessage''), (6, js ''InvalidKeyIdentifier''),
     (7, js ''UntrustedIdentity''), (8, js ''SessionNotFound''), (9, js ''DuplicatedMessage''),
     (10, js ''LegacyCiphertextVersion''), (11, js ''UnrecognizedMessageVersion''),
     (12, js ''OutOfMemory''), (13, js ''VerificationFailed''), (14, js ''InternalError'')]
    status"

text \<open>\<^verbatim>\<open>kinds[status] ?? 'InternalError'\<close>.\<close>

definition kind_of :: "int \<Rightarrow> jsstring" where
  "kind_of status = (case kinds status of None \<Rightarrow> js ''InternalError'' | Some k \<Rightarrow> k)"

definition fault :: "status_key \<Rightarrow> jsstring \<Rightarrow> js_error" where
  "fault kind message =
     (let status = Status kind in GossveilError status (kind_of status) message)"

lemma error_status_fault [simp]: "error_status (fault k msg) = Status k"
  by (simp add: fault_def Let_def)

lemma error_kind_fault [simp]: "error_kind (fault k msg) = kind_of (Status k)"
  by (simp add: fault_def Let_def)

lemma fault_inject [simp]: "fault k msg = fault k' msg' \<longleftrightarrow> k = k' \<and> msg = msg'"
  by (cases k; cases k') (simp_all add: fault_def)

lemma fault_neq [simp]:
  "fault k msg \<noteq> TypeError" "fault k msg \<noteq> RangeError" "fault k msg \<noteq> RuntimeError"
  "fault k msg \<noteq> LoadError" "fault k msg \<noteq> NoReturn"
  by (simp_all add: fault_def Let_def)

end
