(* ===== verification/Effects.thy ===== *)
theory Effects
  imports Faults
begin

text \<open>
  Effects of the source. A synchronous function that may throw and changes state is an
  \<open>op\<close>: from a state to a result (\<open>Inl\<close> an exception, \<open>Inr\<close> a value) and the state
  it leaves, also when it throws. An \<^verbatim>\<open>async\<close> function is a \<open>task\<close>: executed, it runs
  one synchronous segment and is then done, or suspended at an \<^verbatim>\<open>await\<close> with the task that
  resumes it. Tasks run to completion (\<open>runT\<close>) or under a schedule that picks which suspended
  task resumes next (\<open>run_schedule\<close>).
\<close>

subsection \<open>Synchronous code\<close>

type_synonym ('s, 'a) op = "'s \<Rightarrow> (js_error + 'a) \<times> 's"

definition ret :: "'a \<Rightarrow> ('s, 'a) op" where
  "ret x = (\<lambda>s. (Inr x, s))"

definition throw :: "js_error \<Rightarrow> ('s, 'a) op" where
  "throw e = (\<lambda>s. (Inl e, s))"

definition andThen :: "('s, 'a) op \<Rightarrow> ('a \<Rightarrow> ('s, 'b) op) \<Rightarrow> ('s, 'b) op" where
  "andThen m k = (\<lambda>s. case m s of (Inl e, s') \<Rightarrow> (Inl e, s') | (Inr x, s') \<Rightarrow> k x s')"

text \<open>\<^verbatim>\<open>if (b) throw e\<close>.\<close>

definition throwIf :: "bool \<Rightarrow> js_error \<Rightarrow> ('s, unit) op" where
  "throwIf b e = (if b then throw e else ret ())"

text \<open>\<^verbatim>\<open>try { m } finally { c }\<close>: an exception of \<open>c\<close> replaces the result.\<close>

definition finallyDo :: "('s, 'a) op \<Rightarrow> ('s, unit) op \<Rightarrow> ('s, 'a) op" where
  "finallyDo m c = (\<lambda>s. case m s of (r, s') \<Rightarrow>
     (case c s' of (Inl e, s'') \<Rightarrow> (Inl e, s'') | (Inr _, s'') \<Rightarrow> (r, s'')))"

text \<open>\<^verbatim>\<open>try { m } catch { return x }\<close>.\<close>

definition orElse :: "('s, 'a) op \<Rightarrow> 'a \<Rightarrow> ('s, 'a) op" where
  "orElse m x = (\<lambda>s. case m s of (Inl _, s') \<Rightarrow> (Inr x, s') | (Inr y, s') \<Rightarrow> (Inr y, s'))"

definition gets :: "('s \<Rightarrow> 'a) \<Rightarrow> ('s, 'a) op" where
  "gets f = (\<lambda>s. (Inr (f s), s))"

definition modify :: "('s \<Rightarrow> 's) \<Rightarrow> ('s, unit) op" where
  "modify f = (\<lambda>s. (Inr (), f s))"

text \<open>A pure computation that may throw.\<close>

definition pureOp :: "js_error + 'a \<Rightarrow> ('s, 'a) op" where
  "pureOp r = (\<lambda>s. (r, s))"

text \<open>An operation on a part of the state.\<close>

definition zoom :: "('s \<Rightarrow> 't) \<Rightarrow> ('t \<Rightarrow> 's \<Rightarrow> 's) \<Rightarrow> ('t, 'a) op \<Rightarrow> ('s, 'a) op" where
  "zoom get put m = (\<lambda>s. case m (get s) of (r, t) \<Rightarrow> (r, put t s))"

text \<open>\<^verbatim>\<open>for (const x of xs)\<close> and \<^verbatim>\<open>xs.map(f)\<close>, stopping at the first exception.\<close>

fun each :: "('x \<Rightarrow> ('s, 'y) op) \<Rightarrow> 'x list \<Rightarrow> ('s, 'y list) op" where
  "each f [] = ret []"
| "each f (x # xs) = andThen (f x) (\<lambda>y. andThen (each f xs) (\<lambda>ys. ret (y # ys)))"

lemma ret_apply [simp, op_simps]: "ret x s = (Inr x, s)"
  by (simp add: ret_def)

lemma throw_apply [simp, op_simps]: "throw e s = (Inl e, s)"
  by (simp add: throw_def)

lemma gets_apply [simp, op_simps]: "gets f s = (Inr (f s), s)"
  by (simp add: gets_def)

lemma modify_apply [simp, op_simps]: "modify f s = (Inr (), f s)"
  by (simp add: modify_def)

lemma pureOp_apply [simp, op_simps]: "pureOp r s = (r, s)"
  by (simp add: pureOp_def)

lemma throwIf_apply [simp, op_simps]: "throwIf b e s = (if b then Inl e else Inr (), s)"
  by (simp add: throwIf_def)

lemma zoom_apply [op_simps]: "zoom get put m s = (fst (m (get s)), put (snd (m (get s))) s)"
  by (simp add: zoom_def split: prod.split)

lemma andThen_apply [op_simps]:
  "andThen m k s = (case fst (m s) of Inl e \<Rightarrow> (Inl e, snd (m s)) | Inr x \<Rightarrow> k x (snd (m s)))"
  by (simp add: andThen_def split: prod.split sum.split)

lemma andThen_ret [simp]: "andThen (ret x) k = k x"
  by (simp add: andThen_def)

lemma andThen_throw [simp]: "andThen (throw e) k = throw e"
  by (simp add: andThen_def throw_def)

lemma andThen_ret_right [simp]: "andThen m ret = m"
  by (rule ext) (auto simp: andThen_def split: prod.splits sum.splits)

lemma andThen_assoc: "andThen (andThen m k) h = andThen m (\<lambda>x. andThen (k x) h)"
  by (rule ext) (auto simp: andThen_def split: prod.splits sum.splits)

lemma andThen_Inr: "m s = (Inr x, s') \<Longrightarrow> andThen m k s = k x s'"
  by (simp add: andThen_def)

lemma andThen_Inl: "m s = (Inl e, s') \<Longrightarrow> andThen m k s = (Inl e, s')"
  by (simp add: andThen_def)

lemma andThen_InrE:
  assumes "andThen m k s = (Inr y, s'')"
  obtains x s' where "m s = (Inr x, s')" "k x s' = (Inr y, s'')"
  using assms by (auto simp: andThen_def split: prod.splits sum.splits)

lemma finallyDo_apply:
  "m s = (r, s') \<Longrightarrow> c s' = (Inr u, s'') \<Longrightarrow> finallyDo m c s = (r, s'')"
  by (simp add: finallyDo_def)

text \<open>Operations that leave a given view of the state alone.\<close>

definition keeps :: "('s \<Rightarrow> 'v) \<Rightarrow> ('s, 'a) op \<Rightarrow> bool" where
  "keeps v m \<longleftrightarrow> (\<forall>s. v (snd (m s)) = v s)"

lemma keepsD: "keeps v m \<Longrightarrow> v (snd (m s)) = v s"
  by (simp add: keeps_def)

lemma keeps_ret [intro, simp]: "keeps v (ret x)"
  by (simp add: keeps_def)

lemma keeps_throw [intro, simp]: "keeps v (throw e)"
  by (simp add: keeps_def)

lemma keeps_andThen [intro]: "keeps v m \<Longrightarrow> (\<And>x. keeps v (k x)) \<Longrightarrow> keeps v (andThen m k)"
  by (auto simp: keeps_def andThen_def split: prod.splits sum.splits) (metis snd_conv)+

subsection \<open>Asynchronous code\<close>

datatype ('a, 't) outcome = Done "js_error + 'a" | Await 't

declare sum.map_id [simp]

datatype ('s, 'a) task = Task (exec: "'s \<Rightarrow> ('a, ('s, 'a) task) outcome \<times> 's")

text \<open>A segment with no \<^verbatim>\<open>await\<close> in it.\<close>

definition sync :: "('s, 'a) op \<Rightarrow> ('s, 'a) task" where
  "sync m = Task (\<lambda>s. case m s of (r, s') \<Rightarrow> (Done r, s'))"

text \<open>Sequencing: the continuation runs in the segment that ends the first task.\<close>

primrec bindT :: "('s, 'a) task \<Rightarrow> ('a \<Rightarrow> ('s, 'b) task) \<Rightarrow> ('s, 'b) task" where
  "bindT (Task f) k = Task (\<lambda>s.
     (case map_prod (map_outcome id (\<lambda>t. bindT t k)) id (f s) of
       (Done (Inl e), s') \<Rightarrow> (Done (Inl e), s')
     | (Done (Inr x), s') \<Rightarrow> exec (k x) s'
     | (Await t, s') \<Rightarrow> (Await t, s')))"

text \<open>
  \<^verbatim>\<open>await p\<close>: the callee has run up to its first suspension; the caller is suspended, also
  when the callee is already done, and resumes some time after the callee has ended.
\<close>

definition resumeWith :: "js_error + 'a \<Rightarrow> ('s, 'a) task" where
  "resumeWith r = Task (\<lambda>s. (Done r, s))"

primrec awaitT :: "('s, 'a) task \<Rightarrow> ('s, 'a) task" where
  "awaitT (Task f) = Task (\<lambda>s.
     (case map_prod (map_outcome id awaitT) id (f s) of
       (Done r, s') \<Rightarrow> (Await (resumeWith r), s')
     | (Await t, s') \<Rightarrow> (Await t, s')))"

text \<open>Running a task to its end with nothing in between.\<close>

primrec runT :: "('s, 'a) task \<Rightarrow> ('s, 'a) op" where
  "runT (Task f) = (\<lambda>s.
     (case map_prod (map_outcome id runT) id (f s) of
       (Done r, s') \<Rightarrow> (r, s')
     | (Await g, s') \<Rightarrow> g s'))"

lemma runT_sync [task_simps]: "runT (sync m) = m"
  by (rule ext) (simp add: sync_def split: prod.split)

lemma runT_resumeWith [task_simps]: "runT (resumeWith r) = pureOp r"
  by (rule ext) (simp add: resumeWith_def)

lemma runT_bindT_apply: "runT (bindT t k) s = andThen (runT t) (\<lambda>x. runT (k x)) s"
proof (induction t arbitrary: s)
  case (Task f)
  obtain oc s' where f: "f s = (oc, s')" by (cases "f s")
  show ?case
  proof (cases oc)
    case (Done r)
    show ?thesis
    proof (cases r)
      case (Inr x)
      obtain g where "k x = Task g" by (cases "k x")
      with f Done Inr show ?thesis by (simp add: andThen_def)
    qed (simp add: f Done andThen_def)
  next
    case (Await t)
    have "runT (bindT t k) s' = andThen (runT t) (\<lambda>x. runT (k x)) s'"
      by (rule Task.IH [of "f s" oc]) (use f Await in \<open>auto intro: range_eqI [where x = s]\<close>)
    with f Await show ?thesis by (simp add: andThen_def)
  qed
qed

lemma runT_bindT [task_simps]: "runT (bindT t k) = andThen (runT t) (\<lambda>x. runT (k x))"
  by (rule ext) (rule runT_bindT_apply)

lemma runT_awaitT_apply: "runT (awaitT t) s = runT t s"
proof (induction t arbitrary: s)
  case (Task f)
  obtain oc s' where f: "f s = (oc, s')" by (cases "f s")
  show ?case
  proof (cases oc)
    case (Done r)
    with f show ?thesis by (simp add: runT_resumeWith)
  next
    case (Await t)
    have "runT (awaitT t) s' = runT t s'"
      by (rule Task.IH [of "f s" oc]) (use f Await in \<open>auto intro: range_eqI [where x = s]\<close>)
    with f Await show ?thesis by simp
  qed
qed

lemma runT_awaitT [task_simps]: "runT (awaitT t) = runT t"
  by (rule ext) (rule runT_awaitT_apply)

lemma runT_if [task_simps]: "runT (if b then t else u) = (if b then runT t else runT u)"
  by simp

lemma runT_case [task_simps]:
  "runT (case o1 of None \<Rightarrow> t | Some x \<Rightarrow> k x) = (case o1 of None \<Rightarrow> runT t | Some x \<Rightarrow> runT (k x))"
  "runT (case p of (x, y) \<Rightarrow> h x y) = (case p of (x, y) \<Rightarrow> runT (h x y))"
  by (cases o1, auto) (cases p, auto)

lemma exec_sync [simp]: "exec (sync m) s = (Done (fst (m s)), snd (m s))"
  by (simp add: sync_def split: prod.split)

lemma exec_resumeWith [simp]: "exec (resumeWith r) s = (Done r, s)"
  by (simp add: resumeWith_def)

lemma exec_bindT:
  "exec (bindT t k) s = (case exec t s of
       (Done (Inl e), s') \<Rightarrow> (Done (Inl e), s')
     | (Done (Inr x), s') \<Rightarrow> exec (k x) s'
     | (Await u, s') \<Rightarrow> (Await (bindT u k), s'))"
  by (cases t) (auto split: outcome.splits sum.splits prod.splits)

lemma exec_awaitT:
  "exec (awaitT t) s = (case exec t s of
       (Done r, s') \<Rightarrow> (Await (resumeWith r), s')
     | (Await u, s') \<Rightarrow> (Await (awaitT u), s'))"
  by (cases t) (auto split: outcome.splits prod.splits)

subsection \<open>Schedules\<close>

text \<open>
  A pool of calls in flight, each done or suspended, over one state. A schedule is the sequence
  of the calls that are resumed; an index out of the pool or of a finished call does nothing.
\<close>

fun run_schedule ::
    "nat list \<Rightarrow> ('a, ('s, 'a) task) outcome list \<Rightarrow> 's \<Rightarrow> ('a, ('s, 'a) task) outcome list \<times> 's" where
  "run_schedule [] pool s = (pool, s)"
| "run_schedule (i # sched) pool s =
     (if i < length pool
      then (case pool ! i of
              Done r \<Rightarrow> run_schedule sched pool s
            | Await t \<Rightarrow> (case exec t s of (oc, s') \<Rightarrow> run_schedule sched (pool[i := oc]) s'))
      else run_schedule sched pool s)"

text \<open>A call that never suspends.\<close>

definition atomic :: "('s, 'a) task \<Rightarrow> bool" where
  "atomic t \<longleftrightarrow> (\<forall>s. fst (exec t s) = Done (fst (runT t s)) \<and> snd (exec t s) = snd (runT t s))"

lemma atomic_sync [simp, intro]: "atomic (sync m)"
  by (simp add: atomic_def runT_sync)

end
