(* ===== verification/Memory.thy ===== *)
theory Memory
  imports Text Effects
begin

text \<open>
  The seam of \<^verbatim>\<open>sdk/ts/src/core.ts\<close>: the linear memory of the loaded wasm instance,
  \<^verbatim>\<open>reserve\<close>, the classes \<^verbatim>\<open>In\<close>, \<^verbatim>\<open>Out\<close> and \<^verbatim>\<open>Pad\<close>,
  \<^verbatim>\<open>check\<close>, \<^verbatim>\<open>invoke\<close> and \<^verbatim>\<open>bytesEqual\<close>.

  The wasm module is a file the build generates, so its exports are a parameter: a \<open>wasm\<close> record
  of the functions the package calls, acting on the instance's state. A state is the linear
  memory, its size, and \<open>inner\<close>, whatever else the module keeps (its allocator's books, its
  entropy). Every function here starts from \<^verbatim>\<open>loaded()\<close>; the operations below run on the
  loaded instance, and \<open>Loader.with_core\<close> makes that check. Addresses are below 2 GiB, so that
  the signed 32-bit results of the exports are the addresses.
\<close>

datatype arg = Num int | Big int

record 'w machine =
  buffer :: "nat \<Rightarrow> byte"
  memory_size :: nat
  inner :: 'w

record 'w wasm =
  gv_alloc :: "nat \<Rightarrow> 'w machine \<Rightarrow> nat \<times> 'w machine"
  gv_free :: "nat \<Rightarrow> nat \<Rightarrow> 'w machine \<Rightarrow> 'w machine"
  gv_status_text :: "int \<Rightarrow> 'w machine \<Rightarrow> nat"
  export_fn :: "jsstring \<Rightarrow> (arg list \<Rightarrow> 'w machine \<Rightarrow> (js_error + int) \<times> 'w machine) option"

subsection \<open>Views of the memory\<close>

definition block :: "'w machine \<Rightarrow> nat \<Rightarrow> nat \<Rightarrow> bytes" where
  "block m p n = map (buffer m) [p..<p + n]"

definition poke :: "nat \<Rightarrow> bytes \<Rightarrow> 'w machine \<Rightarrow> 'w machine" where
  "poke p bs m = m\<lparr>buffer := (\<lambda>a. if p \<le> a \<and> a < p + length bs then bs ! (a - p) else buffer m a)\<rparr>"

text \<open>\<^verbatim>\<open>new Uint8Array(memory.buffer, ptr, len)\<close> read or filled at once; a view that does
  not fit the memory is a \<^verbatim>\<open>RangeError\<close>, and so is a \<^verbatim>\<open>Uint32Array\<close> that is not
  aligned to four bytes.\<close>

definition read_view :: "nat \<Rightarrow> nat \<Rightarrow> ('w machine, bytes) op" where
  "read_view p n = (\<lambda>m. if p + n \<le> memory_size m then (Inr (block m p n), m) else (Inl RangeError, m))"

definition write_view :: "nat \<Rightarrow> bytes \<Rightarrow> ('w machine, unit) op" where
  "write_view p bs = (\<lambda>m. if p + length bs \<le> memory_size m then (Inr (), poke p bs m) else (Inl RangeError, m))"

definition aligned4 :: "nat \<Rightarrow> ('w machine, unit) op" where
  "aligned4 p = throwIf (p mod 4 \<noteq> 0) RangeError"

subsection \<open>reserve, In, Out, Pad\<close>

definition reserve :: "'w wasm \<Rightarrow> nat \<Rightarrow> ('w machine, nat) op" where
  "reserve W len = (\<lambda>m. case gv_alloc W len m of (ptr, m') \<Rightarrow>
     if ptr = 0 then (Inl (fault OutOfMemory (js ''out of memory'')), m') else (Inr ptr, m'))"

definition release :: "'w wasm \<Rightarrow> nat \<Rightarrow> nat \<Rightarrow> ('w machine, unit) op" where
  "release W ptr len = modify (gv_free W ptr len)"

text \<open>The argument of \<^verbatim>\<open>In\<close>: bytes, or a string that is encoded.\<close>

datatype in_value = Bytes bytes | Str jsstring

fun data_of :: "in_value \<Rightarrow> bytes" where
  "data_of (Bytes b) = b"
| "data_of (Str s) = utf8_encode s"

record in_obj =
  in_ptr :: nat
  in_len :: nat

definition In_new :: "'w wasm \<Rightarrow> in_value \<Rightarrow> ('w machine, in_obj) op" where
  "In_new W v =
     (let data = data_of v in
      if length data = 0 then ret \<lparr>in_ptr = 0, in_len = 0\<rparr>
      else andThen (reserve W (length data)) (\<lambda>ptr.
           andThen (write_view ptr data) (\<lambda>_.
           ret \<lparr>in_ptr = ptr, in_len = length data\<rparr>)))"

definition In_free :: "'w wasm \<Rightarrow> in_obj \<Rightarrow> ('w machine, unit) op" where
  "In_free W i = (if in_len i > 0 then release W (in_ptr i) (in_len i) else ret ())"

text \<open>An output: the address of an eight-byte cell the call fills with a pointer and a length.\<close>

record out_obj =
  cell :: nat

definition Out_new :: "'w wasm \<Rightarrow> ('w machine, out_obj) op" where
  "Out_new W =
     andThen (reserve W 8) (\<lambda>c.
     andThen (aligned4 c) (\<lambda>_.
     andThen (write_view c (replicate 8 0)) (\<lambda>_.
     ret \<lparr>cell = c\<rparr>)))"

definition Out_take :: "'w wasm \<Rightarrow> out_obj \<Rightarrow> ('w machine, bytes) op" where
  "Out_take W o1 =
     andThen (aligned4 (cell o1)) (\<lambda>_.
     andThen (read_view (cell o1) 8) (\<lambda>words.
     (let ptr = from_le (take 4 words); len = from_le (drop 4 words) in
      andThen (if len > 0
               then andThen (read_view ptr len) (\<lambda>copy. andThen (release W ptr len) (\<lambda>_. ret copy))
               else ret []) (\<lambda>copy.
      andThen (release W (cell o1) 8) (\<lambda>_.
      ret copy)))))"

record pad_obj =
  pad_ptr :: nat
  pad_len :: nat

definition Pad_new :: "'w wasm \<Rightarrow> nat \<Rightarrow> ('w machine, pad_obj) op" where
  "Pad_new W len =
     andThen (reserve W len) (\<lambda>ptr.
     andThen (write_view ptr (replicate len 0)) (\<lambda>_.
     ret \<lparr>pad_ptr = ptr, pad_len = len\<rparr>))"

text \<open>\<^verbatim>\<open>view()\<close>: the bytes under the \<^verbatim>\<open>DataView\<close> at the time it is read.\<close>

definition Pad_view :: "pad_obj \<Rightarrow> ('w machine, bytes) op" where
  "Pad_view p = read_view (pad_ptr p) (pad_len p)"

definition Pad_free :: "'w wasm \<Rightarrow> pad_obj \<Rightarrow> ('w machine, unit) op" where
  "Pad_free W p = release W (pad_ptr p) (pad_len p)"

subsection \<open>check and invoke\<close>

text \<open>The scan for the terminating zero. Past the end of the memory \<^verbatim>\<open>mem[end]\<close> is
  \<^verbatim>\<open>undefined\<close>, never zero, and the scan does not return: \<open>None\<close>.\<close>

function text_end :: "(nat \<Rightarrow> byte) \<Rightarrow> nat \<Rightarrow> nat \<Rightarrow> nat option" where
  "text_end mem lim at = (if lim \<le> at then None else if mem at = 0 then Some at else text_end mem lim (Suc at))"
  by pat_completeness auto
termination
  by (relation "measure (\<lambda>(mem, lim, at). lim - at)") auto

declare text_end.simps [simp del]

definition check_status :: "'w wasm \<Rightarrow> int \<Rightarrow> ('w machine, unit) op" where
  "check_status W status =
     (if status = 0 then ret ()
      else (\<lambda>m. let at = gv_status_text W status m in
        (case text_end (buffer m) (memory_size m) at of
           None \<Rightarrow> (Inl NoReturn, m)
         | Some e \<Rightarrow> (Inl (GossveilError status (kind_of status) (utf8_decode (block m at (e - at)))), m))))"

definition invoke :: "'w wasm \<Rightarrow> jsstring \<Rightarrow> arg list \<Rightarrow> ('w machine, int) op" where
  "invoke W name args =
     (case export_fn W name of
        None \<Rightarrow> throw (fault Internal (js ''missing export '' @ name))
      | Some fn \<Rightarrow> fn args)"

text \<open>The comparison without an early exit: the bitwise or of the differences.\<close>

definition bytesEqual :: "bytes \<Rightarrow> bytes \<Rightarrow> bool" where
  "bytesEqual a b =
     (if length a \<noteq> length b then False
      else foldl (\<lambda>diff (x, y). or diff (xor x y)) 0 (zip a b) = 0)"

subsection \<open>Lemmas on views\<close>

lemma length_block [simp]: "length (block m p n) = n"
  by (simp add: block_def)

lemma block_0 [simp]: "block m p 0 = []"
  by (simp add: block_def)

lemma block_cong: "(\<And>a. p \<le> a \<Longrightarrow> a < p + n \<Longrightarrow> buffer m a = buffer m' a) \<Longrightarrow> block m p n = block m' p n"
  by (simp add: block_def)

lemma poke_simps [simp]:
  "memory_size (poke p bs m) = memory_size m" "inner (poke p bs m) = inner m"
  by (simp_all add: poke_def)

lemma block_poke_same [simp]: "block (poke p bs m) p (length bs) = bs"
  by (rule nth_equalityI) (auto simp: block_def poke_def)

lemma block_poke_other: "p + length bs \<le> q \<or> q + n \<le> p \<Longrightarrow> block (poke p bs m) q n = block m q n"
  by (rule block_cong) (auto simp: poke_def)

lemma text_end_Some: "text_end mem lim at = Some e \<Longrightarrow> at \<le> e \<and> e < lim \<and> mem e = 0 \<and> (\<forall>a. at \<le> a \<and> a < e \<longrightarrow> mem a \<noteq> 0)"
proof (induction mem lim at rule: text_end.induct)
  case (1 mem lim at)
  show ?case
  proof (cases "lim \<le> at \<or> mem at = 0")
    case True
    with "1.prems" show ?thesis by (auto simp: text_end.simps [of mem lim at] split: if_splits)
  next
    case False
    with "1" have IH: "Suc at \<le> e \<and> e < lim \<and> mem e = 0 \<and> (\<forall>a. Suc at \<le> a \<and> a < e \<longrightarrow> mem a \<noteq> 0)"
      by (simp add: text_end.simps [of mem lim at])
    with False show ?thesis by (metis le_antisym not_less_eq_eq Suc_leD)
  qed
qed

lemma text_end_finds: "at \<le> e \<Longrightarrow> e < lim \<Longrightarrow> mem e = 0 \<Longrightarrow> \<exists>e'. text_end mem lim at = Some e'"
proof (induction mem lim at rule: text_end.induct)
  case (1 mem lim at)
  show ?case
  proof (cases "mem at = 0")
    case True
    with "1.prems" show ?thesis by (simp add: text_end.simps [of mem lim at])
  next
    case False
    with "1.prems" have "at \<noteq> e" by auto
    with "1" False show ?thesis by (simp add: text_end.simps [of mem lim at])
  qed
qed

subsection \<open>bytesEqual\<close>

lemma or_eq_0_iff: "or (a :: byte) b = 0 \<longleftrightarrow> a = 0 \<and> b = 0"
  by (auto simp: bit_eq_iff bit_or_iff)

lemma xor_eq_0_iff: "xor (a :: byte) b = 0 \<longleftrightarrow> a = b"
  by (auto simp: bit_eq_iff bit_xor_iff)

lemma foldl_or_eq_0:
  "foldl (\<lambda>diff (x, y). or diff (xor x y)) (d :: byte) xys = 0 \<longleftrightarrow> d = 0 \<and> (\<forall>(x, y)\<in>set xys. x = y)"
  by (induction xys arbitrary: d) (auto simp: or_eq_0_iff xor_eq_0_iff)

lemma zip_same_iff: "length a = length b \<Longrightarrow> (\<forall>(x, y)\<in>set (zip a b). x = y) \<longleftrightarrow> a = b"
  by (induction a b rule: list_induct2) auto

text \<open>The comparison that never exits early on a difference decides equality of the bytes.\<close>

lemma bytesEqual_iff: "bytesEqual a b \<longleftrightarrow> a = b"
  by (auto simp: bytesEqual_def foldl_or_eq_0 zip_same_iff)

end
