(* ===== verification/Call.thy ===== *)
theory Call
  imports Memory
begin

text \<open>
  The class \<^verbatim>\<open>Call\<close> of \<^verbatim>\<open>sdk/ts/src/bridge.ts\<close>: a call gathers its inputs,
  scalars, output cells and pads in argument order, runs one export, copies every output out and
  frees what it allocated. A chain \<^verbatim>\<open>Call.to(n).bytes(a).num(b).out().pad(k)\<close> is the list of
  its steps. \<open>finish\<close> hands the outputs and the bytes of the pads to the reader, which for
  every caller is a pure function of them.

  The theorems of this theory are about what a call does to the instance's memory, given a core
  that keeps the contract of \<^verbatim>\<open>include/gossveil.h\<close> (\<open>core_ok\<close>): inputs are a pointer
  and a length, outputs are cells the core fills with a buffer the caller frees once, and on a
  non-zero status every cell is empty.
\<close>

datatype step = SBytes in_value | SNum arg | SOut | SPad nat

record call_obj =
  call_name :: jsstring
  call_args :: "arg list"
  call_ins :: "in_obj list"
  call_outs :: "out_obj list"
  call_pads :: "pad_obj list"

definition Call_to :: "jsstring \<Rightarrow> call_obj" where
  "Call_to name = \<lparr>call_name = name, call_args = [], call_ins = [], call_outs = [], call_pads = []\<rparr>"

fun Call_step :: "'w wasm \<Rightarrow> step \<Rightarrow> call_obj \<Rightarrow> ('w machine, call_obj) op" where
  "Call_step W (SBytes v) c =
     andThen (In_new W v) (\<lambda>i.
     ret (c\<lparr>call_ins := call_ins c @ [i],
            call_args := call_args c @ [Num (int (in_ptr i)), Num (int (in_len i))]\<rparr>))"
| "Call_step W (SNum a) c = ret (c\<lparr>call_args := call_args c @ [a]\<rparr>)"
| "Call_step W SOut c =
     andThen (Out_new W) (\<lambda>o1.
     ret (c\<lparr>call_outs := call_outs c @ [o1], call_args := call_args c @ [Num (int (cell o1))]\<rparr>))"
| "Call_step W (SPad n) c =
     andThen (Pad_new W n) (\<lambda>p.
     ret (c\<lparr>call_pads := call_pads c @ [p], call_args := call_args c @ [Num (int (pad_ptr p))]\<rparr>))"

fun gather :: "'w wasm \<Rightarrow> step list \<Rightarrow> call_obj \<Rightarrow> ('w machine, call_obj) op" where
  "gather W [] c = ret c"
| "gather W (st # sts) c = andThen (Call_step W st c) (gather W sts)"

definition Call_finish :: "'w wasm \<Rightarrow> call_obj \<Rightarrow> ('w machine, bytes list \<times> bytes list) op" where
  "Call_finish W c =
     finallyDo
       (andThen (invoke W (call_name c) (call_args c)) (\<lambda>status.
        andThen (each (Out_take W) (call_outs c)) (\<lambda>outs.
        andThen (check_status W status) (\<lambda>_.
        andThen (each Pad_view (call_pads c)) (\<lambda>pads.
        ret (outs, pads))))))
       (andThen (each (In_free W) (call_ins c)) (\<lambda>_.
        andThen (each (Pad_free W) (call_pads c)) (\<lambda>_.
        ret ())))"

definition Call_run :: "'w wasm \<Rightarrow> jsstring \<Rightarrow> step list \<Rightarrow> ('w machine, bytes list \<times> bytes list) op" where
  "Call_run W name steps = andThen (gather W steps (Call_to name)) (Call_finish W)"

subsection \<open>The contract of the core\<close>

text \<open>
  The core side of the contract: \<open>live\<close> are the blocks handed out and not freed, \<open>view\<close>
  the rest of the core's state that its answers depend on, \<open>inv\<close> what is always true of an
  instance, which writing into a live block does not break.
\<close>

record ('w, 'e) books =
  live :: "'w \<Rightarrow> nat \<Rightarrow> nat option"
  view :: "'w \<Rightarrow> 'e"
  inv :: "'w machine \<Rightarrow> bool"

definition inv_ok :: "('w, 'e) books \<Rightarrow> bool" where
  "inv_ok B \<longleftrightarrow>
     (\<forall>m. inv B m \<longrightarrow>
       (\<forall>p n. live B (inner m) p = Some n \<longrightarrow> 0 < p \<and> 0 < n \<and> p + n \<le> memory_size m \<and> p + n < 2 ^ 32) \<and>
       (\<forall>p n q k. live B (inner m) p = Some n \<longrightarrow> live B (inner m) q = Some k \<longrightarrow> p \<noteq> q \<longrightarrow>
          p + n \<le> q \<or> q + k \<le> p) \<and>
       (\<forall>p bs. live B (inner m) p = Some (length bs) \<longrightarrow> inv B (poke p bs m)))"

text \<open>Blocks outside \<open>ks\<close> keep their contents.\<close>

definition undisturbed :: "('w, 'e) books \<Rightarrow> nat set \<Rightarrow> 'w machine \<Rightarrow> 'w machine \<Rightarrow> bool" where
  "undisturbed B ks m m' \<longleftrightarrow>
     (\<forall>q k. live B (inner m) q = Some k \<longrightarrow> q \<notin> ks \<longrightarrow> block m' q k = block m q k)"

definition alloc_ok :: "'w wasm \<Rightarrow> ('w, 'e) books \<Rightarrow> bool" where
  "alloc_ok W B \<longleftrightarrow>
     (\<forall>n m p m'. 0 < n \<longrightarrow> inv B m \<longrightarrow> gv_alloc W n m = (p, m') \<longrightarrow>
        view B (inner m') = view B (inner m) \<and> inv B m' \<and> undisturbed B {} m m' \<and>
        (if p = 0 then live B (inner m') = live B (inner m)
         else live B (inner m) p = None \<and> live B (inner m') = (live B (inner m))(p \<mapsto> n) \<and>
              (n = 8 \<longrightarrow> p mod 4 = 0)))"

definition free_ok :: "'w wasm \<Rightarrow> ('w, 'e) books \<Rightarrow> bool" where
  "free_ok W B \<longleftrightarrow>
     (\<forall>p n m. inv B m \<longrightarrow> live B (inner m) p = Some n \<longrightarrow>
        (let m' = gv_free W p n m in
         view B (inner m') = view B (inner m) \<and> inv B m' \<and> undisturbed B {p} m m' \<and>
         live B (inner m') = (live B (inner m))(p := None)))"

text \<open>The text of a status, zero-terminated in memory.\<close>

definition text_ok :: "'w wasm \<Rightarrow> ('w, 'e) books \<Rightarrow> (int \<Rightarrow> bytes) \<Rightarrow> bool" where
  "text_ok W B text \<longleftrightarrow>
     (\<forall>status m. inv B m \<longrightarrow> (let at = gv_status_text W status m; n = length (text status) in
        block m at n = text status \<and> 0 \<notin> set (text status) \<and>
        at + n < memory_size m \<and> buffer m (at + n) = 0))"

text \<open>One argument position of a call as it lies in memory.\<close>

datatype slot = InSlot nat nat | NumSlot arg | OutSlot nat | PadSlot nat nat

fun slot_args :: "slot \<Rightarrow> arg list" where
  "slot_args (InSlot p n) = [Num (int p), Num (int n)]"
| "slot_args (NumSlot a) = [a]"
| "slot_args (OutSlot c) = [Num (int c)]"
| "slot_args (PadSlot p n) = [Num (int p)]"

fun slot_blocks :: "slot \<Rightarrow> (nat \<times> nat) list" where
  "slot_blocks (InSlot p n) = (if n = 0 then [] else [(p, n)])"
| "slot_blocks (NumSlot a) = []"
| "slot_blocks (OutSlot c) = [(c, 8)]"
| "slot_blocks (PadSlot p n) = [(p, n)]"

fun fits :: "'w machine \<Rightarrow> slot \<Rightarrow> step \<Rightarrow> bool" where
  "fits m (InSlot p n) (SBytes v) = (n = length (data_of v) \<and> block m p n = data_of v)"
| "fits m (NumSlot a) (SNum b) = (a = b)"
| "fits m (OutSlot c) SOut = (block m c 8 = replicate 8 0 \<and> c mod 4 = 0)"
| "fits m (PadSlot p n) (SPad k) = (n = k \<and> 0 < n \<and> block m p n = replicate n 0)"
| "fits m _ _ = False"

definition slots_live :: "('w, 'e) books \<Rightarrow> slot list \<Rightarrow> 'w machine \<Rightarrow> bool" where
  "slots_live B slots m \<longleftrightarrow>
     distinct (map fst (concat (map slot_blocks slots))) \<and>
     (\<forall>(p, n)\<in>set (concat (map slot_blocks slots)). live B (inner m) p = Some n)"

fun out_cells :: "slot list \<Rightarrow> nat list" where
  "out_cells [] = []"
| "out_cells (OutSlot c # ss) = c # out_cells ss"
| "out_cells (_ # ss) = out_cells ss"

fun pad_cells :: "slot list \<Rightarrow> (nat \<times> nat) list" where
  "pad_cells [] = []"
| "pad_cells (PadSlot p n # ss) = (p, n) # pad_cells ss"
| "pad_cells (_ # ss) = pad_cells ss"

fun in_cells :: "slot list \<Rightarrow> (nat \<times> nat) list" where
  "in_cells [] = []"
| "in_cells (InSlot p n # ss) = (p, n) # in_cells ss"
| "in_cells (_ # ss) = in_cells ss"

text \<open>A cell filled with the buffer at \<open>p\<close> that holds \<open>data\<close>; no buffer for no data.\<close>

definition filled :: "'w machine \<Rightarrow> nat \<Rightarrow> nat \<times> bytes \<Rightarrow> bool" where
  "filled m c pd = (case pd of (p, data) \<Rightarrow>
     block m c 8 = le_bytes 4 p @ le_bytes 4 (length data) \<and> block m p (length data) = data \<and>
     p < 2 ^ 32 \<and> length data < 2 ^ 32)"

definition out_blocks :: "(nat \<times> bytes) list \<Rightarrow> (nat \<times> nat) list" where
  "out_blocks bufs = concat (map (\<lambda>(p, d). if d = [] then [] else [(p, length d)]) bufs)"

text \<open>The meaning of the exports, a relation (an export may draw randomness or run out of memory):
  the answers allowed for the steps with their inputs in a view, each a status, the outputs and
  the pads, and the next view.\<close>

type_synonym 'e meaning =
  "jsstring \<Rightarrow> step list \<Rightarrow> 'e \<Rightarrow> int \<times> bytes list \<times> bytes list \<Rightarrow> 'e \<Rightarrow> bool"

definition answers ::
    "('w, 'e) books \<Rightarrow> slot list \<Rightarrow> 'w machine \<Rightarrow> bytes list \<Rightarrow> bytes list \<Rightarrow> 'w machine \<Rightarrow> bool" where
  "answers B slots m outs pads m' \<longleftrightarrow>
     (\<exists>bufs. map snd bufs = outs \<and>
        inv B m' \<and>
        undisturbed B (set (out_cells slots) \<union> fst ` set (pad_cells slots)) m m' \<and>
        list_all2 (filled m') (out_cells slots) bufs \<and>
        list_all2 (\<lambda>(p, n) d. block m' p n = d) (pad_cells slots) pads \<and>
        distinct (map fst (out_blocks bufs)) \<and>
        (\<forall>p\<in>fst ` set (out_blocks bufs). live B (inner m) p = None) \<and>
        live B (inner m') = live B (inner m) ++ map_of (out_blocks bufs))"

definition export_ok :: "'w wasm \<Rightarrow> ('w, 'e) books \<Rightarrow> 'e meaning \<Rightarrow> jsstring \<Rightarrow> step list \<Rightarrow> bool" where
  "export_ok W B sem name steps \<longleftrightarrow>
     (\<exists>fn. export_fn W name = Some fn \<and>
       (\<forall>m slots.
          inv B m \<longrightarrow> list_all2 (fits m) slots steps \<longrightarrow> slots_live B slots m \<longrightarrow>
          (\<exists>st outs pads m'. fn (concat (map slot_args slots)) m = (Inr st, m') \<and>
                sem name steps (view B (inner m)) (st, outs, pads) (view B (inner m')) \<and>
                answers B slots m outs pads m')))"

definition core_ok ::
    "'w wasm \<Rightarrow> ('w, 'e) books \<Rightarrow> (int \<Rightarrow> bytes) \<Rightarrow> 'e meaning \<Rightarrow> jsstring \<Rightarrow> step list \<Rightarrow> bool" where
  "core_ok W B text sem name steps \<longleftrightarrow>
     inv_ok B \<and> alloc_ok W B \<and> free_ok W B \<and> text_ok W B text \<and> export_ok W B sem name steps"

text \<open>What a call means: the outputs and pads, or the error of its status.\<close>

definition meaning_result :: "(int \<Rightarrow> bytes) \<Rightarrow> int \<times> bytes list \<times> bytes list \<Rightarrow> js_error + bytes list \<times> bytes list" where
  "meaning_result text r = (case r of (st, outs, pads) \<Rightarrow>
     if st = 0 then Inr (outs, pads) else Inl (GossveilError st (kind_of st) (utf8_decode (text st))))"

subsection \<open>Allocating\<close>

lemma inv_live:
  assumes "inv_ok B" "inv B m" "live B (inner m) p = Some n"
  shows "0 < p" "0 < n" "p + n \<le> memory_size m" "p + n < 2 ^ 32"
  using assms unfolding inv_ok_def by blast+

lemma inv_apart:
  "inv_ok B \<Longrightarrow> inv B m \<Longrightarrow> live B (inner m) p = Some n \<Longrightarrow> live B (inner m) q = Some k \<Longrightarrow> p \<noteq> q \<Longrightarrow>
    p + n \<le> q \<or> q + k \<le> p"
  unfolding inv_ok_def by blast

lemma inv_poke: "inv_ok B \<Longrightarrow> inv B m \<Longrightarrow> live B (inner m) p = Some (length bs) \<Longrightarrow> inv B (poke p bs m)"
  unfolding inv_ok_def by blast

lemma undisturbed_refl [simp]: "undisturbed B ks m m"
  by (simp add: undisturbed_def)

lemma undisturbedD:
  "undisturbed B ks m m' \<Longrightarrow> live B (inner m) q = Some k \<Longrightarrow> q \<notin> ks \<Longrightarrow> block m' q k = block m q k"
  by (simp add: undisturbed_def)

lemma poke_undisturbed:
  assumes "inv_ok B" "inv B m" "live B (inner m) p = Some (length bs)"
  shows "undisturbed B {p} m (poke p bs m)"
  unfolding undisturbed_def
proof (intro allI impI)
  fix q k
  assume "live B (inner m) q = Some k" "q \<notin> {p}"
  with inv_apart [OF assms, of q k] have "p + length bs \<le> q \<or> q + k \<le> p" by simp
  then show "block (poke p bs m) q k = block m q k" by (rule block_poke_other)
qed

text \<open>A reservation that is then filled: a fresh block with these bytes, the rest as before.\<close>

definition fresh_block ::
    "('w, 'e) books \<Rightarrow> 'w machine \<Rightarrow> nat \<Rightarrow> bytes \<Rightarrow> 'w machine \<Rightarrow> bool" where
  "fresh_block B m p data m' \<longleftrightarrow>
     inv B m' \<and> view B (inner m') = view B (inner m) \<and> live B (inner m) p = None \<and>
     live B (inner m') = (live B (inner m))(p \<mapsto> length data) \<and>
     block m' p (length data) = data \<and> undisturbed B {} m m'"

lemma reserve_fill:
  assumes iok: "inv_ok B" and ok: "alloc_ok W B" and inv: "inv B m" and ne: "data \<noteq> []"
    and res: "reserve W (length data) m = (Inr p, m1)"
  shows "write_view p data m1 = (Inr (), poke p data m1) \<and>
         fresh_block B m p data (poke p data m1) \<and> (length data = 8 \<longrightarrow> p mod 4 = 0)"
proof -
  from res have g: "gv_alloc W (length data) m = (p, m1)" and p: "p \<noteq> 0"
    by (auto simp: reserve_def split: prod.splits if_splits)
  have a: "view B (inner m1) = view B (inner m)" "inv B m1" "undisturbed B {} m m1"
    "live B (inner m) p = None" "live B (inner m1) = (live B (inner m))(p \<mapsto> length data)"
    "length data = 8 \<longrightarrow> p mod 4 = 0"
    using ok [unfolded alloc_ok_def, rule_format, OF _ inv g] ne p by auto
  have lp: "live B (inner m1) p = Some (length data)" using a(5) by simp
  have u: "undisturbed B {} m (poke p data m1)"
    unfolding undisturbed_def
  proof (intro allI impI)
    fix q k
    assume q: "live B (inner m) q = Some k" and "q \<notin> {}"
    have "q \<noteq> p" using q a(4) by auto
    with q a(5) have "live B (inner m1) q = Some k" by simp
    with \<open>q \<noteq> p\<close> have "block (poke p data m1) q k = block m1 q k"
      using undisturbedD [OF poke_undisturbed [OF iok a(2) lp]] by simp
    also have "\<dots> = block m q k" using undisturbedD [OF a(3) q] by simp
    finally show "block (poke p data m1) q k = block m q k" .
  qed
  show ?thesis
    using a u inv_live [OF iok a(2) lp] inv_poke [OF iok a(2) lp]
    by (simp add: write_view_def fresh_block_def)
qed

end
