(* ===== verification/Sample_Core.thy ===== *)
theory Sample_Core
  imports Call
begin

text \<open>
  A small core that keeps the contract of \<open>Call.core_ok\<close>, so that the theorems about calls can be
  applied to a concrete instance: its allocator hands out the end of the memory in multiples of
  eight bytes, the text of every status lies at address 1, and its one export returns a copy of
  its input, or status 5 for an empty input, or status 12 when the memory is exhausted.
\<close>

type_synonym sample = "(nat \<Rightarrow> nat option) machine"

definition sample_alloc :: "nat \<Rightarrow> sample \<Rightarrow> nat \<times> sample" where
  "sample_alloc n m =
     (let p = memory_size m; size' = p + 8 * ((n + 7) div 8) in
      if size' < 2 ^ 32 then (p, m\<lparr>memory_size := size', inner := (inner m)(p \<mapsto> n)\<rparr>) else (0, m))"

definition sample_free :: "nat \<Rightarrow> nat \<Rightarrow> sample \<Rightarrow> sample" where
  "sample_free p n m = m\<lparr>inner := (inner m)(p := None)\<rparr>"

definition sample_copy :: "nat \<Rightarrow> nat \<Rightarrow> nat \<Rightarrow> sample \<Rightarrow> int \<times> sample" where
  "sample_copy p n c m =
     (if n = 0 then (5, m)
      else (case sample_alloc n m of (q, m1) \<Rightarrow>
        if q = 0 then (12, m1)
        else (0, poke c (le_bytes 4 q @ le_bytes 4 n) (poke q (block m p n) m1))))"

fun sample_export :: "arg list \<Rightarrow> sample \<Rightarrow> (js_error + int) \<times> sample" where
  "sample_export [Num p, Num n, Num c] m = apfst Inr (sample_copy (nat p) (nat n) (nat c) m)"
| "sample_export _ m = (Inl TypeError, m)"

definition sample_wasm :: "(nat \<Rightarrow> nat option) wasm" where
  "sample_wasm = \<lparr>gv_alloc = sample_alloc, gv_free = sample_free, gv_status_text = (\<lambda>st m. 1),
     export_fn = (\<lambda>name. if name = js ''gv_plain_body'' then Some sample_export else None)\<rparr>"

definition sample_inv :: "sample \<Rightarrow> bool" where
  "sample_inv m \<longleftrightarrow>
     memory_size m mod 8 = 0 \<and> 8 \<le> memory_size m \<and> memory_size m < 2 ^ 32 \<and>
     buffer m 1 = 98 \<and> buffer m (Suc 1) = 0 \<and>
     (\<forall>p n. inner m p = Some n \<longrightarrow> 8 \<le> p \<and> 0 < n \<and> p + n \<le> memory_size m) \<and>
     (\<forall>p n q k. inner m p = Some n \<longrightarrow> inner m q = Some k \<longrightarrow> p \<noteq> q \<longrightarrow> p + n \<le> q \<or> q + k \<le> p)"

definition sample_books :: "(nat \<Rightarrow> nat option, unit) books" where
  "sample_books = \<lparr>live = (\<lambda>w. w), view = (\<lambda>w. ()), inv = sample_inv\<rparr>"

definition sample_text :: "int \<Rightarrow> bytes" where
  "sample_text st = [98]"

fun sample_meaning :: "unit meaning" where
  "sample_meaning name [SBytes v, SOut] e r e' =
     (r = (0, [data_of v], []) \<and> data_of v \<noteq> [] \<or> r = (5, [[]], []) \<and> data_of v = [] \<or> r = (12, [[]], []))"
| "sample_meaning name _ e r e' = False"

definition sample_start :: sample where
  "sample_start = \<lparr>buffer = (\<lambda>a. 0)(1 := 98), memory_size = 64, inner = Map.empty\<rparr>"

lemma sample_start_inv: "sample_inv sample_start"
  by (simp add: sample_inv_def sample_start_def)

lemma sample_poke_inv:
  assumes "sample_inv m" "inner m p = Some (length bs)"
  shows "sample_inv (poke p bs m)"
proof -
  have "8 \<le> p" using assms by (auto simp: sample_inv_def)
  then have "buffer (poke p bs m) 1 = buffer m 1" "buffer (poke p bs m) (Suc 1) = buffer m (Suc 1)"
    by (auto simp: poke_def)
  with assms(1) show ?thesis by (simp add: sample_inv_def)
qed

lemma sample_inv_ok: "inv_ok sample_books"
  unfolding inv_ok_def
proof (intro allI impI conjI)
  fix m :: sample and p n
  assume "inv sample_books m" "live sample_books (inner m) p = Some n"
  then have "sample_inv m" "inner m p = Some n" by (simp_all add: sample_books_def)
  then have "8 \<le> p" "0 < n" "p + n \<le> memory_size m" "memory_size m < 2 ^ 32"
    unfolding sample_inv_def by blast+
  then show "0 < p" "0 < n" "p + n \<le> memory_size m" "p + n < 2 ^ 32" by linarith+
next
  fix m :: sample and p n q k
  assume "inv sample_books m" "live sample_books (inner m) p = Some n"
    "live sample_books (inner m) q = Some k" "p \<noteq> q"
  then show "p + n \<le> q \<or> q + k \<le> p" by (simp add: sample_books_def sample_inv_def)
next
  fix m :: sample and p and bs :: bytes
  assume "inv sample_books m" "live sample_books (inner m) p = Some (length bs)"
  then show "inv sample_books (poke p bs m)" by (simp add: sample_books_def sample_poke_inv)
qed

lemma sample_alloc_inv:
  assumes inv: "sample_inv m" and n: "0 < n" and fits: "memory_size m + 8 * ((n + 7) div 8) < 2 ^ 32"
  shows "sample_inv (m\<lparr>memory_size := memory_size m + 8 * ((n + 7) div 8), inner := (inner m)(memory_size m \<mapsto> n)\<rparr>)"
proof -
  have le: "n \<le> 8 * ((n + 7) div 8)" by linarith
  have old: "8 \<le> p \<and> 0 < k \<and> p + k \<le> memory_size m" if "inner m p = Some k" for p k
    using inv that by (simp add: sample_inv_def)
  have apart: "p + k \<le> q \<or> q + l \<le> p" if "inner m p = Some k" "inner m q = Some l" "p \<noteq> q" for p k q l
    using inv that by (simp add: sample_inv_def)
  have base: "memory_size m mod 8 = 0" "8 \<le> memory_size m" "buffer m 1 = 98" "buffer m (Suc 1) = 0"
    using inv by (simp_all add: sample_inv_def)
  show ?thesis
    unfolding sample_inv_def
    using base fits n le old apart by (auto split: if_splits) (fastforce dest: old)+
qed

lemma sample_alloc_ok: "alloc_ok sample_wasm sample_books"
  unfolding alloc_ok_def
proof (intro allI impI)
  fix n and m :: sample and p m'
  assume n: "0 < n" and inv: "inv sample_books m" and al: "gv_alloc sample_wasm n m = (p, m')"
  have si: "sample_inv m" using inv by (simp add: sample_books_def)
  have fresh: "inner m (memory_size m) = None"
  proof (rule ccontr)
    assume "inner m (memory_size m) \<noteq> None"
    then obtain k where "inner m (memory_size m) = Some k" by auto
    with si have "0 < k \<and> memory_size m + k \<le> memory_size m" unfolding sample_inv_def by blast
    then show False by auto
  qed
  have "0 < memory_size m" "memory_size m mod 4 = 0"
    using si mod_mod_cancel [of 4 8 "memory_size m"] by (auto simp: sample_inv_def)
  with al n si fresh sample_alloc_inv [OF si n] show
    "view sample_books (inner m') = view sample_books (inner m) \<and> inv sample_books m' \<and>
     undisturbed sample_books {} m m' \<and>
     (if p = 0 then live sample_books (inner m') = live sample_books (inner m)
      else live sample_books (inner m) p = None \<and>
           live sample_books (inner m') = (live sample_books (inner m))(p \<mapsto> n) \<and> (n = 8 \<longrightarrow> p mod 4 = 0))"
    by (auto simp: sample_wasm_def sample_alloc_def sample_books_def Let_def undisturbed_def block_def
        split: if_splits)
qed

lemma sample_free_ok: "free_ok sample_wasm sample_books"
  unfolding free_ok_def
  by (auto simp: sample_wasm_def sample_free_def sample_books_def undisturbed_def block_def sample_inv_def
      split: if_splits)

lemma sample_text_ok: "text_ok sample_wasm sample_books sample_text"
  by (auto simp: text_ok_def sample_wasm_def sample_books_def sample_text_def block_def sample_inv_def)

lemma sample_copy_ok:
  assumes inv: "sample_inv m" and c: "inner m c = Some 8" "block m c 8 = replicate 8 0"
    and p: "n \<noteq> 0 \<Longrightarrow> inner m p = Some n" "n \<noteq> 0 \<Longrightarrow> p \<noteq> c"
  shows "\<exists>st outs m'. sample_copy p n c m = (st, m') \<and>
    (st = 0 \<and> outs = [block m p n] \<and> n \<noteq> 0 \<or> st = 5 \<and> outs = [[]] \<and> n = 0 \<or> st = 12 \<and> outs = [[]]) \<and>
    answers sample_books [InSlot p n, OutSlot c] m outs [] m'"
proof -
  have same: "answers sample_books [InSlot p n, OutSlot c] m [[]] [] m"
  proof -
    have "le_bytes 4 0 @ le_bytes 4 0 = replicate 8 0" by (simp add: le_bytes_0 flip: replicate_add)
    then have "filled m c (0, [])" using c by (simp add: filled_def)
    with inv show ?thesis
      unfolding answers_def by (intro exI [of _ "[(0, [])]"]) (simp add: sample_books_def out_blocks_def)
  qed
  consider "n = 0" | "n \<noteq> 0" "fst (sample_alloc n m) = 0" | "n \<noteq> 0" "fst (sample_alloc n m) \<noteq> 0" by blast
  then show ?thesis
  proof cases
    case 1
    with same show ?thesis by (simp add: sample_copy_def)
  next
    case 2
    have "snd (sample_alloc n m) = m"
      using 2 inv by (auto simp: sample_alloc_def Let_def sample_inv_def split: if_splits)
    with 2 same show ?thesis by (auto simp: sample_copy_def split: prod.split)
  next
    case 3
    define d where "d = block m p n"
    obtain q m1 where al: "sample_alloc n m = (q, m1)" by (cases "sample_alloc n m")
    have d: "d \<noteq> []" "length d = n" using 3 by (auto simp: d_def simp flip: length_0_conv)
    have "reserve sample_wasm (length d) m = (Inr q, m1)"
      using al 3 d by (simp add: reserve_def sample_wasm_def)
    with reserve_fill [OF sample_inv_ok sample_alloc_ok _ d(1)] inv
    have f: "fresh_block sample_books m q d (poke q d m1)" by (simp add: sample_books_def)
    define m2 where "m2 = poke q d m1"
    define w where "w = le_bytes 4 q @ le_bytes 4 n"
    have lw: "length w = 8" by (simp add: w_def)
    from f have f2: "sample_inv m2" "inner m q = None" "inner m2 = (inner m)(q \<mapsto> n)"
      "block m2 q n = d" "undisturbed sample_books {} m m2"
      using d by (auto simp: fresh_block_def sample_books_def m2_def)
    have cq: "c \<noteq> q" using f2(2) c(1) by auto
    have c2: "inner m2 c = Some (length w)" using f2(3) c(1) cq lw by simp
    have u: "undisturbed sample_books {c} m2 (poke c w m2)"
      using poke_undisturbed [OF sample_inv_ok, of m2 c w] c2 f2(1) by (simp add: sample_books_def)
    have "undisturbed sample_books {c} m (poke c w m2)"
      unfolding undisturbed_def
    proof (intro allI impI)
      fix a k
      assume a: "live sample_books (inner m) a = Some k" "a \<notin> {c}"
      then have "live sample_books (inner m2) a = Some k" using f2(2,3) by (auto simp: sample_books_def)
      with a undisturbedD [OF u] undisturbedD [OF f2(5) a(1)]
      show "block (poke c w m2) a k = block m a k" by simp
    qed
    moreover have "filled (poke c w m2) c (q, d)"
    proof -
      have "block (poke c w m2) q n = d"
        using undisturbedD [OF u, of q n] f2(3,4) cq by (simp add: sample_books_def)
      moreover have "block (poke c w m2) c 8 = w" using block_poke_same [of c w m2] lw by simp
      moreover have "q + n < 2 ^ 32"
        using inv_live(4) [OF sample_inv_ok, of m2 q n] f2(1,3) by (simp add: sample_books_def)
      ultimately show ?thesis by (simp add: filled_def w_def d)
    qed
    moreover have "sample_inv (poke c w m2)" by (rule sample_poke_inv [OF f2(1) c2])
    ultimately have "answers sample_books [InSlot p n, OutSlot c] m [d] [] (poke c w m2)"
      using d f2(2,3) unfolding answers_def
      by (intro exI [of _ "[(q, d)]"]) (auto simp: sample_books_def out_blocks_def)
    moreover have "sample_copy p n c m = (0, poke c w m2)"
      using 3 al by (simp add: sample_copy_def w_def m2_def d_def)
    ultimately show ?thesis using 3(1) by (auto simp: d_def)
  qed
qed

lemma sample_export_ok: "export_ok sample_wasm sample_books sample_meaning (js ''gv_plain_body'') [SBytes v, SOut]"
  unfolding export_ok_def
proof (intro exI [of _ sample_export] conjI allI impI)
  show "export_fn sample_wasm (js ''gv_plain_body'') = Some sample_export" by (simp add: sample_wasm_def)
next
  fix m :: sample and slots
  assume inv: "inv sample_books m" and fit: "list_all2 (fits m) slots [SBytes v, SOut]"
    and lv: "slots_live sample_books slots m"
  from fit obtain s t where st: "slots = [s, t]" "fits m s (SBytes v)" "fits m t SOut"
    by (auto simp: list_all2_Cons2)
  then obtain p n c where slots: "slots = [InSlot p n, OutSlot c]" by (cases s; cases t) auto
  have d: "n = length (data_of v)" "block m p n = data_of v" "block m c 8 = replicate 8 0"
    using st slots by auto
  have l: "inner m c = Some 8" "n \<noteq> 0 \<Longrightarrow> inner m p = Some n" "n \<noteq> 0 \<Longrightarrow> p \<noteq> c"
    using lv slots by (auto simp: slots_live_def sample_books_def)
  have "sample_inv m" using inv by (simp add: sample_books_def)
  from sample_copy_ok [OF this l(1) d(3) l(2,3)] obtain st' outs m' where r: "sample_copy p n c m = (st', m')"
    "st' = 0 \<and> outs = [block m p n] \<and> n \<noteq> 0 \<or> st' = 5 \<and> outs = [[]] \<and> n = 0 \<or> st' = 12 \<and> outs = [[]]"
    "answers sample_books [InSlot p n, OutSlot c] m outs [] m'" by blast
  have "sample_export (concat (map slot_args slots)) m = (Inr st', m')" using r(1) slots by simp
  moreover have "sample_meaning (js ''gv_plain_body'') [SBytes v, SOut] (view sample_books (inner m)) (st', outs, []) (view sample_books (inner m'))"
    using r(2) d(1,2) by auto
  ultimately show "\<exists>st outs pads m'. sample_export (concat (map slot_args slots)) m = (Inr st, m') \<and>
      sample_meaning (js ''gv_plain_body'') [SBytes v, SOut] (view sample_books (inner m)) (st, outs, pads) (view sample_books (inner m')) \<and>
      answers sample_books slots m outs pads m'"
    using r(3) slots by blast
qed

lemma sample_core_ok: "core_ok sample_wasm sample_books sample_text sample_meaning (js ''gv_plain_body'') [SBytes v, SOut]"
  unfolding core_ok_def
  using sample_inv_ok sample_alloc_ok sample_free_ok sample_text_ok sample_export_ok by blast

end
