(* ===== verification/Call_Memory.thy ===== *)
theory Call_Memory
  imports Sample_Core
begin

text \<open>
  What a call does to the memory of the instance: the builder's allocations (\<open>grown\<close>), the
  copies and frees of \<open>Call_finish\<close> (\<open>shrunk\<close>), and the two together: a call returns what the
  core's answer means and leaves exactly the blocks that were live before it.
\<close>

subsection \<open>Growing and shrinking the set of live blocks\<close>

definition grown :: "('w, 'e) books \<Rightarrow> 'w machine \<Rightarrow> (nat \<times> nat) list \<Rightarrow> 'w machine \<Rightarrow> bool" where
  "grown B m bs m' \<longleftrightarrow>
     inv B m' \<and> view B (inner m') = view B (inner m) \<and> distinct (map fst bs) \<and>
     (\<forall>p\<in>fst ` set bs. live B (inner m) p = None) \<and>
     live B (inner m') = live B (inner m) ++ map_of bs \<and> undisturbed B {} m m'"

definition shrunk :: "('w, 'e) books \<Rightarrow> 'w machine \<Rightarrow> nat set \<Rightarrow> 'w machine \<Rightarrow> bool" where
  "shrunk B m ks m' \<longleftrightarrow>
     inv B m' \<and> view B (inner m') = view B (inner m) \<and>
     live B (inner m') = (\<lambda>q. if q \<in> ks then None else live B (inner m) q) \<and> undisturbed B ks m m'"

lemma map_add_outside: "q \<notin> fst ` set bs \<Longrightarrow> (f ++ map_of bs) q = f q"
  by (simp add: map_add_def map_of_eq_None_iff [THEN iffD2])

lemma grown_Nil: "inv B m \<Longrightarrow> grown B m [] m"
  by (simp add: grown_def)

lemma grown_dead: "grown B m bs m' \<Longrightarrow> p \<in> fst ` set bs \<Longrightarrow> live B (inner m) p = None"
  by (auto simp: grown_def)

lemma grown_live: "grown B m bs m' \<Longrightarrow> (p, n) \<in> set bs \<Longrightarrow> live B (inner m') p = Some n"
  by (auto simp: grown_def map_add_Some_iff)

lemma grown_keeps: "grown B m bs m' \<Longrightarrow> live B (inner m) p = Some n \<Longrightarrow> live B (inner m') p = Some n"
  by (auto simp: grown_def map_add_Some_iff map_of_eq_None_iff)

lemma grown_trans:
  assumes "grown B m bs m1" "grown B m1 cs m2"
  shows "grown B m (bs @ cs) m2"
proof -
  have cs: "live B (inner m1) p = None" if "p \<in> fst ` set cs" for p
    using assms(2) that by (auto simp: grown_def)
  have l1: "live B (inner m1) = live B (inner m) ++ map_of bs"
    using assms(1) by (simp add: grown_def)
  have dis: "fst ` set bs \<inter> fst ` set cs = {}"
    using cs grown_live [OF assms(1)] by fastforce
  have "live B (inner m2) = live B (inner m) ++ (map_of bs ++ map_of cs)"
    using assms(2) by (simp add: grown_def l1)
  also have "map_of bs ++ map_of cs = map_of (bs @ cs)"
    using dis by (simp, subst map_add_comm) (auto simp: dom_map_of_conv_image_fst)
  finally have "live B (inner m2) = live B (inner m) ++ map_of (bs @ cs)" .
  moreover have "undisturbed B {} m m2"
    unfolding undisturbed_def
  proof (intro allI impI)
    fix q k
    assume q: "live B (inner m) q = Some k" and "q \<notin> {}"
    have "block m2 q k = block m1 q k"
      using assms(2) grown_keeps [OF assms(1) q] by (auto simp: grown_def undisturbed_def)
    also have "\<dots> = block m q k" using assms(1) q by (auto simp: grown_def undisturbed_def)
    finally show "block m2 q k = block m q k" .
  qed
  moreover have "live B (inner m) p = None" if "p \<in> fst ` set cs" for p
    using cs [OF that] by (simp add: l1 map_add_None)
  ultimately show ?thesis
    using assms dis by (auto simp: grown_def)
qed

lemma shrunk_Nil: "inv B m \<Longrightarrow> shrunk B m {} m"
  by (simp add: shrunk_def)

lemma shrunk_trans:
  assumes "shrunk B m ks m1" "shrunk B m1 ls m2"
  shows "shrunk B m (ks \<union> ls) m2"
proof -
  have "undisturbed B (ks \<union> ls) m m2"
    unfolding undisturbed_def
  proof (intro allI impI)
    fix q k
    assume q: "live B (inner m) q = Some k" and n: "q \<notin> ks \<union> ls"
    then have "live B (inner m1) q = Some k" using assms(1) by (simp add: shrunk_def)
    with n have "block m2 q k = block m1 q k" using assms(2) by (auto simp: shrunk_def undisturbed_def)
    also have "\<dots> = block m q k" using assms(1) q n by (auto simp: shrunk_def undisturbed_def)
    finally show "block m2 q k = block m q k" .
  qed
  then show ?thesis using assms by (auto simp: shrunk_def)
qed

lemma shrunk_keeps: "shrunk B m ks m' \<Longrightarrow> live B (inner m) q = Some k \<Longrightarrow> q \<notin> ks \<Longrightarrow>
    live B (inner m') q = Some k \<and> block m' q k = block m q k"
  by (auto simp: shrunk_def undisturbed_def)

lemma free_shrinks:
  "free_ok W B \<Longrightarrow> inv B m \<Longrightarrow> live B (inner m) p = Some n \<Longrightarrow> shrunk B m {p} (gv_free W p n m)"
  unfolding free_ok_def shrunk_def Let_def by (simp add: fun_eq_iff)

subsection \<open>The builder\<close>

fun add_slot :: "call_obj \<Rightarrow> slot \<Rightarrow> call_obj" where
  "add_slot c (InSlot p n) =
     c\<lparr>call_ins := call_ins c @ [\<lparr>in_ptr = p, in_len = n\<rparr>], call_args := call_args c @ slot_args (InSlot p n)\<rparr>"
| "add_slot c (NumSlot a) = c\<lparr>call_args := call_args c @ [a]\<rparr>"
| "add_slot c (OutSlot p) =
     c\<lparr>call_outs := call_outs c @ [\<lparr>cell = p\<rparr>], call_args := call_args c @ [Num (int p)]\<rparr>"
| "add_slot c (PadSlot p n) =
     c\<lparr>call_pads := call_pads c @ [\<lparr>pad_ptr = p, pad_len = n\<rparr>], call_args := call_args c @ [Num (int p)]\<rparr>"

lemma add_slots:
  "foldl add_slot c slots =
     c\<lparr>call_ins := call_ins c @ map (\<lambda>(p, n). \<lparr>in_ptr = p, in_len = n\<rparr>) (in_cells slots),
       call_outs := call_outs c @ map (\<lambda>p. \<lparr>cell = p\<rparr>) (out_cells slots),
       call_pads := call_pads c @ map (\<lambda>(p, n). \<lparr>pad_ptr = p, pad_len = n\<rparr>) (pad_cells slots),
       call_args := call_args c @ concat (map slot_args slots)\<rparr>"
proof (induction slots arbitrary: c)
  case (Cons s slots)
  show ?case by (cases s) (simp_all add: Cons.IH)
qed simp

fun pad_pos :: "step \<Rightarrow> bool" where
  "pad_pos (SPad n) = (0 < n)"
| "pad_pos _ = True"

lemma fresh_grown: "data \<noteq> [] \<Longrightarrow> fresh_block B m p data m' \<Longrightarrow> grown B m [(p, length data)] m'"
  by (auto simp: fresh_block_def grown_def)

lemma reserve_grown:
  assumes ok: "inv_ok B" "alloc_ok W B" and inv: "inv B m" and ne: "data \<noteq> []"
    and res: "reserve W (length data) m = (Inr p, m1)"
  shows "write_view p data m1 = (Inr (), poke p data m1)"
    and "grown B m [(p, length data)] (poke p data m1)"
    and "block (poke p data m1) p (length data) = data"
    and "length data = 8 \<Longrightarrow> p mod 4 = 0"
  using reserve_fill [OF ok inv ne res] fresh_grown [OF ne] by auto

lemma In_new_ok:
  assumes ok: "inv_ok B" "alloc_ok W B" and inv: "inv B m" and run: "In_new W v m = (Inr i, m')"
  shows "\<exists>p n. i = \<lparr>in_ptr = p, in_len = n\<rparr> \<and> grown B m (slot_blocks (InSlot p n)) m' \<and>
           fits m' (InSlot p n) (SBytes v)"
proof (cases "data_of v = []")
  case True
  with run have "i = \<lparr>in_ptr = 0, in_len = 0\<rparr>" "m' = m" by (auto simp: In_new_def)
  moreover have "grown B m (slot_blocks (InSlot 0 0)) m" "fits m (InSlot 0 0) (SBytes v)"
    using True inv by (simp_all add: grown_Nil)
  ultimately show ?thesis by blast
next
  case False
  with run obtain p m1 where r: "reserve W (length (data_of v)) m = (Inr p, m1)"
    and w: "andThen (write_view p (data_of v)) (\<lambda>_. ret \<lparr>in_ptr = p, in_len = length (data_of v)\<rparr>) m1 = (Inr i, m')"
    by (auto simp: In_new_def Let_def elim: andThen_InrE)
  note f = reserve_grown [OF ok inv False r]
  from w f(1) have "i = \<lparr>in_ptr = p, in_len = length (data_of v)\<rparr>" "m' = poke p (data_of v) m1"
    by (simp_all add: andThen_Inr)
  moreover have "grown B m (slot_blocks (InSlot p (length (data_of v)))) (poke p (data_of v) m1)"
    using f(2) False by simp
  moreover have "fits (poke p (data_of v) m1) (InSlot p (length (data_of v))) (SBytes v)"
    using f(3) by simp
  ultimately show ?thesis by blast
qed

lemma Out_new_ok:
  assumes ok: "inv_ok B" "alloc_ok W B" and inv: "inv B m" and run: "Out_new W m = (Inr o1, m')"
  shows "\<exists>p. o1 = \<lparr>cell = p\<rparr> \<and> grown B m (slot_blocks (OutSlot p)) m' \<and> fits m' (OutSlot p) SOut"
proof -
  define z where "z = replicate 8 (0::byte)"
  have z: "z \<noteq> []" "length z = 8" by (simp_all add: z_def)
  from run obtain p m1 where r: "reserve W (length z) m = (Inr p, m1)"
    and w: "andThen (aligned4 p) (\<lambda>_. andThen (write_view p z) (\<lambda>_. ret \<lparr>cell = p\<rparr>)) m1 = (Inr o1, m')"
    unfolding Out_new_def z_def [symmetric] z(2) by (auto elim: andThen_InrE)
  note f = reserve_grown [OF ok inv z(1) r]
  have al: "aligned4 p m1 = (Inr (), m1)" using f(4) z by (simp add: aligned4_def)
  have "o1 = \<lparr>cell = p\<rparr>" "m' = poke p z m1"
    using w by (simp_all add: andThen_def al f(1))
  moreover have "grown B m (slot_blocks (OutSlot p)) (poke p z m1)" using f(2) z by simp
  moreover have "fits (poke p z m1) (OutSlot p) SOut" using f(3,4) z by (simp flip: z_def)
  ultimately show ?thesis by blast
qed

lemma Pad_new_ok:
  assumes ok: "inv_ok B" "alloc_ok W B" and inv: "inv B m" and n: "0 < n"
    and run: "Pad_new W n m = (Inr pd, m')"
  shows "\<exists>p. pd = \<lparr>pad_ptr = p, pad_len = n\<rparr> \<and> grown B m (slot_blocks (PadSlot p n)) m' \<and>
           fits m' (PadSlot p n) (SPad n)"
proof -
  define z where "z = replicate n (0::byte)"
  have z: "z \<noteq> []" "length z = n" using n by (simp_all add: z_def)
  from run obtain p m1 where r: "reserve W (length z) m = (Inr p, m1)"
    and w: "andThen (write_view p z) (\<lambda>_. ret \<lparr>pad_ptr = p, pad_len = n\<rparr>) m1 = (Inr pd, m')"
    unfolding Pad_new_def z_def [symmetric] z(2) by (auto elim: andThen_InrE)
  note f = reserve_grown [OF ok inv z(1) r]
  have "pd = \<lparr>pad_ptr = p, pad_len = n\<rparr>" "m' = poke p z m1"
    using w by (simp_all add: andThen_def f(1))
  moreover have "grown B m (slot_blocks (PadSlot p n)) (poke p z m1)" using f(2) z by simp
  moreover have "fits (poke p z m1) (PadSlot p n) (SPad n)" using f(3) z n by (simp flip: z_def)
  ultimately show ?thesis by blast
qed

lemma Call_step_ok:
  assumes ok: "inv_ok B" "alloc_ok W B" and inv: "inv B m" and pos: "pad_pos st"
    and run: "Call_step W st c m = (Inr c', m')"
  shows "\<exists>slot. c' = add_slot c slot \<and> grown B m (slot_blocks slot) m' \<and> fits m' slot st"
proof (cases st)
  case (SBytes v)
  from run SBytes obtain i where "In_new W v m = (Inr i, m')"
    "c' = c\<lparr>call_ins := call_ins c @ [i],
            call_args := call_args c @ [Num (int (in_ptr i)), Num (int (in_len i))]\<rparr>"
    by (auto elim: andThen_InrE)
  moreover from In_new_ok [OF ok inv this(1)] obtain p n where
    "i = \<lparr>in_ptr = p, in_len = n\<rparr>" "grown B m (slot_blocks (InSlot p n)) m'"
    "fits m' (InSlot p n) (SBytes v)" by blast
  ultimately show ?thesis using SBytes
    by (intro exI [of _ "InSlot p n"]) (simp del: fits.simps slot_blocks.simps)
next
  case (SNum a)
  with run inv show ?thesis by (intro exI [of _ "NumSlot a"]) (auto simp: grown_Nil)
next
  case SOut
  from run SOut obtain o1 where "Out_new W m = (Inr o1, m')"
    "c' = c\<lparr>call_outs := call_outs c @ [o1], call_args := call_args c @ [Num (int (cell o1))]\<rparr>"
    by (auto elim: andThen_InrE)
  moreover from Out_new_ok [OF ok inv this(1)] obtain p where
    "o1 = \<lparr>cell = p\<rparr>" "grown B m (slot_blocks (OutSlot p)) m'" "fits m' (OutSlot p) SOut" by blast
  ultimately show ?thesis using SOut
    by (intro exI [of _ "OutSlot p"]) (simp del: fits.simps slot_blocks.simps)
next
  case (SPad n)
  from run SPad obtain pd where "Pad_new W n m = (Inr pd, m')"
    "c' = c\<lparr>call_pads := call_pads c @ [pd], call_args := call_args c @ [Num (int (pad_ptr pd))]\<rparr>"
    by (auto elim: andThen_InrE)
  moreover from Pad_new_ok [OF ok inv _ this(1)] SPad pos obtain p where
    "pd = \<lparr>pad_ptr = p, pad_len = n\<rparr>" "grown B m (slot_blocks (PadSlot p n)) m'" "fits m' (PadSlot p n) (SPad n)"
    by auto
  ultimately show ?thesis using SPad
    by (intro exI [of _ "PadSlot p n"]) (simp del: fits.simps slot_blocks.simps)
qed

lemma fits_stable:
  assumes "fits m slot st" "\<forall>(p, n)\<in>set (slot_blocks slot). live B (inner m) p = Some n"
    "undisturbed B {} m m'"
  shows "fits m' slot st"
  using assms by (cases slot; cases st) (auto simp: undisturbed_def split: if_splits)

lemma gather_ok:
  assumes ok: "inv_ok B" "alloc_ok W B" and "inv B m" and "list_all pad_pos steps"
    and "gather W steps c m = (Inr c', m')"
  shows "\<exists>slots. c' = foldl add_slot c slots \<and> grown B m (concat (map slot_blocks slots)) m' \<and>
           list_all2 (fits m') slots steps"
  using assms(3-)
proof (induction steps arbitrary: c m)
  case Nil
  then show ?case by (intro exI [of _ "[]"]) (simp add: grown_Nil)
next
  case (Cons st steps)
  from Cons.prems(3) obtain c1 m1 where 1: "Call_step W st c m = (Inr c1, m1)"
    and 2: "gather W steps c1 m1 = (Inr c', m')"
    by (auto elim: andThen_InrE)
  from Call_step_ok [OF ok Cons.prems(1) _ 1] Cons.prems(2) obtain slot where
    s: "c1 = add_slot c slot" "grown B m (slot_blocks slot) m1" "fits m1 slot st" by auto
  then have "inv B m1" by (simp add: grown_def)
  with Cons.IH [OF _ _ 2] Cons.prems(2) obtain slots where
    ss: "c' = foldl add_slot c1 slots" "grown B m1 (concat (map slot_blocks slots)) m'"
      "list_all2 (fits m') slots steps" by auto
  have lv: "\<forall>(p, n)\<in>set (slot_blocks slot). live B (inner m1) p = Some n"
    using grown_live [OF s(2)] by blast
  have "undisturbed B {} m1 m'" using ss(2) by (simp add: grown_def)
  with s(3) lv have "fits m' slot st" by (rule fits_stable)
  with s(1) ss grown_trans [OF s(2) ss(2)] show ?case
    by (intro exI [of _ "slot # slots"]) simp
qed

subsection \<open>Copying out and freeing\<close>

lemma filled_parts:
  assumes "filled m c (p, d)"
  shows "from_le (take 4 (block m c 8)) = p" "from_le (drop 4 (block m c 8)) = length d"
    "block m p (length d) = d"
  using assms by (auto simp: filled_def)

lemma Out_take_ok:
  assumes ok: "inv_ok B" "free_ok W B" and inv: "inv B m"
    and cell: "live B (inner m) c = Some 8" "c mod 4 = 0" and fl: "filled m c (p, d)"
    and buf: "d \<noteq> [] \<longrightarrow> live B (inner m) p = Some (length d) \<and> p \<noteq> c"
  shows "\<exists>m'. Out_take W \<lparr>cell = c\<rparr> m = (Inr d, m') \<and>
           shrunk B m (insert c (if d = [] then {} else {p})) m'"
proof -
  have rd: "read_view c 8 m = (Inr (block m c 8), m)"
    using inv_live(3) [OF ok(1) inv cell(1)] by (simp add: read_view_def)
  note parts = filled_parts [OF fl]
  show ?thesis
  proof (cases "d = []")
    case True
    have "Out_take W \<lparr>cell = c\<rparr> m = (Inr d, gv_free W c 8 m)"
      using cell rd parts True
      by (simp add: Out_take_def andThen_def aligned4_def Let_def release_def)
    with free_shrinks [OF ok(2) inv cell(1)] True show ?thesis by auto
  next
    case False
    with buf have b: "live B (inner m) p = Some (length d)" "p \<noteq> c" by auto
    have rp: "read_view p (length d) m = (Inr d, m)"
      using inv_live(3) [OF ok(1) inv b(1)] parts by (simp add: read_view_def)
    define m1 where "m1 = gv_free W p (length d) m"
    have s1: "shrunk B m {p} m1" unfolding m1_def by (rule free_shrinks [OF ok(2) inv b(1)])
    then have "inv B m1" by (simp add: shrunk_def)
    moreover have "live B (inner m1) c = Some 8" using shrunk_keeps [OF s1 cell(1)] b(2) by auto
    ultimately have s2: "shrunk B m1 {c} (gv_free W c 8 m1)" by (rule free_shrinks [OF ok(2)])
    have "Out_take W \<lparr>cell = c\<rparr> m = (Inr d, gv_free W c 8 m1)"
      using cell rd parts rp False
      by (simp add: Out_take_def andThen_def aligned4_def Let_def release_def m1_def)
    with shrunk_trans [OF s1 s2] False show ?thesis by (auto simp: insert_commute)
  qed
qed

lemma filled_stable:
  assumes "filled m c (p, d)" "live B (inner m) c = Some 8" "d \<noteq> [] \<Longrightarrow> live B (inner m) p = Some (length d)"
    "shrunk B m ks m'" "c \<notin> ks" "d \<noteq> [] \<Longrightarrow> p \<notin> ks"
  shows "filled m' c (p, d)"
proof (cases "d = []")
  case True
  with assms shrunk_keeps [OF assms(4), of c 8] show ?thesis by (simp add: filled_def)
next
  case False
  with assms shrunk_keeps [OF assms(4), of c 8] shrunk_keeps [OF assms(4), of p "length d"]
  show ?thesis by (simp add: filled_def)
qed

lemma out_blocks_simps [simp]:
  "out_blocks [] = []"
  "out_blocks ((p, d) # bufs) = (if d = [] then out_blocks bufs else (p, length d) # out_blocks bufs)"
  by (simp_all add: out_blocks_def)

lemma in_out_blocks: "(p, d) \<in> set bufs \<Longrightarrow> d \<noteq> [] \<Longrightarrow> (p, length d) \<in> set (out_blocks bufs)"
  by (force simp: out_blocks_def)

lemma take_all_ok:
  assumes ok: "inv_ok B" "free_ok W B" and "inv B m" and "list_all2 (filled m) cells bufs0"
    and "\<forall>c\<in>set cells. live B (inner m) c = Some 8 \<and> c mod 4 = 0"
    and "\<forall>(p, n)\<in>set (out_blocks bufs0). live B (inner m) p = Some n"
    and "distinct (cells @ map fst (out_blocks bufs0))"
  shows "\<exists>m'. each (Out_take W) (map (\<lambda>c. \<lparr>cell = c\<rparr>) cells) m = (Inr (map snd bufs0), m') \<and>
           shrunk B m (set cells \<union> fst ` set (out_blocks bufs0)) m'"
  using assms(3-)
proof (induction cells arbitrary: bufs0 m)
  case Nil
  then show ?case by (simp add: shrunk_Nil)
next
  case (Cons c cells)
  from Cons.prems(2) obtain p d buf bufs where bufs0: "bufs0 = buf # bufs" and buf: "buf = (p, d)"
    and hyp: "filled m c (p, d)" "list_all2 (filled m) cells bufs"
    by (auto simp: list_all2_Cons1)
  define ks where "ks = insert c (if d = [] then {} else {p})"
  have pd: "d \<noteq> [] \<longrightarrow> live B (inner m) p = Some (length d) \<and> p \<noteq> c"
    using Cons.prems by (auto simp: buf bufs0)
  have cl: "live B (inner m) c = Some 8" "c mod 4 = 0" using Cons.prems(3) by auto
  from Out_take_ok [OF ok Cons.prems(1) cl hyp(1) pd] obtain m1 where
    1: "Out_take W \<lparr>cell = c\<rparr> m = (Inr d, m1)" and s1: "shrunk B m ks m1"
    unfolding ks_def by auto
  have nk: "c' \<notin> ks" if "c' \<in> set cells" for c'
    using Cons.prems(5) that by (auto simp: ks_def buf bufs0 split: if_splits)
  have nb: "q \<notin> ks" if "(q, n) \<in> set (out_blocks bufs)" for q n
    using Cons.prems(5) that by (auto simp: ks_def buf bufs0 split: if_splits) (metis fst_conv imageI)+
  have lv: "\<forall>c\<in>set cells. live B (inner m1) c = Some 8 \<and> c mod 4 = 0"
    using Cons.prems(3) shrunk_keeps [OF s1] nk by simp
  have lb: "\<forall>(q, n)\<in>set (out_blocks bufs). live B (inner m1) q = Some n"
    using Cons.prems(4) shrunk_keeps [OF s1] nb by (auto simp: buf bufs0 split: if_splits)
  have "list_all2 (filled m1) cells bufs"
    using hyp(2)
  proof (rule list.rel_mono_strong)
    fix c' buf'
    assume in': "c' \<in> set cells" "buf' \<in> set bufs" and f: "filled m c' buf'"
    obtain q e where buf': "buf' = (q, e)" by (cases buf')
    have q: "(q, length e) \<in> set (out_blocks bufs)" if "e \<noteq> []"
      using in_out_blocks in'(2) that by (simp add: buf')
    show "filled m1 c' buf'"
      unfolding buf'
      by (rule filled_stable [OF f [unfolded buf'] _ _ s1 nk [OF in'(1)]])
         (use Cons.prems(3,4) in' q nb in \<open>auto simp: buf bufs0 split: if_splits\<close>)
  qed
  moreover have "inv B m1" using s1 by (simp add: shrunk_def)
  moreover have "distinct (cells @ map fst (out_blocks bufs))"
    using Cons.prems(5) by (auto simp: buf bufs0 split: if_splits)
  ultimately obtain m2 where 2: "each (Out_take W) (map (\<lambda>c. \<lparr>cell = c\<rparr>) cells) m1 = (Inr (map snd bufs), m2)"
    and s2: "shrunk B m1 (set cells \<union> fst ` set (out_blocks bufs)) m2"
    using Cons.IH [OF _ _ lv lb] by blast
  have "ks \<union> (set cells \<union> fst ` set (out_blocks bufs)) = set (c # cells) \<union> fst ` set (out_blocks bufs0)"
    by (auto simp: ks_def buf bufs0)
  with shrunk_trans [OF s1 s2] 1 2 show ?case
    by (auto simp: andThen_def buf bufs0)
qed

lemma in_free_all_ok:
  assumes ok: "free_ok W B" and "inv B m"
    and "\<forall>(p, n)\<in>set ins. 0 < n \<longrightarrow> live B (inner m) p = Some n"
    and "distinct (map fst (filter (\<lambda>(p, n). 0 < n) ins))"
  shows "\<exists>us m'. each (In_free W) (map (\<lambda>(p, n). \<lparr>in_ptr = p, in_len = n\<rparr>) ins) m = (Inr us, m') \<and>
           shrunk B m (fst ` set (filter (\<lambda>(p, n). 0 < n) ins)) m'"
  using assms(2-)
proof (induction ins arbitrary: m)
  case Nil
  then show ?case by (simp add: shrunk_Nil)
next
  case (Cons i ins)
  obtain p n where i: "i = (p, n)" by (cases i)
  show ?case
  proof (cases "0 < n")
    case False
    with Cons.prems obtain us m' where
      "each (In_free W) (map (\<lambda>(p, n). \<lparr>in_ptr = p, in_len = n\<rparr>) ins) m = (Inr us, m')"
      "shrunk B m (fst ` set (filter (\<lambda>(p, n). 0 < n) ins)) m'"
      using Cons.IH [of m] by (auto simp: i)
    moreover have "In_free W \<lparr>in_ptr = p, in_len = n\<rparr> m = (Inr (), m)"
      using False by (simp add: In_free_def)
    ultimately show ?thesis using False by (auto simp: i andThen_def)
  next
    case True
    define m1 where "m1 = gv_free W p n m"
    have s1: "shrunk B m {p} m1"
      unfolding m1_def by (rule free_shrinks [OF ok Cons.prems(1)]) (use Cons.prems(2) True i in auto)
    have "live B (inner m1) q = Some k" if "(q, k) \<in> set ins" "0 < k" for q k
    proof -
      have "q \<noteq> p" using Cons.prems(3) that True by (force simp: i)
      then show ?thesis using shrunk_keeps [OF s1, of q k] Cons.prems(2) that by auto
    qed
    with Cons.prems(3) True obtain us m' where
      2: "each (In_free W) (map (\<lambda>(p, n). \<lparr>in_ptr = p, in_len = n\<rparr>) ins) m1 = (Inr us, m')"
      and s2: "shrunk B m1 (fst ` set (filter (\<lambda>(p, n). 0 < n) ins)) m'"
      using Cons.IH [of m1] s1 by (auto simp: i shrunk_def)
    have "In_free W \<lparr>in_ptr = p, in_len = n\<rparr> m = (Inr (), m1)"
      using True by (simp add: In_free_def release_def m1_def)
    with 2 shrunk_trans [OF s1 s2] True show ?thesis by (auto simp: i andThen_def)
  qed
qed

lemma pad_free_all_ok:
  assumes ok: "free_ok W B" and "inv B m"
    and "\<forall>(p, n)\<in>set pads. live B (inner m) p = Some n" and "distinct (map fst pads)"
  shows "\<exists>us m'. each (Pad_free W) (map (\<lambda>(p, n). \<lparr>pad_ptr = p, pad_len = n\<rparr>) pads) m = (Inr us, m') \<and>
           shrunk B m (fst ` set pads) m'"
  using assms(2-)
proof (induction pads arbitrary: m)
  case Nil
  then show ?case by (simp add: shrunk_Nil)
next
  case (Cons i pads)
  obtain p n where i: "i = (p, n)" by (cases i)
  define m1 where "m1 = gv_free W p n m"
  have s1: "shrunk B m {p} m1"
    unfolding m1_def by (rule free_shrinks [OF ok Cons.prems(1)]) (use Cons.prems(2) i in auto)
  have "live B (inner m1) q = Some k" if "(q, k) \<in> set pads" for q k
  proof -
    have "q \<noteq> p" using Cons.prems(3) that by (force simp: i)
    then show ?thesis using shrunk_keeps [OF s1, of q k] Cons.prems(2) that by auto
  qed
  with Cons.prems(3) obtain us m' where
    2: "each (Pad_free W) (map (\<lambda>(p, n). \<lparr>pad_ptr = p, pad_len = n\<rparr>) pads) m1 = (Inr us, m')"
    and s2: "shrunk B m1 (fst ` set pads) m'"
    using Cons.IH [of m1] s1 by (auto simp: i shrunk_def)
  have "Pad_free W \<lparr>pad_ptr = p, pad_len = n\<rparr> m = (Inr (), m1)"
    by (simp add: Pad_free_def release_def m1_def)
  with 2 shrunk_trans [OF s1 s2] show ?case by (auto simp: i andThen_def)
qed

lemma pad_views_ok:
  "list_all2 (\<lambda>(p, n) d. block m p n = d) cells pads \<Longrightarrow> \<forall>(p, n)\<in>set cells. p + n \<le> memory_size m \<Longrightarrow>
    each Pad_view (map (\<lambda>(p, n). \<lparr>pad_ptr = p, pad_len = n\<rparr>) cells) m = (Inr pads, m)"
  by (induction cells pads rule: list_all2_induct)
     (auto simp: andThen_def Pad_view_def read_view_def)

lemma check_status_ok:
  assumes "text_ok W B text" "inv B m"
  shows "check_status W st m =
    (if st = 0 then Inr () else Inl (GossveilError st (kind_of st) (utf8_decode (text st))), m)"
proof (cases "st = 0")
  case False
  define at n where "at = gv_status_text W st m" and "n = length (text st)"
  have t: "block m at n = text st" "0 \<notin> set (text st)" "at + n < memory_size m" "buffer m (at + n) = 0"
    using assms unfolding text_ok_def at_def n_def Let_def by blast+
  from text_end_finds [of at "at + n" "memory_size m" "buffer m"] t obtain e
    where e: "text_end (buffer m) (memory_size m) at = Some e" by auto
  note f = text_end_Some [OF e]
  have "e \<le> at + n" using f t(4) by (meson le_add1 not_le)
  moreover have "\<not> e < at + n"
  proof
    assume "e < at + n"
    with f have "e \<in> set [at..<at + n]" by simp
    then have "buffer m e \<in> set (block m at n)" unfolding block_def set_map by (rule imageI)
    with f t(1,2) show False by simp
  qed
  ultimately have "e = at + n" by simp
  with e t(1) False show ?thesis by (simp add: check_status_def at_def [symmetric])
qed (simp add: check_status_def)

subsection \<open>A whole call\<close>

lemma slot_cells:
  "set (concat (map slot_blocks slots)) =
     set (filter (\<lambda>(p, n). 0 < n) (in_cells slots)) \<union> (\<lambda>c. (c, 8)) ` set (out_cells slots) \<union> set (pad_cells slots)"
proof (induction slots)
  case (Cons s slots)
  then show ?case by (cases s) auto
qed simp

lemma slot_cells_distinct:
  "distinct (map fst (concat (map slot_blocks slots))) \<Longrightarrow>
     distinct (map fst (filter (\<lambda>(p, n). 0 < n) (in_cells slots))) \<and> distinct (out_cells slots) \<and>
     distinct (map fst (pad_cells slots)) \<and>
     set (out_cells slots) \<inter> fst ` set (pad_cells slots) = {} \<and>
     fst ` set (filter (\<lambda>(p, n). 0 < n) (in_cells slots)) \<inter> (set (out_cells slots) \<union> fst ` set (pad_cells slots)) = {}"
proof (induction slots)
  case (Cons s slots)
  define L where "L = concat (map slot_blocks slots)"
  have "fst ` set L =
      fst ` set (filter (\<lambda>(p, n). 0 < n) (in_cells slots)) \<union> set (out_cells slots) \<union> fst ` set (pad_cells slots)"
    unfolding L_def slot_cells by (simp add: image_Un image_image)
  moreover have "fst ` (\<Union>a\<in>set slots. set (slot_blocks a)) = fst ` set L" by (simp add: L_def)
  ultimately show ?case using Cons
    by (cases s) (auto, (metis (mono_tags, lifting) case_prodI fst_conv image_eqI mem_Collect_eq)+)
qed simp

lemma slots_live_parts:
  assumes "slots_live B slots m"
  shows "\<forall>(p, n)\<in>set (in_cells slots). 0 < n \<longrightarrow> live B (inner m) p = Some n"
    and "\<forall>c\<in>set (out_cells slots). live B (inner m) c = Some 8"
    and "\<forall>(p, n)\<in>set (pad_cells slots). live B (inner m) p = Some n"
  using assms unfolding slots_live_def slot_cells by auto

lemma out_cells_aligned: "list_all2 (fits m) slots steps \<Longrightarrow> c \<in> set (out_cells slots) \<Longrightarrow> c mod 4 = 0"
proof (induction slots steps rule: list_all2_induct)
  case (Cons s slots st steps)
  then show ?case by (cases s; cases st) auto
qed simp

lemma answers_taken:
  assumes ok: "inv_ok B" "free_ok W B" and ans: "answers B slots m outs pads m'"
    and lv: "slots_live B slots m" and fit: "list_all2 (fits m) slots steps"
  shows "\<exists>bufs m''. each (Out_take W) (map (\<lambda>c. \<lparr>cell = c\<rparr>) (out_cells slots)) m' = (Inr outs, m'') \<and>
           shrunk B m' (set (out_cells slots) \<union> fst ` set (out_blocks bufs)) m'' \<and>
           (\<forall>p\<in>fst ` set (out_blocks bufs). live B (inner m) p = None) \<and>
           live B (inner m') = live B (inner m) ++ map_of (out_blocks bufs)"
proof -
  from ans obtain bufs where bufs: "map snd bufs = outs" "inv B m'"
      "list_all2 (filled m') (out_cells slots) bufs"
      "distinct (map fst (out_blocks bufs))" "\<forall>p\<in>fst ` set (out_blocks bufs). live B (inner m) p = None"
      "live B (inner m') = live B (inner m) ++ map_of (out_blocks bufs)"
    unfolding answers_def by blast
  have cells: "live B (inner m) c = Some 8" if "c \<in> set (out_cells slots)" for c
    using slots_live_parts(2) [OF lv] that by simp
  have keep: "live B (inner m') q = Some k" if "live B (inner m) q = Some k" for q k
    using bufs(5,6) that by (force simp: map_add_Some_iff map_of_eq_None_iff)
  have new: "\<forall>(p, n)\<in>set (out_blocks bufs). live B (inner m') p = Some n"
    using bufs(4,6) by (auto simp: map_add_Some_iff)
  have dis: "distinct (out_cells slots @ map fst (out_blocks bufs))"
    using bufs(4,5) cells slot_cells_distinct [of slots] lv unfolding slots_live_def by fastforce
  have "\<forall>c\<in>set (out_cells slots). live B (inner m') c = Some 8 \<and> c mod 4 = 0"
    using cells keep out_cells_aligned [OF fit] by blast
  from take_all_ok [OF ok bufs(2,3) this new dis] bufs show ?thesis by blast
qed

lemma Call_finish_ok:
  assumes core: "core_ok W B text sem name steps" and inv1: "inv B m1"
    and fit: "list_all2 (fits m1) slots steps" and lv: "slots_live B slots m1"
  shows "\<exists>r m'. Call_finish W (foldl add_slot (Call_to name) slots) m1 = (meaning_result text r, m') \<and>
           inv B m' \<and> sem name steps (view B (inner m1)) r (view B (inner m')) \<and>
           live B (inner m') = (\<lambda>q. if q \<in> fst ` set (concat (map slot_blocks slots)) then None else live B (inner m1) q) \<and>
           undisturbed B (fst ` set (concat (map slot_blocks slots))) m1 m'"
proof -
  have ok: "inv_ok B" "free_ok W B" "text_ok W B text" "export_ok W B sem name steps"
    using core by (simp_all add: core_ok_def)
  define cells ins pds where "cells = out_cells slots" and "ins = in_cells slots" and "pds = pad_cells slots"
  define c where "c = foldl add_slot (Call_to name) slots"
  have c: "call_name c = name" "call_args c = concat (map slot_args slots)"
    "call_outs c = map (\<lambda>p. \<lparr>cell = p\<rparr>) cells" "call_pads c = map (\<lambda>(p, n). \<lparr>pad_ptr = p, pad_len = n\<rparr>) pds"
    "call_ins c = map (\<lambda>(p, n). \<lparr>in_ptr = p, in_len = n\<rparr>) ins"
    by (simp_all add: c_def add_slots Call_to_def cells_def pds_def ins_def)
  note parts = slots_live_parts [OF lv, folded cells_def ins_def pds_def]
  have "distinct (map fst (concat (map slot_blocks slots)))" using lv by (simp add: slots_live_def)
  note dis = slot_cells_distinct [OF this, folded cells_def ins_def pds_def]
  define iset where "iset = fst ` set (filter (\<lambda>(p, n). 0 < n) ins)"
  have all: "fst ` set (concat (map slot_blocks slots)) = iset \<union> set cells \<union> fst ` set pds"
    unfolding slot_cells iset_def cells_def ins_def pds_def by (simp add: image_Un image_image)
  from ok(4) inv1 fit lv obtain fn st outs pads m2 where fn: "export_fn W name = Some fn"
    "fn (concat (map slot_args slots)) m1 = (Inr st, m2)"
    "sem name steps (view B (inner m1)) (st, outs, pads) (view B (inner m2))"
    and ans: "answers B slots m1 outs pads m2"
    unfolding export_ok_def by blast
  have m2: "inv B m2" "undisturbed B (set cells \<union> fst ` set pds) m1 m2"
    "list_all2 (\<lambda>(p, n) d. block m2 p n = d) pds pads"
    using ans unfolding answers_def cells_def pds_def by auto
  from answers_taken [OF ok(1,2) ans lv fit] obtain bufs m3 where
    tk: "each (Out_take W) (call_outs c) m2 = (Inr outs, m3)"
    and s3: "shrunk B m2 (set cells \<union> fst ` set (out_blocks bufs)) m3"
    and fresh: "\<forall>p\<in>fst ` set (out_blocks bufs). live B (inner m1) p = None"
    and l2: "live B (inner m2) = live B (inner m1) ++ map_of (out_blocks bufs)"
    unfolding c cells_def by blast
  have keep2: "live B (inner m2) q = Some k" if "live B (inner m1) q = Some k" for q k
    using fresh l2 that by (force simp: map_add_Some_iff map_of_eq_None_iff)
  have notout: "q \<notin> fst ` set (out_blocks bufs)" if "live B (inner m1) q = Some k" for q k
    using fresh that by force
  have inv3: "inv B m3" using s3 by (simp add: shrunk_def)
  have p3: "live B (inner m3) p = Some n \<and> block m3 p n = block m2 p n" if "(p, n) \<in> set pds" for p n
  proof -
    have "live B (inner m1) p = Some n" using parts(3) that by auto
    moreover have "p \<notin> set cells" using dis that by force
    ultimately show ?thesis using shrunk_keeps [OF s3 keep2, of p n] notout [of p n] by simp
  qed
  have i3: "live B (inner m3) p = Some n" if "(p, n) \<in> set ins" "0 < n" for p n
  proof -
    have "live B (inner m1) p = Some n" using parts(1) that by auto
    moreover have "p \<notin> set cells" using dis that by force
    ultimately show ?thesis using shrunk_keeps [OF s3 keep2, of p n] notout [of p n] by simp
  qed
  have "list_all2 (\<lambda>(p, n) d. block m3 p n = d) pds pads"
    using m2(3) by (rule list.rel_mono_strong) (clarsimp simp: p3)
  moreover have "\<forall>(p, n)\<in>set pds. p + n \<le> memory_size m3"
    using p3 inv_live(3) [OF ok(1) inv3] by blast
  ultimately have views: "each Pad_view (call_pads c) m3 = (Inr pads, m3)"
    unfolding c by (rule pad_views_ok)
  have "\<forall>(p, n)\<in>set ins. 0 < n \<longrightarrow> live B (inner m3) p = Some n" using i3 by blast
  from in_free_all_ok [OF ok(2) inv3 this conjunct1 [OF dis]] obtain us m4 where
    f4: "each (In_free W) (call_ins c) m3 = (Inr us, m4)" and s4: "shrunk B m3 iset m4"
    unfolding c iset_def by (elim exE conjE)
  have inv4: "inv B m4" using s4 by (simp add: shrunk_def)
  have "live B (inner m4) p = Some n" if "(p, n) \<in> set pds" for p n
  proof -
    have "p \<notin> iset" using dis that unfolding iset_def by force
    with shrunk_keeps [OF s4, of p n] p3 [OF that] show ?thesis by simp
  qed
  then have "\<forall>(p, n)\<in>set pds. live B (inner m4) p = Some n" by blast
  from pad_free_all_ok [OF ok(2) inv4 this] dis obtain us' m5 where
    f5: "each (Pad_free W) (call_pads c) m4 = (Inr us', m5)" and s5: "shrunk B m4 (fst ` set pds) m5"
    unfolding c by (elim conjE) (erule meta_impE, assumption, elim exE conjE)
  note s35 = shrunk_trans [OF shrunk_trans [OF s3 s4] s5]
  have run: "Call_finish W c m1 = (meaning_result text (st, outs, pads), m5)"
    using fn(1,2) tk check_status_ok [OF ok(3) inv3, of st] views f4 f5
    by (simp add: Call_finish_def finallyDo_def andThen_def invoke_def c(1,2) meaning_result_def)
  have "live B (inner m5) = (\<lambda>q. if q \<in> fst ` set (concat (map slot_blocks slots)) then None else live B (inner m1) q)"
  proof
    fix q
    have "live B (inner m5) q = (if q \<in> set cells \<union> fst ` set (out_blocks bufs) \<union> iset \<union> fst ` set pds
        then None else live B (inner m2) q)"
      using s35 by (simp add: shrunk_def)
    also have "\<dots> = (if q \<in> iset \<union> set cells \<union> fst ` set pds then None else live B (inner m1) q)"
      using fresh by (auto simp: l2 map_add_outside)
    finally show "live B (inner m5) q =
        (if q \<in> fst ` set (concat (map slot_blocks slots)) then None else live B (inner m1) q)"
      unfolding all .
  qed
  moreover have "undisturbed B (fst ` set (concat (map slot_blocks slots))) m1 m5"
    unfolding undisturbed_def all
  proof (intro allI impI)
    fix q k
    assume q: "live B (inner m1) q = Some k" and n: "q \<notin> iset \<union> set cells \<union> fst ` set pds"
    have "block m5 q k = block m2 q k"
      using s35 keep2 [OF q] notout [OF q] n unfolding shrunk_def undisturbed_def by blast
    also have "\<dots> = block m1 q k" using m2(2) q n unfolding undisturbed_def by blast
    finally show "block m5 q k = block m1 q k" .
  qed
  moreover have "inv B m5" "sem name steps (view B (inner m1)) (st, outs, pads) (view B (inner m5))"
    using s35 fn(3) by (simp_all add: shrunk_def)
  ultimately show ?thesis using run unfolding c_def by blast
qed

text \<open>C1: a call on a core that keeps its contract, once its inputs, cells and pads are allocated,
  returns what an answer the core may give means (the outputs and pads, or the error of the status)
  and leaves the instance as it found it: the same live blocks with the same contents, so nothing
  it allocated outlives it.\<close>

theorem call_run_refines:
  assumes core: "core_ok W B text sem name steps" and inv: "inv B m" and pos: "list_all pad_pos steps"
    and got: "gather W steps (Call_to name) m = (Inr c, m1)"
  shows "\<exists>r m'. Call_run W name steps m = (meaning_result text r, m') \<and>
           sem name steps (view B (inner m)) r (view B (inner m')) \<and>
           live B (inner m') = live B (inner m) \<and> undisturbed B {} m m' \<and> inv B m'"
proof -
  have ok: "inv_ok B" "alloc_ok W B" using core by (simp_all add: core_ok_def)
  from gather_ok [OF ok inv pos got] obtain slots where
    c: "c = foldl add_slot (Call_to name) slots" and g: "grown B m (concat (map slot_blocks slots)) m1"
    and fit: "list_all2 (fits m1) slots steps" by blast
  define bs where "bs = concat (map slot_blocks slots)"
  note g = g [folded bs_def]
  have inv1: "inv B m1" and lv: "slots_live B slots m1" and v1: "view B (inner m1) = view B (inner m)"
    using g grown_live [OF g] unfolding grown_def slots_live_def bs_def [symmetric] by auto
  from Call_finish_ok [OF core inv1 fit lv] obtain r m' where
    f: "Call_finish W c m1 = (meaning_result text r, m')" "inv B m'"
      "sem name steps (view B (inner m)) r (view B (inner m'))"
      "live B (inner m') = (\<lambda>q. if q \<in> fst ` set bs then None else live B (inner m1) q)"
      "undisturbed B (fst ` set bs) m1 m'"
    unfolding c v1 bs_def by blast
  have dead: "\<forall>p\<in>fst ` set bs. live B (inner m) p = None"
    and l1: "live B (inner m1) = live B (inner m) ++ map_of bs"
    using g by (auto simp: grown_def)
  have "live B (inner m') q = live B (inner m) q" for q
    using dead by (auto simp: f(4) l1 map_add_outside)
  then have "live B (inner m') = live B (inner m)" by (rule ext)
  moreover have "undisturbed B {} m m'"
    unfolding undisturbed_def
  proof (intro allI impI)
    fix q k
    assume q: "live B (inner m) q = Some k" and "q \<notin> {}"
    have "q \<notin> fst ` set bs" using dead q by force
    then have "block m' q k = block m1 q k"
      using f(5) grown_keeps [OF g q] unfolding undisturbed_def by blast
    also have "\<dots> = block m q k" using g q by (auto simp: grown_def undisturbed_def)
    finally show "block m' q k = block m q k" .
  qed
  moreover have "Call_run W name steps m = (meaning_result text r, m')"
    using f(1) got by (simp add: Call_run_def andThen_def)
  ultimately show ?thesis using f(2,3) by blast
qed

theorem call_run_refines_witness:
  "\<exists>r m'. Call_run sample_wasm (js ''gv_plain_body'') [SBytes (Bytes [7]), SOut] sample_start =
       (meaning_result sample_text r, m') \<and>
     sample_meaning (js ''gv_plain_body'') [SBytes (Bytes [7]), SOut] () r () \<and>
     inner m' = inner sample_start"
proof -
  have pos: "list_all pad_pos [SBytes (Bytes [7]), SOut]" by simp
  have inv: "inv sample_books sample_start" by (simp add: sample_books_def sample_start_inv)
  obtain c m1 where got:
    "gather sample_wasm [SBytes (Bytes [7]), SOut] (Call_to (js ''gv_plain_body'')) sample_start = (Inr c, m1)"
    by (simp add: andThen_def In_new_def Out_new_def reserve_def sample_wasm_def sample_alloc_def
        sample_start_def write_view_def aligned4_def)
  show ?thesis
    using call_run_refines [OF sample_core_ok inv pos got] by (auto simp: sample_books_def)
qed

subsection \<open>When a call does not get to its end\<close>

text \<open>The steps that allocate a block, and those whose block only \<^verbatim>\<open>take\<close> frees.\<close>

fun allocates :: "step \<Rightarrow> bool" where
  "allocates (SBytes v) = (data_of v \<noteq> [])"
| "allocates (SNum a) = False"
| "allocates SOut = True"
| "allocates (SPad n) = True"

lemma fits_blocks: "fits m slot st \<Longrightarrow> length (slot_blocks slot) = (if allocates st then 1 else 0)"
  by (cases slot; cases st) auto

lemma fits_all_blocks:
  "list_all2 (fits m) slots steps \<Longrightarrow> length (concat (map slot_blocks slots)) = length (filter allocates steps)"
  by (induction slots steps rule: list_all2_induct) (auto dest!: fits_blocks)

definition out_of_memory :: js_error where
  "out_of_memory = fault OutOfMemory (js ''out of memory'')"

lemma reserve_Inl:
  assumes "alloc_ok W B" "inv B m" "0 < n" "reserve W n m = (Inl e, m')"
  shows "e = out_of_memory \<and> live B (inner m') = live B (inner m)"
proof -
  obtain p m1 where g: "gv_alloc W n m = (p, m1)" by (cases "gv_alloc W n m")
  with assms(4) have "p = 0" "e = out_of_memory" "m' = m1"
    by (auto simp: reserve_def out_of_memory_def split: if_splits)
  with assms(1) [unfolded alloc_ok_def, rule_format, OF assms(3,2) g] show ?thesis by simp
qed

lemma reserve_then:
  assumes ok: "inv_ok B" "alloc_ok W B" and inv: "inv B m" and ne: "data \<noteq> []"
    and run: "andThen (reserve W (length data)) k m = (Inl e, m')"
    and k: "\<And>p m1. write_view p data m1 = (Inr (), poke p data m1) \<Longrightarrow>
       (length data = 8 \<Longrightarrow> p mod 4 = 0) \<Longrightarrow> fst (k p m1) \<noteq> Inl e"
  shows "e = out_of_memory \<and> live B (inner m') = live B (inner m)"
proof -
  obtain r m1 where r: "reserve W (length data) m = (r, m1)" by (cases "reserve W (length data) m")
  show ?thesis
  proof (cases r)
    case (Inl e')
    with r run have "e' = e" "m1 = m'" by (simp_all add: andThen_def)
    with reserve_Inl [OF ok(2) inv _ r [unfolded Inl]] ne show ?thesis by simp
  next
    case (Inr p)
    with reserve_grown [OF ok inv ne r [unfolded Inr]] k [of p m1] r run show ?thesis
      by (auto simp: andThen_def)
  qed
qed

lemma Call_step_Inl:
  assumes ok: "inv_ok B" "alloc_ok W B" and inv: "inv B m" and pos: "pad_pos st"
    and run: "Call_step W st c m = (Inl e, m')"
  shows "e = out_of_memory \<and> live B (inner m') = live B (inner m)"
proof (cases st)
  case (SBytes v)
  have ne: "data_of v \<noteq> []"
    using run SBytes by (auto simp: In_new_def Let_def andThen_def)
  with run SBytes show ?thesis
    by (intro reserve_then [OF ok inv ne, where e = e and m' = m'])
       (auto simp: In_new_def Let_def andThen_assoc, auto simp: andThen_def)
next
  case (SNum a)
  with run show ?thesis by simp
next
  case SOut
  with run show ?thesis
    by (intro reserve_then [OF ok inv, where data = "replicate 8 0" and e = e and m' = m'])
       (auto simp: Out_new_def andThen_assoc, auto simp: andThen_def aligned4_def)
next
  case (SPad n)
  with run pos show ?thesis
    by (intro reserve_then [OF ok inv, where data = "replicate n 0" and e = e and m' = m'])
       (auto simp: Pad_new_def andThen_assoc, auto simp: andThen_def)
qed

lemma gather_append: "gather W (pre @ post) c = andThen (gather W pre c) (gather W post)"
proof (induction pre arbitrary: c)
  case (Cons st pre)
  have "gather W (pre @ post) = (\<lambda>c. andThen (gather W pre c) (gather W post))"
    by (rule ext) (rule Cons.IH)
  then show ?case by (simp add: andThen_assoc)
qed simp

text \<open>C37: when the builder runs out of memory part way, the call throws \<^verbatim>\<open>OutOfMemory\<close> and
  every block the earlier steps allocated stays allocated: nothing frees them.\<close>

theorem call_out_of_memory_leaks:
  assumes ok: "inv_ok B" "alloc_ok W B" and inv: "inv B m" and pos: "list_all pad_pos (pre @ [st])"
    and got: "gather W pre (Call_to name) m = (Inr c, m1)" and fails: "Call_step W st c m1 = (Inl e, m2)"
  shows "Call_run W name (pre @ st # post) m = (Inl (fault OutOfMemory (js ''out of memory'')), m2) \<and>
    (\<exists>bs. length bs = length (filter allocates pre) \<and> distinct (map fst bs) \<and>
          (\<forall>p\<in>fst ` set bs. live B (inner m) p = None) \<and>
          live B (inner m2) = live B (inner m) ++ map_of bs)"
proof -
  from gather_ok [OF ok inv _ got] pos obtain slots where
    g: "grown B m (concat (map slot_blocks slots)) m1" and fit: "list_all2 (fits m1) slots pre" by auto
  have inv1: "inv B m1" using g by (simp add: grown_def)
  have e: "e = out_of_memory" "live B (inner m2) = live B (inner m1)"
    using Call_step_Inl [OF ok inv1 _ fails] pos by auto
  have "Call_run W name (pre @ st # post) m = (Inl e, m2)"
    using got fails by (simp add: Call_run_def gather_append andThen_def)
  moreover have "\<exists>bs. length bs = length (filter allocates pre) \<and> distinct (map fst bs) \<and>
      (\<forall>p\<in>fst ` set bs. live B (inner m) p = None) \<and> live B (inner m2) = live B (inner m) ++ map_of bs"
    using g fits_all_blocks [OF fit] unfolding grown_def e(2) by blast
  ultimately show ?thesis unfolding e(1) out_of_memory_def by blast
qed

theorem call_out_of_memory_leaks_witness:
  "\<exists>m'. Call_run sample_wasm (js ''gv_curve_pair'') [SOut, SOut]
       (sample_start\<lparr>memory_size := 2 ^ 32 - 16\<rparr>) = (Inl (fault OutOfMemory (js ''out of memory'')), m') \<and>
     card (dom (inner m')) = 1"
proof -
  define m where "m = sample_start\<lparr>memory_size := 2 ^ 32 - 16\<rparr>"
  have inv: "inv sample_books m" by (simp add: sample_books_def sample_inv_def m_def sample_start_def)
  obtain c m1 where got: "gather sample_wasm [SOut] (Call_to (js ''gv_curve_pair'')) m = (Inr c, m1)"
    and m1: "memory_size m1 = 2 ^ 32 - 8"
    by (simp add: andThen_def Out_new_def reserve_def sample_wasm_def sample_alloc_def m_def
        sample_start_def write_view_def aligned4_def)
  have fails: "Call_step sample_wasm SOut c m1 = (Inl out_of_memory, m1)"
    by (simp add: andThen_def Out_new_def reserve_def sample_wasm_def sample_alloc_def m1 out_of_memory_def)
  have "list_all pad_pos ([SOut] @ [SOut])" by simp
  from call_out_of_memory_leaks [OF sample_inv_ok sample_alloc_ok inv this got fails, of "[]"]
  obtain bs where r: "Call_run sample_wasm (js ''gv_curve_pair'') ([SOut] @ [SOut]) m =
      (Inl (fault OutOfMemory (js ''out of memory'')), m1)"
    and bs: "length bs = length (filter allocates [SOut])" "inner m1 = inner m ++ map_of bs"
    by (auto simp: sample_books_def)
  obtain p n where "bs = [(p, n)]" using bs(1) by (cases bs) auto
  with bs(2) have "inner m1 = [p \<mapsto> n]" by (simp add: m_def sample_start_def map_add_def fun_eq_iff)
  with r show ?thesis unfolding m_def by simp
qed

lemma out_cells_count: "list_all2 (fits m) slots steps \<Longrightarrow> length (out_cells slots) = length (filter (\<lambda>st. st = SOut) steps)"
proof (induction slots steps rule: list_all2_induct)
  case (Cons s slots st steps)
  then show ?case by (cases s; cases st) auto
qed simp

lemma frees_ok:
  assumes ok: "free_ok W B" and inv: "inv B m1" and lv: "slots_live B slots m1"
  shows "\<exists>us us' m2 m3. each (In_free W) (map (\<lambda>(p, n). \<lparr>in_ptr = p, in_len = n\<rparr>) (in_cells slots)) m1 = (Inr us, m2) \<and>
    each (Pad_free W) (map (\<lambda>(p, n). \<lparr>pad_ptr = p, pad_len = n\<rparr>) (pad_cells slots)) m2 = (Inr us', m3) \<and>
    shrunk B m1 (fst ` set (filter (\<lambda>(p, n). 0 < n) (in_cells slots)) \<union> fst ` set (pad_cells slots)) m3"
proof -
  define ins pds where "ins = in_cells slots" and "pds = pad_cells slots"
  note parts = slots_live_parts [OF lv, folded ins_def pds_def]
  have "distinct (map fst (concat (map slot_blocks slots)))" using lv by (simp add: slots_live_def)
  note dis = slot_cells_distinct [OF this, folded ins_def pds_def]
  from in_free_all_ok [OF ok inv parts(1) conjunct1 [OF dis]] obtain us m2 where
    1: "each (In_free W) (map (\<lambda>(p, n). \<lparr>in_ptr = p, in_len = n\<rparr>) ins) m1 = (Inr us, m2)"
      "shrunk B m1 (fst ` set (filter (\<lambda>(p, n). 0 < n) ins)) m2" by (elim exE conjE)
  have "live B (inner m2) p = Some n" if "(p, n) \<in> set pds" for p n
  proof -
    have "p \<notin> fst ` set (filter (\<lambda>(p, n). 0 < n) ins)" using dis that by force
    moreover have "live B (inner m1) p = Some n" using parts(3) that by auto
    ultimately show ?thesis using shrunk_keeps [OF 1(2)] by simp
  qed
  then have "\<forall>(p, n)\<in>set pds. live B (inner m2) p = Some n" by blast
  moreover have "inv B m2" using 1(2) by (simp add: shrunk_def)
  moreover have "distinct (map fst pds)" using dis by (elim conjE)
  ultimately have "\<exists>us m'. each (Pad_free W) (map (\<lambda>(p, n). \<lparr>pad_ptr = p, pad_len = n\<rparr>) pds) m2 = (Inr us, m') \<and>
      shrunk B m2 (fst ` set pds) m'"
    by (intro pad_free_all_ok [OF ok])
  then obtain us' m3 where
    2: "each (Pad_free W) (map (\<lambda>(p, n). \<lparr>pad_ptr = p, pad_len = n\<rparr>) pds) m2 = (Inr us', m3)"
      "shrunk B m2 (fst ` set pds) m3"
    by (elim exE conjE)
  from 1(1) 2(1) shrunk_trans [OF 1(2) 2(2)] show ?thesis
    unfolding ins_def [symmetric] pds_def [symmetric] by (intro exI conjI)
qed

text \<open>C38: a call to an export the module does not have throws \<^verbatim>\<open>InternalError\<close> and frees its
  inputs and pads, and every output cell it allocated stays allocated.\<close>

theorem call_missing_export_leaks:
  assumes ok: "inv_ok B" "alloc_ok W B" "free_ok W B" and inv: "inv B m" and pos: "list_all pad_pos steps"
    and got: "gather W steps (Call_to name) m = (Inr c, m1)" and missing: "export_fn W name = None"
  shows "\<exists>m' cells. Call_run W name steps m = (Inl (fault Internal (js ''missing export '' @ name)), m') \<and>
    length cells = length (filter (\<lambda>st. st = SOut) steps) \<and> distinct cells \<and>
    (\<forall>p\<in>set cells. live B (inner m) p = None) \<and>
    live B (inner m') = (\<lambda>q. if q \<in> set cells then Some 8 else live B (inner m) q)"
proof -
  from gather_ok [OF ok(1,2) inv pos got] obtain slots where
    c: "c = foldl add_slot (Call_to name) slots" and g: "grown B m (concat (map slot_blocks slots)) m1"
    and fit: "list_all2 (fits m1) slots steps" by blast
  define bs where "bs = concat (map slot_blocks slots)"
  note g = g [folded bs_def]
  define cells ids pids where "cells = out_cells slots"
    and "ids = fst ` set (filter (\<lambda>(p, n). 0 < n) (in_cells slots))" and "pids = fst ` set (pad_cells slots)"
  have inv1: "inv B m1" and lv: "slots_live B slots m1"
    using g grown_live [OF g] unfolding grown_def slots_live_def bs_def [symmetric] by auto
  have cc: "call_name c = name" "call_pads c = map (\<lambda>(p, n). \<lparr>pad_ptr = p, pad_len = n\<rparr>) (pad_cells slots)"
    "call_ins c = map (\<lambda>(p, n). \<lparr>in_ptr = p, in_len = n\<rparr>) (in_cells slots)"
    by (simp_all add: c add_slots Call_to_def)
  from frees_ok [OF ok(3) inv1 lv] obtain us us' m2 m3 where
    f: "each (In_free W) (call_ins c) m1 = (Inr us, m2)" "each (Pad_free W) (call_pads c) m2 = (Inr us', m3)"
    and s: "shrunk B m1 (ids \<union> pids) m3"
    unfolding cc ids_def pids_def by (elim exE conjE)
  have "Call_run W name steps m = (Inl (fault Internal (js ''missing export '' @ name)), m3)"
    using got f missing by (simp add: Call_run_def Call_finish_def finallyDo_def andThen_def invoke_def cc(1))
  moreover have "distinct (map fst bs)" using g by (simp add: grown_def)
  note dis = slot_cells_distinct [OF this [unfolded bs_def], folded cells_def ids_def pids_def]
  have all: "fst ` set bs = ids \<union> set cells \<union> pids"
    unfolding bs_def slot_cells ids_def cells_def pids_def by (simp add: image_Un image_image)
  have dead: "live B (inner m) p = None" if "p \<in> fst ` set bs" for p
    using grown_dead [OF g that] .
  have l1: "live B (inner m1) = live B (inner m) ++ map_of bs" using g by (simp add: grown_def)
  have "live B (inner m3) q = (if q \<in> set cells then Some 8 else live B (inner m) q)" for q
  proof -
    have "live B (inner m1) q = Some 8" if "q \<in> set cells"
      using slots_live_parts(2) [OF lv] that by (simp add: cells_def)
    moreover have "live B (inner m1) q = live B (inner m) q" if "q \<notin> ids \<union> set cells \<union> pids"
      using that by (simp add: l1 map_add_outside all)
    moreover have "live B (inner m) q = None" if "q \<in> ids \<union> pids" using dead [of q] that all by auto
    moreover have "live B (inner m3) q = (if q \<in> ids \<union> pids then None else live B (inner m1) q)"
      using s by (simp add: shrunk_def)
    moreover have "q \<notin> ids \<union> pids" if "q \<in> set cells" using dis that by blast
    ultimately show ?thesis by auto
  qed
  then have "live B (inner m3) = (\<lambda>q. if q \<in> set cells then Some 8 else live B (inner m) q)" by (rule ext)
  moreover have "\<forall>p\<in>set cells. live B (inner m) p = None" using dead all by blast
  moreover have "distinct cells" using dis by (elim conjE)
  ultimately show ?thesis using out_cells_count [OF fit] unfolding cells_def by blast
qed

theorem call_missing_export_leaks_witness:
  "\<exists>m' cells. Call_run sample_wasm (js ''gv_nothing'') [SBytes (Bytes [1]), SOut, SPad 4] sample_start =
      (Inl (fault Internal (js ''missing export gv_nothing'')), m') \<and>
    length cells = 1 \<and> inner m' = (\<lambda>q. if q \<in> set cells then Some 8 else None)"
proof -
  have inv: "inv sample_books sample_start" by (simp add: sample_books_def sample_start_inv)
  have pos: "list_all pad_pos [SBytes (Bytes [1]), SOut, SPad 4]" by simp
  obtain c m1 where got: "gather sample_wasm [SBytes (Bytes [1]), SOut, SPad 4] (Call_to (js ''gv_nothing'')) sample_start = (Inr c, m1)"
    by (simp add: andThen_def In_new_def Out_new_def Pad_new_def reserve_def sample_wasm_def sample_alloc_def
        sample_start_def write_view_def aligned4_def)
  have lv: "live sample_books w = w" "inner sample_start = (\<lambda>q. None)" for w
    by (simp_all add: sample_books_def sample_start_def)
  have missing: "export_fn sample_wasm (js ''gv_nothing'') = None" by (simp add: sample_wasm_def)
  from call_missing_export_leaks [OF sample_inv_ok sample_alloc_ok sample_free_ok inv pos got missing, unfolded lv]
  obtain m' cells where
    "Call_run sample_wasm (js ''gv_nothing'') [SBytes (Bytes [1]), SOut, SPad 4] sample_start =
      (Inl (fault Internal (js ''missing export '' @ js ''gv_nothing'')), m')"
    "length cells = 1" "inner m' = (\<lambda>q. if q \<in> set cells then Some 8 else None)"
    by auto
  then show ?thesis by (intro exI [of _ m'] exI [of _ cells]) simp
qed

end
