(* ===== verification/Bridge.thy ===== *)
theory Bridge
  imports Call
begin

text \<open>
  The object \<^verbatim>\<open>core\<close> of \<^verbatim>\<open>sdk/ts/src/bridge.ts\<close>: one typed operation per
  export, a chain of builder steps and a reader of the outputs and pads. The operations are over
  a record of the four ways the bridge reaches the core, so that they run on the wasm memory
  (\<open>Bridge_Machine.machine_calls\<close>) and on an abstract core alike.

  The readers of the pads are the offsets of the C structs; \<open>Structs\<close> relates them to the
  layout of \<^verbatim>\<open>include/gossveil.h\<close>.
\<close>

subsection \<open>Reading a pad\<close>

definition getUint8 :: "bytes \<Rightarrow> nat \<Rightarrow> int" where
  "getUint8 v at = int (from_le (slice at 1 v))"

definition getUint32 :: "bytes \<Rightarrow> nat \<Rightarrow> int" where
  "getUint32 v at = int (from_le (slice at 4 v))"

definition getBigUint64 :: "bytes \<Rightarrow> nat \<Rightarrow> int" where
  "getBigUint64 v at = int (from_le (slice at 8 v))"

definition getBigInt64 :: "bytes \<Rightarrow> nat \<Rightarrow> int" where
  "getBigInt64 v at = from_twos 64 (from_le (slice at 8 v))"

text \<open>\<^verbatim>\<open>pad.bytes(offset, len)\<close>.\<close>

definition Pad_bytes :: "bytes \<Rightarrow> nat \<Rightarrow> nat \<Rightarrow> bytes" where
  "Pad_bytes v offset len = slice offset len v"

text \<open>An id written as a signed 64-bit integer, negative for none.\<close>

definition signedId :: "bytes \<Rightarrow> nat \<Rightarrow> int option" where
  "signedId dv at = (let v = getBigInt64 dv at in if v < 0 then None else Some v)"

subsection \<open>The types of the bridge\<close>

definition PQ_ROUND_THREE :: int where "PQ_ROUND_THREE = 8"
definition PQ_STANDARD :: int where "PQ_STANDARD = 10"
definition KEM_KYBER1024 :: int where "KEM_KYBER1024 = 8"
definition KEM_MLKEM1024 :: int where "KEM_MLKEM1024 = 10"

datatype message_type = Whisper | PreKey | SenderKey | Plaintext

fun MessageType :: "message_type \<Rightarrow> int" where
  "MessageType Whisper = 2"
| "MessageType PreKey = 3"
| "MessageType SenderKey = 7"
| "MessageType Plaintext = 8"

record session_info =
  hasLive :: bool
  canSend :: bool
  usable :: bool
  si_version :: int
  localRegistrationId :: int
  remoteRegistrationId :: int
  shelved :: int
  localIdentity :: bytes
  remoteIdentity :: bytes
  si_base :: bytes

record published =
  p_registrationId :: int
  p_device :: int
  p_oneTimeId :: "int option"
  p_oneTime :: "bytes option"
  p_signedId :: int
  p_signedKey :: bytes
  p_signedSignature :: bytes
  p_identity :: bytes
  p_pqId :: int
  p_pqKey :: bytes
  p_pqSignature :: bytes

record consumed =
  c_used :: bool
  c_oneTimeId :: "int option"
  c_signedId :: int
  c_pqId :: int
  c_base :: bytes

record opener_info =
  o_version :: int
  o_registrationId :: int
  o_oneTimeId :: "int option"
  o_signedId :: int
  o_pqId :: "int option"
  o_base :: bytes
  o_identity :: bytes

record whisper_info =
  w_version :: int
  w_index :: int
  w_previousIndex :: int
  w_ratchet :: bytes

record binding =
  b_sender :: "jsstring option"
  b_senderDevice :: int
  b_recipient :: "jsstring option"
  b_recipientDevice :: int

text \<open>\<^verbatim>\<open>x ?? ''\<close>.\<close>

definition or_empty :: "'a list option \<Rightarrow> 'a list" where
  "or_empty x = (case x of None \<Rightarrow> [] | Some s \<Rightarrow> s)"

definition bound :: "step list \<Rightarrow> binding \<Rightarrow> step list" where
  "bound call b = call @ [SBytes (Str (or_empty (b_sender b))), SNum (Num (b_senderDevice b)),
     SBytes (Str (or_empty (b_recipient b))), SNum (Num (b_recipientDevice b))]"

subsection \<open>Running a call\<close>

record 's core_calls =
  run_call :: "jsstring \<Rightarrow> step list \<Rightarrow> ('s, bytes list \<times> bytes list) op"
  run_start :: "bytes \<Rightarrow> int \<Rightarrow> bytes \<Rightarrow> published \<Rightarrow> int \<Rightarrow> ('s, bytes) op"
  run_poolValid :: "jsstring \<Rightarrow> ('s, bool) op"
  run_abiVersion :: "('s, int) op"

text \<open>\<^verbatim>\<open>finish(read)\<close> with a reader that is a function of the outputs and pads.\<close>

definition finish :: "'s core_calls \<Rightarrow> jsstring \<Rightarrow> step list \<Rightarrow> (bytes list \<Rightarrow> bytes list \<Rightarrow> 'a) \<Rightarrow> ('s, 'a) op" where
  "finish K name steps read = andThen (run_call K name steps) (\<lambda>(outs, pads). ret (read outs pads))"

definition first :: "'s core_calls \<Rightarrow> jsstring \<Rightarrow> step list \<Rightarrow> ('s, bytes) op" where
  "first K name steps = finish K name steps (\<lambda>outs pads. outs ! 0)"

definition status :: "'s core_calls \<Rightarrow> jsstring \<Rightarrow> step list \<Rightarrow> ('s, unit) op" where
  "status K name steps = finish K name steps (\<lambda>outs pads. ())"

definition flag :: "'s core_calls \<Rightarrow> jsstring \<Rightarrow> step list \<Rightarrow> ('s, bool) op" where
  "flag K name steps = finish K name (steps @ [SPad 1]) (\<lambda>outs pads. getUint8 (pads ! 0) 0 = 1)"

definition pair :: "'s core_calls \<Rightarrow> jsstring \<Rightarrow> step list \<Rightarrow> ('s, bytes \<times> bytes) op" where
  "pair K name steps = finish K name steps (\<lambda>outs pads. (outs ! 0, outs ! 1))"

definition triple :: "'s core_calls \<Rightarrow> jsstring \<Rightarrow> step list \<Rightarrow> ('s, bytes \<times> bytes \<times> bytes) op" where
  "triple K name steps = finish K name steps (\<lambda>outs pads. (outs ! 0, outs ! 1, outs ! 2))"

abbreviation byt :: "bytes \<Rightarrow> step" where "byt x \<equiv> SBytes (Bytes x)"
abbreviation str :: "jsstring \<Rightarrow> step" where "str x \<equiv> SBytes (Str x)"
abbreviation num :: "int \<Rightarrow> step" where "num x \<equiv> SNum (Num x)"
abbreviation big :: "int \<Rightarrow> step" where "big x \<equiv> SNum (Big x)"

subsection \<open>Keys\<close>

definition core_abiVersion :: "'s core_calls \<Rightarrow> ('s, int) op" where
  "core_abiVersion K = run_abiVersion K"

definition core_curvePair :: "'s core_calls \<Rightarrow> ('s, bytes \<times> bytes) op" where
  "core_curvePair K =
     pair K (js ''gv_curve_pair'') [SOut, SOut]"

definition core_curvePublic :: "'s core_calls \<Rightarrow> bytes \<Rightarrow> ('s, bytes) op" where
  "core_curvePublic K secret =
     first K (js ''gv_curve_public'') [byt secret, SOut]"

definition core_curveSign :: "'s core_calls \<Rightarrow> bytes \<Rightarrow> bytes \<Rightarrow> ('s, bytes) op" where
  "core_curveSign K secret message =
     first K (js ''gv_curve_sign'') [byt secret, byt message, SOut]"

definition core_curveVerify :: "'s core_calls \<Rightarrow> bytes \<Rightarrow> bytes \<Rightarrow> bytes \<Rightarrow> ('s, bool) op" where
  "core_curveVerify K publicKey message signature =
     flag K (js ''gv_curve_verify'') [byt publicKey, byt message, byt signature]"

definition core_curveAgree :: "'s core_calls \<Rightarrow> bytes \<Rightarrow> bytes \<Rightarrow> ('s, bytes) op" where
  "core_curveAgree K secret publicKey =
     first K (js ''gv_curve_agree'') [byt secret, byt publicKey, SOut]"

definition core_curveCheck :: "'s core_calls \<Rightarrow> bytes \<Rightarrow> ('s, unit) op" where
  "core_curveCheck K publicKey =
     status K (js ''gv_curve_check'') [byt publicKey]"

definition core_pqPair :: "'s core_calls \<Rightarrow> int \<Rightarrow> ('s, bytes \<times> bytes) op" where
  "core_pqPair K scheme =
     pair K (js ''gv_pq_pair'') [num scheme, SOut, SOut]"

definition core_pqEncapsulate :: "'s core_calls \<Rightarrow> bytes \<Rightarrow> ('s, bytes \<times> bytes) op" where
  "core_pqEncapsulate K publicKey =
     pair K (js ''gv_pq_encapsulate'') [byt publicKey, SOut, SOut]"

definition core_pqOpen :: "'s core_calls \<Rightarrow> bytes \<Rightarrow> bytes \<Rightarrow> ('s, bytes) op" where
  "core_pqOpen K secret capsule =
     first K (js ''gv_pq_open'') [byt secret, byt capsule, SOut]"

definition core_identitySerialize :: "'s core_calls \<Rightarrow> bytes \<Rightarrow> ('s, bytes) op" where
  "core_identitySerialize K secret =
     first K (js ''gv_identity_serialize'') [byt secret, SOut]"

definition core_identityParse :: "'s core_calls \<Rightarrow> bytes \<Rightarrow> ('s, bytes \<times> bytes) op" where
  "core_identityParse K serialized =
     pair K (js ''gv_identity_parse'') [byt serialized, SOut, SOut]"

definition core_identityVouch :: "'s core_calls \<Rightarrow> bytes \<Rightarrow> bytes \<Rightarrow> ('s, bytes) op" where
  "core_identityVouch K secret other =
     first K (js ''gv_identity_vouch'') [byt secret, byt other, SOut]"

definition core_identityVouched :: "'s core_calls \<Rightarrow> bytes \<Rightarrow> bytes \<Rightarrow> bytes \<Rightarrow> ('s, bool) op" where
  "core_identityVouched K publicKey other signature =
     flag K (js ''gv_identity_vouched'') [byt publicKey, byt other, byt signature]"

subsection \<open>Published key records\<close>

text \<open>The parsed records: the id and stamp of the pads with the outputs.\<close>

record one_time_parts =
  ot_id :: int
  ot_publicKey :: bytes
  ot_secret :: bytes

record signed_parts =
  sp_id :: int
  sp_stamp :: int
  sp_publicKey :: bytes
  sp_secret :: bytes
  sp_signature :: bytes

definition core_oneTimeRecord :: "'s core_calls \<Rightarrow> int \<Rightarrow> bytes \<Rightarrow> ('s, bytes) op" where
  "core_oneTimeRecord K id1 secret =
     first K (js ''gv_one_time_record'') [num id1, byt secret, SOut]"

definition core_oneTimeParse :: "'s core_calls \<Rightarrow> bytes \<Rightarrow> ('s, one_time_parts) op" where
  "core_oneTimeParse K record1 =
     finish K (js ''gv_one_time_parse'') [byt record1, SPad 4, SOut, SOut] (\<lambda>outs pads.
       \<lparr>ot_id = getUint32 (pads ! 0) 0, ot_publicKey = outs ! 0, ot_secret = outs ! 1\<rparr>)"

definition core_signedRecord :: "'s core_calls \<Rightarrow> int \<Rightarrow> int \<Rightarrow> bytes \<Rightarrow> bytes \<Rightarrow> ('s, bytes) op" where
  "core_signedRecord K id1 stamp secret signature =
     first K (js ''gv_signed_record'') [num id1, big stamp, byt secret, byt signature, SOut]"

definition read_signed :: "bytes list \<Rightarrow> bytes list \<Rightarrow> signed_parts" where
  "read_signed outs pads =
     \<lparr>sp_id = getUint32 (pads ! 0) 0, sp_stamp = getBigUint64 (pads ! 1) 0,
      sp_publicKey = outs ! 0, sp_secret = outs ! 1, sp_signature = outs ! 2\<rparr>"

definition core_signedParse :: "'s core_calls \<Rightarrow> bytes \<Rightarrow> ('s, signed_parts) op" where
  "core_signedParse K record1 =
     finish K (js ''gv_signed_parse'') [byt record1, SPad 4, SPad 8, SOut, SOut, SOut] read_signed"

definition core_pqRecord :: "'s core_calls \<Rightarrow> int \<Rightarrow> int \<Rightarrow> bytes \<Rightarrow> bytes \<Rightarrow> bytes \<Rightarrow> ('s, bytes) op" where
  "core_pqRecord K id1 stamp publicKey secret signature =
     first K (js ''gv_pq_record'') [num id1, big stamp, byt publicKey, byt secret, byt signature, SOut]"

definition core_pqRecordParse :: "'s core_calls \<Rightarrow> bytes \<Rightarrow> ('s, signed_parts) op" where
  "core_pqRecordParse K record1 =
     finish K (js ''gv_pq_record_parse'') [byt record1, SPad 4, SPad 8, SOut, SOut, SOut] read_signed"

subsection \<open>Sessions\<close>

definition read_session_info :: "bytes \<Rightarrow> session_info" where
  "read_session_info v =
     \<lparr>hasLive = (getUint8 v 0 = 1), canSend = (getUint8 v 1 = 1), usable = (getUint8 v 2 = 1),
      si_version = getUint32 v 4, localRegistrationId = getUint32 v 8,
      remoteRegistrationId = getUint32 v 12, shelved = getUint32 v 16,
      localIdentity = Pad_bytes v 20 33, remoteIdentity = Pad_bytes v 53 33, si_base = Pad_bytes v 86 33\<rparr>"

definition core_sessionInfo :: "'s core_calls \<Rightarrow> bytes \<Rightarrow> int \<Rightarrow> ('s, session_info) op" where
  "core_sessionInfo K record1 nowSecs =
     finish K (js ''gv_session_info'') [byt record1, big nowSecs, SPad 120]
       (\<lambda>outs pads. read_session_info (pads ! 0))"

definition core_sessionShelve :: "'s core_calls \<Rightarrow> bytes \<Rightarrow> ('s, bytes) op" where
  "core_sessionShelve K record1 =
     first K (js ''gv_session_shelve'') [byt record1, SOut]"

definition core_sessionRatchetIs :: "'s core_calls \<Rightarrow> bytes \<Rightarrow> bytes \<Rightarrow> ('s, bool) op" where
  "core_sessionRatchetIs K record1 key =
     flag K (js ''gv_session_ratchet_is'') [byt record1, byt key]"

text \<open>\<^verbatim>\<open>sessionStart\<close> lays its struct out by hand: \<open>Bridge_Machine.sessionStart\<close>.\<close>

definition core_sessionStart ::
    "'s core_calls \<Rightarrow> bytes \<Rightarrow> int \<Rightarrow> bytes \<Rightarrow> published \<Rightarrow> int \<Rightarrow> ('s, bytes) op" where
  "core_sessionStart K identitySecret registrationId record1 p nowSecs =
     run_start K identitySecret registrationId record1 p nowSecs"

record sealed_parts =
  sl_kind :: int
  sl_sealed :: bytes
  sl_record :: bytes

record opened_parts =
  op_plain :: bytes
  op_record :: bytes
  op_consumed :: consumed

definition core_sessionSeal ::
    "'s core_calls \<Rightarrow> bytes \<Rightarrow> bytes \<Rightarrow> int \<Rightarrow> binding \<Rightarrow> ('s, sealed_parts) op" where
  "core_sessionSeal K record1 plain nowSecs b =
     finish K (js ''gv_session_seal'')
       (bound [byt record1, byt plain, big nowSecs] b @ [SPad 1, SOut, SOut]) (\<lambda>outs pads.
       \<lparr>sl_kind = getUint8 (pads ! 0) 0, sl_sealed = outs ! 0, sl_record = outs ! 1\<rparr>)"

definition core_sessionOpen ::
    "'s core_calls \<Rightarrow> bytes \<Rightarrow> bytes \<Rightarrow> binding \<Rightarrow> ('s, bytes \<times> bytes) op" where
  "core_sessionOpen K record1 whisper b =
     pair K (js ''gv_session_open'') (bound [byt record1, byt whisper] b @ [SOut, SOut])"

definition read_consumed :: "bytes \<Rightarrow> consumed" where
  "read_consumed v =
     \<lparr>c_used = (getUint8 v 0 = 1), c_oneTimeId = signedId v 8, c_signedId = getUint32 v 16,
      c_pqId = getUint32 v 20, c_base = Pad_bytes v 24 33\<rparr>"

definition core_sessionOpenFirst ::
    "'s core_calls \<Rightarrow> bytes \<Rightarrow> int \<Rightarrow> bytes \<Rightarrow> bytes \<Rightarrow> bytes \<Rightarrow> bytes \<Rightarrow> bytes \<Rightarrow> binding \<Rightarrow>
      ('s, opened_parts) op" where
  "core_sessionOpenFirst K identitySecret registrationId record1 opener signedRecord oneTimeRecord pqRecord b =
     finish K (js ''gv_session_open_first'')
       (bound [byt identitySecret, num registrationId, byt record1, byt opener, byt signedRecord,
               byt oneTimeRecord, byt pqRecord] b @ [SOut, SOut, SPad 64]) (\<lambda>outs pads.
       \<lparr>op_plain = outs ! 0, op_record = outs ! 1, op_consumed = read_consumed (pads ! 0)\<rparr>)"

definition read_opener_info :: "bytes \<Rightarrow> opener_info" where
  "read_opener_info v =
     \<lparr>o_version = getUint8 v 0, o_registrationId = getUint32 v 4, o_oneTimeId = signedId v 8,
      o_signedId = getUint32 v 16, o_pqId = signedId v 24, o_base = Pad_bytes v 32 33,
      o_identity = Pad_bytes v 65 33\<rparr>"

definition core_openerParse :: "'s core_calls \<Rightarrow> bytes \<Rightarrow> ('s, opener_info \<times> bytes) op" where
  "core_openerParse K opener =
     finish K (js ''gv_opener_parse'') [byt opener, SPad 104, SOut]
       (\<lambda>outs pads. (read_opener_info (pads ! 0), outs ! 0))"

definition read_whisper_info :: "bytes \<Rightarrow> whisper_info" where
  "read_whisper_info v =
     \<lparr>w_version = getUint8 v 0, w_index = getUint32 v 4, w_previousIndex = getUint32 v 8,
      w_ratchet = Pad_bytes v 12 33\<rparr>"

definition core_whisperParse :: "'s core_calls \<Rightarrow> bytes \<Rightarrow> ('s, whisper_info \<times> bytes) op" where
  "core_whisperParse K whisper =
     finish K (js ''gv_whisper_parse'') [byt whisper, SPad 48, SOut]
       (\<lambda>outs pads. (read_whisper_info (pads ! 0), outs ! 0))"

subsection \<open>Circles\<close>

definition core_circleAnnounce :: "'s core_calls \<Rightarrow> bytes \<Rightarrow> bytes \<Rightarrow> ('s, bytes \<times> bytes) op" where
  "core_circleAnnounce K record1 circleId =
     pair K (js ''gv_circle_announce'') [byt record1, byt circleId, SOut, SOut]"

definition core_circleAdmit :: "'s core_calls \<Rightarrow> bytes \<Rightarrow> bytes \<Rightarrow> ('s, bytes) op" where
  "core_circleAdmit K record1 announce =
     first K (js ''gv_circle_admit'') [byt record1, byt announce, SOut]"

record announce_info =
  an_version :: int
  an_circleId :: bytes
  an_chainId :: int
  an_step :: int
  an_seed :: bytes
  an_signing :: bytes

definition read_announce :: "bytes \<Rightarrow> announce_info" where
  "read_announce v =
     \<lparr>an_version = getUint8 v 0, an_circleId = Pad_bytes v 1 16, an_chainId = getUint32 v 20,
      an_step = getUint32 v 24, an_seed = Pad_bytes v 28 32, an_signing = Pad_bytes v 60 33\<rparr>"

definition core_announceParse :: "'s core_calls \<Rightarrow> bytes \<Rightarrow> ('s, announce_info) op" where
  "core_announceParse K announce =
     finish K (js ''gv_announce_parse'') [byt announce, SPad 96] (\<lambda>outs pads. read_announce (pads ! 0))"

definition core_circleSeal :: "'s core_calls \<Rightarrow> bytes \<Rightarrow> bytes \<Rightarrow> bytes \<Rightarrow> ('s, bytes \<times> bytes) op" where
  "core_circleSeal K record1 circleId plain =
     pair K (js ''gv_circle_seal'') [byt record1, byt circleId, byt plain, SOut, SOut]"

definition core_circleOpen :: "'s core_calls \<Rightarrow> bytes \<Rightarrow> bytes \<Rightarrow> ('s, bytes \<times> bytes) op" where
  "core_circleOpen K record1 note1 =
     pair K (js ''gv_circle_open'') [byt record1, byt note1, SOut, SOut]"

record note_info =
  no_version :: int
  no_circleId :: bytes
  no_chainId :: int
  no_step :: int

definition read_note :: "bytes \<Rightarrow> note_info" where
  "read_note v =
     \<lparr>no_version = getUint8 v 0, no_circleId = Pad_bytes v 1 16, no_chainId = getUint32 v 20,
      no_step = getUint32 v 24\<rparr>"

definition core_noteParse :: "'s core_calls \<Rightarrow> bytes \<Rightarrow> ('s, note_info \<times> bytes) op" where
  "core_noteParse K note1 =
     finish K (js ''gv_note_parse'') [byt note1, SPad 28, SOut]
       (\<lambda>outs pads. (read_note (pads ! 0), outs ! 0))"

subsection \<open>Envelopes\<close>

definition core_serverCert :: "'s core_calls \<Rightarrow> int \<Rightarrow> bytes \<Rightarrow> bytes \<Rightarrow> ('s, bytes) op" where
  "core_serverCert K keyId key trustSecret =
     first K (js ''gv_server_cert'') [num keyId, byt key, byt trustSecret, SOut]"

record server_cert_parts =
  sc_keyId :: int
  sc_key :: bytes
  sc_body :: bytes
  sc_signature :: bytes

definition core_serverCertParse :: "'s core_calls \<Rightarrow> bytes \<Rightarrow> ('s, server_cert_parts) op" where
  "core_serverCertParse K cert =
     finish K (js ''gv_server_cert_parse'') [byt cert, SPad 40, SOut, SOut] (\<lambda>outs pads.
       \<lparr>sc_keyId = getUint32 (pads ! 0) 0, sc_key = Pad_bytes (pads ! 0) 4 33,
        sc_body = outs ! 0, sc_signature = outs ! 1\<rparr>)"

definition core_serverCertCheck :: "'s core_calls \<Rightarrow> bytes \<Rightarrow> bytes \<Rightarrow> ('s, bool) op" where
  "core_serverCertCheck K cert trustRoot =
     flag K (js ''gv_server_cert_check'') [byt cert, byt trustRoot]"

definition core_senderCert :: "'s core_calls \<Rightarrow> jsstring \<Rightarrow> jsstring option \<Rightarrow> int \<Rightarrow> bytes \<Rightarrow> int \<Rightarrow> bytes \<Rightarrow> bytes \<Rightarrow> ('s, bytes) op" where
  "core_senderCert K senderId phone device key expiresMs serverCert serverSecret =
     first K (js ''gv_sender_cert'') [str senderId, str (or_empty phone), num device, byt key, big expiresMs, byt serverCert, byt serverSecret, SOut]"

record sender_cert_parts =
  se_device :: int
  se_expiresMs :: int
  se_key :: bytes
  se_senderId :: bytes
  se_phone :: "bytes option"
  se_serverCert :: bytes
  se_body :: bytes
  se_signature :: bytes

definition core_senderCertParse :: "'s core_calls \<Rightarrow> bytes \<Rightarrow> ('s, sender_cert_parts) op" where
  "core_senderCertParse K cert =
     finish K (js ''gv_sender_cert_parse'') [byt cert, SPad 56, SOut, SOut, SOut, SOut, SOut] (\<lambda>outs pads.
       (let v = pads ! 0 in
       \<lparr>se_device = getUint32 v 0, se_expiresMs = getBigUint64 v 8, se_key = Pad_bytes v 16 33,
        se_senderId = outs ! 0, se_phone = (if getUint8 v 49 = 1 then Some (outs ! 1) else None),
        se_serverCert = outs ! 2, se_body = outs ! 3, se_signature = outs ! 4\<rparr>))"

definition core_senderCertCheck :: "'s core_calls \<Rightarrow> bytes \<Rightarrow> bytes \<Rightarrow> int \<Rightarrow> ('s, bool) op" where
  "core_senderCertCheck K cert trustRoot nowMs =
     flag K (js ''gv_sender_cert_check'') [byt cert, byt trustRoot, big nowMs]"

definition core_content :: "'s core_calls \<Rightarrow> int \<Rightarrow> bytes \<Rightarrow> bytes \<Rightarrow> int \<Rightarrow> bytes option \<Rightarrow> ('s, bytes) op" where
  "core_content K kind senderCert body hint circleId =
     first K (js ''gv_content'') [num kind, byt senderCert, byt body, num hint, byt (or_empty circleId), num (if circleId = None then 0 else 1), SOut]"

record content_parts =
  co_kind :: int
  co_hint :: int
  co_body :: bytes
  co_senderCert :: bytes
  co_circleId :: "bytes option"

definition core_contentParse :: "'s core_calls \<Rightarrow> bytes \<Rightarrow> ('s, content_parts) op" where
  "core_contentParse K content =
     finish K (js ''gv_content_parse'') [byt content, SPad 4, SOut, SOut, SOut] (\<lambda>outs pads.
       (let v = pads ! 0 in
       \<lparr>co_kind = getUint8 v 0, co_hint = getUint8 v 1, co_body = outs ! 0, co_senderCert = outs ! 1,
        co_circleId = (if getUint8 v 2 = 1 then Some (outs ! 2) else None)\<rparr>))"

definition core_envelopeSeal :: "'s core_calls \<Rightarrow> bytes \<Rightarrow> bytes \<Rightarrow> bytes \<Rightarrow> ('s, bytes) op" where
  "core_envelopeSeal K identitySecret recipientIdentity content =
     first K (js ''gv_envelope_seal'') [byt identitySecret, byt recipientIdentity, byt content, SOut]"

definition core_envelopeOpen :: "'s core_calls \<Rightarrow> bytes \<Rightarrow> bytes \<Rightarrow> ('s, bytes) op" where
  "core_envelopeOpen K identitySecret envelope =
     first K (js ''gv_envelope_open'') [byt identitySecret, byt envelope, SOut]"

definition core_envelopeSealMany :: "'s core_calls \<Rightarrow> bytes \<Rightarrow> bytes \<Rightarrow> bytes \<Rightarrow> bytes \<Rightarrow> ('s, bytes) op" where
  "core_envelopeSealMany K identitySecret recipients excluded content =
     first K (js ''gv_envelope_seal_many'') [byt identitySecret, byt recipients, byt excluded, byt content, SOut]"

definition core_envelopeForSingle :: "'s core_calls \<Rightarrow> bytes \<Rightarrow> ('s, bytes) op" where
  "core_envelopeForSingle K sent =
     first K (js ''gv_envelope_for_single'') [byt sent, SOut]"

definition core_envelopeForRecipient :: "'s core_calls \<Rightarrow> bytes \<Rightarrow> bytes \<Rightarrow> int \<Rightarrow> ('s, bytes) op" where
  "core_envelopeForRecipient K sent serviceId device =
     first K (js ''gv_envelope_for_recipient'') [byt sent, byt serviceId, num device, SOut]"

subsection \<open>Safety numbers\<close>

definition core_safety ::
    "'s core_calls \<Rightarrow> int \<Rightarrow> int \<Rightarrow> bytes \<Rightarrow> bytes \<Rightarrow> bytes \<Rightarrow> bytes \<Rightarrow> ('s, jsstring \<times> bytes) op" where
  "core_safety K version iterations localId localKey remoteId remoteKey =
     andThen (pair K (js ''gv_safety'') [num version, num iterations, byt localId, byt localKey,
                                         byt remoteId, byt remoteKey, SOut, SOut])
       (\<lambda>(display, scannable). ret (utf8_decode display, scannable))"

definition core_safetyMatches :: "'s core_calls \<Rightarrow> bytes \<Rightarrow> bytes \<Rightarrow> ('s, bool) op" where
  "core_safetyMatches K ours theirs =
     flag K (js ''gv_safety_matches'') [byt ours, byt theirs]"

subsection \<open>Handles\<close>

definition core_handleHash :: "'s core_calls \<Rightarrow> jsstring \<Rightarrow> ('s, bytes) op" where
  "core_handleHash K handle =
     first K (js ''gv_handle_hash'') [str handle, SOut]"

definition core_handleProof :: "'s core_calls \<Rightarrow> jsstring \<Rightarrow> bytes \<Rightarrow> ('s, bytes) op" where
  "core_handleProof K handle randomness =
     first K (js ''gv_handle_proof'') [str handle, byt randomness, SOut]"

definition core_handleVerify :: "'s core_calls \<Rightarrow> bytes \<Rightarrow> bytes \<Rightarrow> ('s, bool) op" where
  "core_handleVerify K proof1 hash =
     flag K (js ''gv_handle_verify'') [byt proof1, byt hash]"

definition split_lines :: "jsstring \<Rightarrow> jsstring list" where
  "split_lines text1 = (if length text1 = 0 then [] else split_on 10 text1)"

definition core_handleCandidates :: "'s core_calls \<Rightarrow> jsstring \<Rightarrow> int \<Rightarrow> int \<Rightarrow> ('s, jsstring list) op" where
  "core_handleCandidates K nickname minLen maxLen =
     andThen (first K (js ''gv_handle_candidates'') [str nickname, num minLen, num maxLen, SOut])
       (\<lambda>b. ret (split_lines (utf8_decode b)))"

definition core_handleFromParts :: "'s core_calls \<Rightarrow> jsstring \<Rightarrow> jsstring \<Rightarrow> int \<Rightarrow> int \<Rightarrow> ('s, jsstring \<times> bytes) op" where
  "core_handleFromParts K nickname discriminator minLen maxLen =
     andThen (pair K (js ''gv_handle_from_parts'') [str nickname, str discriminator, num minLen, num maxLen, SOut, SOut])
       (\<lambda>(handle, hash). ret (utf8_decode handle, hash))"

definition core_handleLink :: "'s core_calls \<Rightarrow> jsstring \<Rightarrow> bytes option \<Rightarrow> ('s, bytes \<times> bytes) op" where
  "core_handleLink K handle entropy =
     pair K (js ''gv_handle_link'') [str handle, byt (or_empty entropy), SOut, SOut]"

definition core_handleLinkOpen :: "'s core_calls \<Rightarrow> bytes \<Rightarrow> bytes \<Rightarrow> ('s, jsstring) op" where
  "core_handleLinkOpen K entropy sealed =
     andThen (first K (js ''gv_handle_link_open'') [byt entropy, byt sealed, SOut]) (\<lambda>b. ret (utf8_decode b))"

subsection \<open>The vault\<close>

definition core_poolRandom :: "'s core_calls \<Rightarrow> ('s, jsstring) op" where
  "core_poolRandom K =
     andThen (first K (js ''gv_pool_random'') [SOut]) (\<lambda>b. ret (utf8_decode b))"

definition core_poolValid :: "'s core_calls \<Rightarrow> jsstring \<Rightarrow> ('s, bool) op" where
  "core_poolValid K pool = run_poolValid K pool"

definition core_poolDerive :: "'s core_calls \<Rightarrow> jsstring \<Rightarrow> ('s, bytes \<times> bytes) op" where
  "core_poolDerive K pool =
     pair K (js ''gv_pool_derive'') [str pool, SOut, SOut]"

definition core_backupKeyRandom :: "'s core_calls \<Rightarrow> ('s, bytes) op" where
  "core_backupKeyRandom K =
     first K (js ''gv_backup_key_random'') [SOut]"

definition core_backupKeyForAccount :: "'s core_calls \<Rightarrow> bytes \<Rightarrow> jsstring \<Rightarrow> ('s, bytes \<times> bytes) op" where
  "core_backupKeyForAccount K key accountId =
     pair K (js ''gv_backup_key_for_account'') [byt key, str accountId, SOut, SOut]"

definition core_backupKeyLocalMetadata :: "'s core_calls \<Rightarrow> bytes \<Rightarrow> ('s, bytes) op" where
  "core_backupKeyLocalMetadata K key =
     first K (js ''gv_backup_key_local_metadata'') [byt key, SOut]"

definition core_backupKeyMedia :: "'s core_calls \<Rightarrow> bytes \<Rightarrow> jsstring \<Rightarrow> ('s, bytes \<times> bytes \<times> bytes) op" where
  "core_backupKeyMedia K key mediaName =
     triple K (js ''gv_backup_key_media'') [byt key, str mediaName, SOut, SOut, SOut]"

definition core_backupKeyMediaKeys :: "'s core_calls \<Rightarrow> bytes \<Rightarrow> bytes \<Rightarrow> ('s, bytes \<times> bytes) op" where
  "core_backupKeyMediaKeys K key mediaId =
     pair K (js ''gv_backup_key_media_keys'') [byt key, byt mediaId, SOut, SOut]"

definition core_circleMasterRandom :: "'s core_calls \<Rightarrow> ('s, bytes) op" where
  "core_circleMasterRandom K =
     first K (js ''gv_circle_master_random'') [SOut]"

definition core_circleSecretParams :: "'s core_calls \<Rightarrow> bytes \<Rightarrow> ('s, bytes) op" where
  "core_circleSecretParams K master =
     first K (js ''gv_circle_secret_params'') [byt master, SOut]"

definition core_circleParamsInfo :: "'s core_calls \<Rightarrow> bytes \<Rightarrow> ('s, bytes \<times> bytes \<times> bytes) op" where
  "core_circleParamsInfo K params =
     triple K (js ''gv_circle_params_info'') [byt params, SOut, SOut, SOut]"

subsection \<open>Streams, primitives, reports\<close>

definition core_hkdf :: "'s core_calls \<Rightarrow> bytes \<Rightarrow> bytes option \<Rightarrow> bytes \<Rightarrow> int \<Rightarrow> ('s, bytes) op" where
  "core_hkdf K material salt info length1 =
     first K (js ''gv_hkdf'') [byt material, byt (or_empty salt), num (if salt = None then 0 else 1), byt info, num length1, SOut]"

definition core_sivSeal :: "'s core_calls \<Rightarrow> bytes \<Rightarrow> bytes \<Rightarrow> bytes \<Rightarrow> bytes \<Rightarrow> ('s, bytes) op" where
  "core_sivSeal K key nonce plain aad =
     first K (js ''gv_siv_seal'') [byt key, byt nonce, byt plain, byt aad, SOut]"

definition core_sivOpen :: "'s core_calls \<Rightarrow> bytes \<Rightarrow> bytes \<Rightarrow> bytes \<Rightarrow> bytes \<Rightarrow> ('s, bytes) op" where
  "core_sivOpen K key nonce sealed aad =
     first K (js ''gv_siv_open'') [byt key, byt nonce, byt sealed, byt aad, SOut]"

definition core_random :: "'s core_calls \<Rightarrow> int \<Rightarrow> ('s, bytes) op" where
  "core_random K length1 =
     first K (js ''gv_random'') [num length1, SOut]"

definition core_chunkTags :: "'s core_calls \<Rightarrow> bytes \<Rightarrow> int \<Rightarrow> bytes \<Rightarrow> ('s, bytes) op" where
  "core_chunkTags K key chunk data =
     first K (js ''gv_chunk_tags'') [byt key, num chunk, byt data, SOut]"

definition core_chunkCheck :: "'s core_calls \<Rightarrow> bytes \<Rightarrow> int \<Rightarrow> bytes \<Rightarrow> bytes \<Rightarrow> ('s, unit) op" where
  "core_chunkCheck K key chunk data tags =
     status K (js ''gv_chunk_check'') [byt key, num chunk, byt data, byt tags]"

definition core_report :: "'s core_calls \<Rightarrow> bytes \<Rightarrow> int \<Rightarrow> int \<Rightarrow> int \<Rightarrow> ('s, bytes) op" where
  "core_report K original kind stampMs device =
     first K (js ''gv_report'') [byt original, num kind, big stampMs, num device, SOut]"

record report_parts =
  re_stampMs :: int
  re_device :: int
  re_ratchet :: "bytes option"

definition read_report :: "bytes \<Rightarrow> report_parts" where
  "read_report v =
     \<lparr>re_stampMs = getBigUint64 v 0, re_device = getUint32 v 8,
      re_ratchet = (if getUint8 v 12 = 1 then Some (Pad_bytes v 13 33) else None)\<rparr>"

definition core_reportParse :: "'s core_calls \<Rightarrow> bytes \<Rightarrow> ('s, report_parts) op" where
  "core_reportParse K report =
     finish K (js ''gv_report_parse'') [byt report, SPad 48] (\<lambda>outs pads. read_report (pads ! 0))"

definition core_reportInBody :: "'s core_calls \<Rightarrow> bytes \<Rightarrow> ('s, bytes) op" where
  "core_reportInBody K body =
     first K (js ''gv_report_in_body'') [byt body, SOut]"

definition core_plainFromReport :: "'s core_calls \<Rightarrow> bytes \<Rightarrow> ('s, bytes) op" where
  "core_plainFromReport K report =
     first K (js ''gv_plain_from_report'') [byt report, SOut]"

definition core_plainBody :: "'s core_calls \<Rightarrow> bytes \<Rightarrow> ('s, bytes) op" where
  "core_plainBody K plain =
     first K (js ''gv_plain_body'') [byt plain, SOut]"

end
