(* ===== verification/Structs.thy ===== *)
theory Structs
  imports Bridge
begin

text \<open>
  The structs of \<^verbatim>\<open>include/gossveil.h\<close> as the wasm32 C ABI lays them out (natural alignment,
  little endian, 4-byte pointers) against the offsets the bridge reads. For every struct the core
  fills, reading the pad gives back the struct's fields, so that no field is read from a wrong
  offset, at a wrong width or with a wrong sign.
\<close>

subsection \<open>The C layout\<close>

datatype field = U8 int | U32 int | U64 int | I64 int | Arr bytes

fun field_align :: "field \<Rightarrow> nat" where
  "field_align (U8 _) = 1"
| "field_align (U32 _) = 4"
| "field_align (U64 _) = 8"
| "field_align (I64 _) = 8"
| "field_align (Arr _) = 1"

fun field_bytes :: "field \<Rightarrow> bytes" where
  "field_bytes (U8 v) = le_bytes 1 (nat v)"
| "field_bytes (U32 v) = le_bytes 4 (nat v)"
| "field_bytes (U64 v) = le_bytes 8 (nat v)"
| "field_bytes (I64 v) = le_bytes 8 (to_twos 64 v)"
| "field_bytes (Arr bs) = bs"

definition padding :: "nat \<Rightarrow> nat \<Rightarrow> nat" where
  "padding at a = (a - at mod a) mod a"

fun c_fields :: "nat \<Rightarrow> field list \<Rightarrow> bytes" where
  "c_fields at [] = []"
| "c_fields at (f # fs) =
     replicate (padding at (field_align f)) 0 @ field_bytes f @
     c_fields (at + padding at (field_align f) + length (field_bytes f)) fs"

definition c_struct :: "field list \<Rightarrow> bytes" where
  "c_struct fs =
     (let bs = c_fields 0 fs; a = foldl max 1 (map field_align fs)
      in bs @ replicate (padding (length bs) a) 0)"

definition c_bool :: "bool \<Rightarrow> int" where
  "c_bool b = (if b then 1 else 0)"

definition c_id :: "int option \<Rightarrow> int" where
  "c_id i = (case i of None \<Rightarrow> - 1 | Some v \<Rightarrow> v)"

definition c_session_info :: "session_info \<Rightarrow> bytes" where
  "c_session_info i = c_struct
     [U8 (c_bool (hasLive i)), U8 (c_bool (canSend i)), U8 (c_bool (usable i)), U32 (si_version i),
      U32 (localRegistrationId i), U32 (remoteRegistrationId i), U32 (shelved i),
      Arr (localIdentity i), Arr (remoteIdentity i), Arr (si_base i)]"

definition c_consumed :: "consumed \<Rightarrow> bytes" where
  "c_consumed c = c_struct
     [U8 (c_bool (c_used c)), I64 (c_id (c_oneTimeId c)), U32 (c_signedId c), U32 (c_pqId c), Arr (c_base c)]"

definition c_opener_info :: "opener_info \<Rightarrow> bytes" where
  "c_opener_info i = c_struct
     [U8 (o_version i), U32 (o_registrationId i), I64 (c_id (o_oneTimeId i)), U32 (o_signedId i),
      I64 (c_id (o_pqId i)), Arr (o_base i), Arr (o_identity i)]"

definition c_whisper_info :: "whisper_info \<Rightarrow> bytes" where
  "c_whisper_info i = c_struct
     [U8 (w_version i), U32 (w_index i), U32 (w_previousIndex i), Arr (w_ratchet i)]"

definition c_announce_info :: "announce_info \<Rightarrow> bytes" where
  "c_announce_info i = c_struct
     [U8 (an_version i), Arr (an_circleId i), U32 (an_chainId i), U32 (an_step i), Arr (an_seed i),
      Arr (an_signing i)]"

definition c_note_info :: "note_info \<Rightarrow> bytes" where
  "c_note_info i = c_struct
     [U8 (no_version i), Arr (no_circleId i), U32 (no_chainId i), U32 (no_step i)]"

definition c_report :: "report_parts \<Rightarrow> bytes" where
  "c_report r = c_struct
     [U64 (re_stampMs r), U32 (re_device r), U8 (c_bool (re_ratchet r \<noteq> None)),
      Arr (case re_ratchet r of None \<Rightarrow> replicate 33 0 | Some k \<Rightarrow> k)]"

subsection \<open>Ranges\<close>

definition u8 :: "int \<Rightarrow> bool" where "u8 v \<longleftrightarrow> 0 \<le> v \<and> v < 2 ^ 8"
definition u32 :: "int \<Rightarrow> bool" where "u32 v \<longleftrightarrow> 0 \<le> v \<and> v < 2 ^ 32"
definition u64 :: "int \<Rightarrow> bool" where "u64 v \<longleftrightarrow> 0 \<le> v \<and> v < 2 ^ 64"
definition id63 :: "int option \<Rightarrow> bool" where
  "id63 i \<longleftrightarrow> (case i of None \<Rightarrow> True | Some v \<Rightarrow> 0 \<le> v \<and> v < 2 ^ 63)"

declare le_bytes.simps [simp del]

lemma nat_lt_pow: "0 \<le> v \<Longrightarrow> v < 2 ^ k \<Longrightarrow> nat v < 2 ^ k"
  by (metis nat_less_iff of_nat_numeral of_nat_power)

lemma read_u8: "u8 v \<Longrightarrow> int (from_le (le_bytes 1 (nat v))) = v"
  using nat_lt_pow [of v 8] by (simp add: u8_def from_le_le_bytes del: One_nat_def)

lemma read_u32: "u32 v \<Longrightarrow> int (from_le (le_bytes 4 (nat v))) = v"
  using nat_lt_pow [of v 32] by (simp add: u32_def from_le_le_bytes)

lemma read_u64: "u64 v \<Longrightarrow> int (from_le (le_bytes 8 (nat v))) = v"
  using nat_lt_pow [of v 64] by (simp add: u64_def from_le_le_bytes)

lemma read_i64: "id63 i \<Longrightarrow>
    (let v = from_twos 64 (from_le (le_bytes 8 (to_twos 64 (c_id i)))) in if v < 0 then None else Some v) = i"
  using to_twos_bound [of 64 "c_id i"]
  by (cases i) (simp_all add: id63_def c_id_def from_le_le_bytes from_to_twos_64 Let_def)

lemma read_bool: "from_le (le_bytes 1 (nat (c_bool b))) = 1 \<longleftrightarrow> b"
  by (simp add: c_bool_def from_le_le_bytes)

lemma slice_skip: "length pre \<le> at \<Longrightarrow> slice at n (pre @ rest) = slice (at - length pre) n rest"
  by (simp add: slice_def)

lemma slice_head: "length x = n \<Longrightarrow> slice 0 n (x @ rest) = x"
  by (simp add: slice_def)

lemma slice_whole: "length x = n \<Longrightarrow> slice 0 n x = x"
  by (simp add: slice_def)

lemmas layout = c_struct_def Let_def padding_def slice_skip slice_head slice_whole
  getUint8_def getUint32_def getBigUint64_def getBigInt64_def signedId_def Pad_bytes_def

subsection \<open>The readers\<close>

definition session_info_ok :: "session_info \<Rightarrow> bool" where
  "session_info_ok i \<longleftrightarrow> u32 (si_version i) \<and> u32 (localRegistrationId i) \<and> u32 (remoteRegistrationId i) \<and>
     u32 (shelved i) \<and> length (localIdentity i) = 33 \<and> length (remoteIdentity i) = 33 \<and> length (si_base i) = 33"

definition consumed_ok :: "consumed \<Rightarrow> bool" where
  "consumed_ok c \<longleftrightarrow> id63 (c_oneTimeId c) \<and> u32 (c_signedId c) \<and> u32 (c_pqId c) \<and> length (c_base c) = 33"

definition opener_info_ok :: "opener_info \<Rightarrow> bool" where
  "opener_info_ok i \<longleftrightarrow> u8 (o_version i) \<and> u32 (o_registrationId i) \<and> id63 (o_oneTimeId i) \<and>
     u32 (o_signedId i) \<and> id63 (o_pqId i) \<and> length (o_base i) = 33 \<and> length (o_identity i) = 33"

definition whisper_info_ok :: "whisper_info \<Rightarrow> bool" where
  "whisper_info_ok i \<longleftrightarrow> u8 (w_version i) \<and> u32 (w_index i) \<and> u32 (w_previousIndex i) \<and> length (w_ratchet i) = 33"

definition announce_info_ok :: "announce_info \<Rightarrow> bool" where
  "announce_info_ok i \<longleftrightarrow> u8 (an_version i) \<and> length (an_circleId i) = 16 \<and> u32 (an_chainId i) \<and>
     u32 (an_step i) \<and> length (an_seed i) = 32 \<and> length (an_signing i) = 33"

definition note_info_ok :: "note_info \<Rightarrow> bool" where
  "note_info_ok i \<longleftrightarrow> u8 (no_version i) \<and> length (no_circleId i) = 16 \<and> u32 (no_chainId i) \<and> u32 (no_step i)"

definition report_ok :: "report_parts \<Rightarrow> bool" where
  "report_ok r \<longleftrightarrow> u64 (re_stampMs r) \<and> u32 (re_device r) \<and>
     (case re_ratchet r of None \<Rightarrow> True | Some k \<Rightarrow> length k = 33)"

lemma read_consumed_layout:
  "consumed_ok c \<Longrightarrow> length (c_consumed c) = 64 \<and> read_consumed (c_consumed c) = c"
  unfolding consumed_ok_def
  using read_i64 [of "c_oneTimeId c"]
  by (simp add: c_consumed_def read_consumed_def layout read_u32 read_bool del: One_nat_def)

lemma read_whisper_info_layout:
  "whisper_info_ok i \<Longrightarrow> length (c_whisper_info i) = 48 \<and> read_whisper_info (c_whisper_info i) = i"
  unfolding whisper_info_ok_def
  by (simp add: c_whisper_info_def read_whisper_info_def layout read_u32 read_u8 del: One_nat_def)

lemma read_announce_layout:
  "announce_info_ok i \<Longrightarrow> length (c_announce_info i) = 96 \<and> read_announce (c_announce_info i) = i"
  unfolding announce_info_ok_def
  by (simp add: c_announce_info_def read_announce_def layout read_u32 read_u8 del: One_nat_def)

lemma read_note_layout:
  "note_info_ok i \<Longrightarrow> length (c_note_info i) = 28 \<and> read_note (c_note_info i) = i"
  unfolding note_info_ok_def
  by (simp add: c_note_info_def read_note_def layout read_u32 read_u8 del: One_nat_def)

lemma read_report_layout:
  "report_ok r \<Longrightarrow> length (c_report r) = 48 \<and> read_report (c_report r) = r"
  unfolding report_ok_def
  by (cases "re_ratchet r")
     (simp_all add: c_report_def read_report_def layout read_u32 read_u64 read_bool del: One_nat_def)

lemma read_session_info_layout:
  "session_info_ok i \<Longrightarrow> length (c_session_info i) = 120 \<and> read_session_info (c_session_info i) = i"
  unfolding session_info_ok_def
  by (simp add: c_session_info_def read_session_info_def layout read_u32 read_bool del: One_nat_def)

lemma read_opener_info_layout:
  "opener_info_ok i \<Longrightarrow> length (c_opener_info i) = 104 \<and> read_opener_info (c_opener_info i) = i"
  unfolding opener_info_ok_def
  using read_i64 [of "o_oneTimeId i"] read_i64 [of "o_pqId i"]
  by (simp add: c_opener_info_def read_opener_info_def layout read_u32 read_u8 del: One_nat_def)

text \<open>When the core fills the pad of \<^verbatim>\<open>gv_session_info\<close> with its struct, the call returns
  that struct's fields, and the pad has the struct's size.\<close>

theorem sessionInfo_decodes:
  assumes "session_info_ok i"
    and "run_call K (js ''gv_session_info'') [byt record1, big nowSecs, SPad (length (c_session_info i))] s =
      (Inr (outs, [c_session_info i]), s')"
  shows "core_sessionInfo K record1 nowSecs s = (Inr i, s')"
  using assms(2) read_session_info_layout [OF assms(1)]
  by (simp add: core_sessionInfo_def finish_def andThen_def)


text \<open>A core that answers every call with the same outputs and pads.\<close>

definition fixed_core :: "bytes list \<Rightarrow> bytes list \<Rightarrow> unit core_calls" where
  "fixed_core outs pads = \<lparr>run_call = (\<lambda>name steps. ret (outs, pads)), run_start = (\<lambda>sk i b p t. ret []),
     run_poolValid = (\<lambda>p. ret True), run_abiVersion = ret 1\<rparr>"

theorem sessionInfo_decodes_witness:
  "core_sessionInfo (fixed_core [] [c_session_info
     \<lparr>hasLive = True, canSend = False, usable = True, si_version = 4, localRegistrationId = 77,
      remoteRegistrationId = 4294967295, shelved = 2, localIdentity = replicate 33 5,
      remoteIdentity = replicate 33 6, si_base = replicate 33 7\<rparr>]) [1] 0 () =
     (Inr \<lparr>hasLive = True, canSend = False, usable = True, si_version = 4, localRegistrationId = 77,
      remoteRegistrationId = 4294967295, shelved = 2, localIdentity = replicate 33 5,
      remoteIdentity = replicate 33 6, si_base = replicate 33 7\<rparr>, ())"
  by (rule sessionInfo_decodes [where outs = "[]"]) (simp_all add: session_info_ok_def u32_def fixed_core_def)


end
