(* ===== verification/Bridge_Machine.thy ===== *)
theory Bridge_Machine
  imports Structs
begin

text \<open>
  The bridge on the wasm memory: \<^verbatim>\<open>sessionStart\<close>, which lays \<^verbatim>\<open>GvPublished\<close> out in a pad
  by hand because it carries pointers to its own inputs, \<^verbatim>\<open>poolValid\<close> and
  \<^verbatim>\<open>abiVersion\<close>, which call an export without a \<^verbatim>\<open>Call\<close>, and the record of
  the four ways the bridge reaches the core on a loaded instance.
\<close>

text \<open>\<^verbatim>\<open>v.setUint32(at, value, true)\<close> and \<^verbatim>\<open>v.setBigInt64\<close> on the view of a pad.\<close>

definition setUint32 :: "pad_obj \<Rightarrow> nat \<Rightarrow> int \<Rightarrow> ('w machine, unit) op" where
  "setUint32 p at v =
     (if at + 4 \<le> pad_len p then write_view (pad_ptr p + at) (le_bytes 4 (nat (to_uint32 v))) else throw RangeError)"

definition setBigInt64 :: "pad_obj \<Rightarrow> nat \<Rightarrow> int \<Rightarrow> ('w machine, unit) op" where
  "setBigInt64 p at v =
     (if at + 8 \<le> pad_len p then write_view (pad_ptr p + at) (le_bytes 8 (to_twos 64 v)) else throw RangeError)"

definition slots_at :: "nat list" where
  "slots_at = [16, 28, 36, 44, 56, 64]"

text \<open>The writes of the struct, in the order of the source; \<open>ins\<close> are the eight inputs.\<close>

definition write_published :: "pad_obj \<Rightarrow> published \<Rightarrow> in_obj list \<Rightarrow> ('w machine, unit) op" where
  "write_published v p ins =
     andThen (setUint32 v 0 (p_registrationId p)) (\<lambda>_.
     andThen (setUint32 v 4 (p_device p)) (\<lambda>_.
     andThen (setBigInt64 v 8 (case p_oneTimeId p of None \<Rightarrow> - 1 | Some i \<Rightarrow> i)) (\<lambda>_.
     andThen (each (\<lambda>(at, i). andThen (setUint32 v at (int (in_ptr i))) (\<lambda>_.
                                 setUint32 v (at + 4) (int (in_len i)))) (zip slots_at (drop 2 ins))) (\<lambda>_.
     andThen (setUint32 v 24 (p_signedId p)) (\<lambda>_.
     setUint32 v 52 (p_pqId p))))))"

definition sessionStart :: "'w wasm \<Rightarrow> bytes \<Rightarrow> int \<Rightarrow> bytes \<Rightarrow> published \<Rightarrow> int \<Rightarrow> ('w machine, bytes) op" where
  "sessionStart W identitySecret registrationId record1 p nowSecs =
     andThen (each (\<lambda>b. In_new W (Bytes b))
       [identitySecret, record1, or_empty (p_oneTime p), p_signedKey p, p_signedSignature p,
        p_identity p, p_pqKey p, p_pqSignature p]) (\<lambda>ins.
     andThen (Pad_new W 72) (\<lambda>published.
     andThen (Out_new W) (\<lambda>out.
     finallyDo
       (andThen (write_published published p ins) (\<lambda>_.
        andThen (invoke W (js ''gv_session_start'')
          [Num (int (in_ptr (ins ! 0))), Num (int (in_len (ins ! 0))), Num registrationId,
           Num (int (in_ptr (ins ! 1))), Num (int (in_len (ins ! 1))), Num (int (pad_ptr published)),
           Big nowSecs, Num (int (cell out))]) (\<lambda>status.
        andThen (Out_take W out) (\<lambda>result.
        andThen (check_status W status) (\<lambda>_.
        ret result)))))
       (andThen (each (In_free W) ins) (\<lambda>_. Pad_free W published)))))"

definition poolValid :: "'w wasm \<Rightarrow> jsstring \<Rightarrow> ('w machine, bool) op" where
  "poolValid W pool =
     andThen (In_new W (Str pool)) (\<lambda>input.
     finallyDo
       (andThen (invoke W (js ''gv_pool_valid'') [Num (int (in_ptr input)), Num (int (in_len input))])
         (\<lambda>v. ret (v = 1)))
       (In_free W input))"

definition machine_calls :: "'w wasm \<Rightarrow> 'w machine core_calls" where
  "machine_calls W = \<lparr>run_call = Call_run W, run_start = sessionStart W, run_poolValid = poolValid W,
     run_abiVersion = invoke W (js ''gv_abi_version'') []\<rparr>"

subsection \<open>The struct in the pad\<close>

text \<open>The struct the header declares, with the pointers and lengths of the inputs.\<close>

definition c_published :: "published \<Rightarrow> (nat \<times> nat) list \<Rightarrow> bytes" where
  "c_published p ptrs = c_struct
     [U32 (p_registrationId p), U32 (p_device p), I64 (c_id (p_oneTimeId p)),
      U32 (int (fst (ptrs ! 0))), U32 (int (snd (ptrs ! 0))), U32 (p_signedId p),
      U32 (int (fst (ptrs ! 1))), U32 (int (snd (ptrs ! 1))),
      U32 (int (fst (ptrs ! 2))), U32 (int (snd (ptrs ! 2))),
      U32 (int (fst (ptrs ! 3))), U32 (int (snd (ptrs ! 3))), U32 (p_pqId p),
      U32 (int (fst (ptrs ! 4))), U32 (int (snd (ptrs ! 4))),
      U32 (int (fst (ptrs ! 5))), U32 (int (snd (ptrs ! 5)))]"

lemma block_poke_inside:
  assumes "at + length bs \<le> n"
  shows "block (poke (p + at) bs m) p n = splice at bs (block m p n)"
proof (rule nth_equalityI)
  show "length (block (poke (p + at) bs m) p n) = length (splice at bs (block m p n))"
    using assms by simp
next
  fix i
  assume "i < length (block (poke (p + at) bs m) p n)"
  then have i: "i < n" by simp
  consider "i < at" | "at \<le> i" "i < at + length bs" | "at + length bs \<le> i" by linarith
  then show "block (poke (p + at) bs m) p n ! i = splice at bs (block m p n) ! i"
  proof cases
    case 1
    with i show ?thesis using assms by (simp add: block_def poke_def splice_def nth_append)
  next
    case 2
    then have "i - at < length bs" by simp
    with 2 i show ?thesis using assms by (simp add: block_def poke_def splice_def nth_append)
  next
    case 3
    then have "\<not> i - at < length bs" by simp
    with 3 i show ?thesis using assms by (simp add: block_def poke_def splice_def nth_append)
  qed
qed

text \<open>One write into the pad at \<open>q\<close> of \<open>n\<close> bytes whose contents are \<open>b\<close>.\<close>

definition pad_holds :: "nat \<Rightarrow> nat \<Rightarrow> nat \<Rightarrow> bytes \<Rightarrow> 'w machine \<Rightarrow> bool" where
  "pad_holds lim q n b m \<longleftrightarrow> block m q n = b \<and> memory_size m = lim \<and> q + n \<le> lim"

text \<open>An operation that turns the contents \<open>b\<close> of the pad into \<open>f b\<close>.\<close>

definition writes :: "pad_obj \<Rightarrow> (bytes \<Rightarrow> bytes) \<Rightarrow> ('w machine, 'a) op \<Rightarrow> bool" where
  "writes v f w \<longleftrightarrow> (\<forall>lim b m. pad_holds lim (pad_ptr v) (pad_len v) b m \<longrightarrow>
     (\<exists>x m'. w m = (Inr x, m') \<and> pad_holds lim (pad_ptr v) (pad_len v) (f b) m'))"

lemma setUint32_writes:
  "at + 4 \<le> pad_len v \<Longrightarrow> writes v (splice at (le_bytes 4 (nat (to_uint32 x)))) (setUint32 v at x)"
  using block_poke_inside [of at "le_bytes 4 (nat (to_uint32 x))" "pad_len v" "pad_ptr v"]
  by (auto simp: writes_def setUint32_def write_view_def pad_holds_def)

lemma setBigInt64_writes:
  "at + 8 \<le> pad_len v \<Longrightarrow> writes v (splice at (le_bytes 8 (to_twos 64 x))) (setBigInt64 v at x)"
  using block_poke_inside [of at "le_bytes 8 (to_twos 64 x)" "pad_len v" "pad_ptr v"]
  by (auto simp: writes_def setBigInt64_def write_view_def pad_holds_def)

lemma writes_ret: "writes v (\<lambda>b. b) (ret x)"
  by (simp add: writes_def)

lemma writes_then: "writes v f w \<Longrightarrow> (\<And>x. writes v g (k x)) \<Longrightarrow> writes v (\<lambda>b. g (f b)) (andThen w k)"
  unfolding writes_def andThen_def by (fastforce split: prod.splits sum.splits)

lemma writes_seq: "writes v f w \<Longrightarrow> writes v g w' \<Longrightarrow> writes v (\<lambda>b. g (f b)) (andThen w (\<lambda>_. w'))"
  by (rule writes_then)

definition put_slot :: "bytes \<Rightarrow> nat \<times> in_obj \<Rightarrow> bytes" where
  "put_slot b x = (case x of (at, i) \<Rightarrow>
     splice (at + 4) (le_bytes 4 (nat (to_uint32 (int (in_len i)))))
       (splice at (le_bytes 4 (nat (to_uint32 (int (in_ptr i))))) b))"

lemma slot_writes:
  assumes "at + 8 \<le> pad_len v"
  shows "writes v (\<lambda>b. put_slot b (at, i))
    (andThen (setUint32 v at (int (in_ptr i))) (\<lambda>_. setUint32 v (at + 4) (int (in_len i))))"
  unfolding put_slot_def prod.case
  by (rule writes_seq [OF setUint32_writes setUint32_writes]) (use assms in auto)

lemma slots_writes:
  "\<forall>(at, i)\<in>set xs. at + 8 \<le> pad_len v \<Longrightarrow> writes v (\<lambda>b. foldl put_slot b xs)
    (each (\<lambda>(at, i). andThen (setUint32 v at (int (in_ptr i))) (\<lambda>_. setUint32 v (at + 4) (int (in_len i)))) xs)"
proof (induction xs)
  case Nil
  then show ?case by (simp add: writes_def)
next
  case (Cons x xs)
  obtain at i where x: "x = (at, i)" by (cases x)
  have "at + 8 \<le> pad_len v" "\<forall>(at, i)\<in>set xs. at + 8 \<le> pad_len v" using Cons.prems x by auto
  from writes_seq [OF slot_writes [OF this(1)] writes_then [OF Cons.IH [OF this(2)] writes_ret]]
  show ?case by (simp add: x)
qed

lemma write_published_writes:
  assumes "pad_len v = 72" "length ins = 8"
  shows "writes v (\<lambda>b. splice 52 (le_bytes 4 (nat (to_uint32 (p_pqId p))))
      (splice 24 (le_bytes 4 (nat (to_uint32 (p_signedId p))))
      (foldl put_slot
      (splice 8 (le_bytes 8 (to_twos 64 (c_id (p_oneTimeId p))))
      (splice 4 (le_bytes 4 (nat (to_uint32 (p_device p))))
      (splice 0 (le_bytes 4 (nat (to_uint32 (p_registrationId p)))) b))) (zip slots_at (drop 2 ins)))))
     (write_published v p ins)"
proof -
  have id: "(case p_oneTimeId p of None \<Rightarrow> - 1 | Some i \<Rightarrow> i) = c_id (p_oneTimeId p)"
    by (simp add: c_id_def)
  have "\<forall>(at, i)\<in>set (zip slots_at (drop 2 ins)). at + 8 \<le> pad_len v"
    using assms by (auto simp: slots_at_def dest!: set_zip_leftD)
  note e = slots_writes [OF this]
  show ?thesis
    unfolding write_published_def id
    using writes_seq [OF setUint32_writes [of 0 v "p_registrationId p"]
          writes_seq [OF setUint32_writes [of 4 v "p_device p"]
          writes_seq [OF setBigInt64_writes [of 8 v "c_id (p_oneTimeId p)"]
          writes_seq [OF e
          writes_seq [OF setUint32_writes [of 24 v "p_signedId p"]
          setUint32_writes [of 52 v "p_pqId p"]]]]]] assms(1) by simp
qed

definition published_ok :: "published \<Rightarrow> bool" where
  "published_ok p \<longleftrightarrow> u32 (p_registrationId p) \<and> u32 (p_device p) \<and> u32 (p_signedId p) \<and> u32 (p_pqId p)"

lemma u32_id: "u32 v \<Longrightarrow> to_uint32 v = v"
  by (simp add: u32_def to_uint32_id)

text \<open>The pad as its fields: a splice at the start of a field of its length replaces the field.\<close>

lemma splice_field:
  "length pre = at \<Longrightarrow> length new = length old \<Longrightarrow> splice at new (pre @ old @ post) = pre @ new @ post"
  by (simp add: splice_def)

lemma splice_concat:
  assumes "k < length cs" "at = length (concat (take k cs))" "length new = length (cs ! k)"
  shows "splice at new (concat cs) = concat (cs[k := new])"
proof -
  have cs: "cs = take k cs @ cs ! k # drop (Suc k) cs" using assms(1) by (rule id_take_nth_drop)
  have "concat cs = concat (take k cs) @ cs ! k @ concat (drop (Suc k) cs)"
    by (subst cs) simp
  moreover have "concat (cs[k := new]) = concat (take k cs) @ new @ concat (drop (Suc k) cs)"
    using assms(1) by (simp add: upd_conv_take_nth_drop)
  ultimately show ?thesis using splice_field assms(2,3) by metis
qed

definition chunk_of :: "nat \<Rightarrow> nat" where
  "chunk_of at = (if at < 12 then at div 4 else at div 4 - 1)"

definition widths :: "nat list" where
  "widths = [4, 4, 8, 4, 4, 4, 4, 4, 4, 4, 4, 4, 4, 4, 4, 4, 4]"

lemma splice_published:
  assumes "map length cs = widths" "chunk_of at < 17" "sum_list (take (chunk_of at) widths) = at"
    "length new = widths ! chunk_of at"
  shows "splice at new (concat cs) = concat (cs[chunk_of at := new])" "map length (cs[chunk_of at := new]) = widths"
proof -
  have len: "length cs = 17" using arg_cong [OF assms(1), of length] by (simp add: widths_def)
  have nth: "length (cs ! chunk_of at) = widths ! chunk_of at"
    using assms(2) len by (simp flip: assms(1))
  show "splice at new (concat cs) = concat (cs[chunk_of at := new])"
    using assms nth len by (intro splice_concat) (simp_all add: length_concat flip: take_map)
  show "map length (cs[chunk_of at := new]) = widths"
    using assms(1,4) by (simp add: map_update)
qed

definition field_ok :: "nat \<times> bytes \<Rightarrow> bool" where
  "field_ok x = (case x of (at, new) \<Rightarrow> chunk_of at < 17 \<and> sum_list (take (chunk_of at) widths) = at \<and>
     length new = widths ! chunk_of at)"

lemma splices_published:
  "map length cs = widths \<Longrightarrow> list_all field_ok ws \<Longrightarrow>
    foldl (\<lambda>b (at, new). splice at new b) (concat cs) ws = concat (foldl (\<lambda>cs (at, new). cs[chunk_of at := new]) cs ws)"
proof (induction ws arbitrary: cs)
  case (Cons w ws)
  obtain at new where w: "w = (at, new)" by (cases w)
  with Cons.prems have ok: "chunk_of at < 17" "sum_list (take (chunk_of at) widths) = at"
    "length new = widths ! chunk_of at" by (simp_all add: field_ok_def)
  show ?case
    using Cons.IH [OF splice_published(2) [OF Cons.prems(1) ok]] Cons.prems(2)
    by (simp add: w splice_published(1) [OF Cons.prems(1) ok])
qed simp

definition published_fields :: "published \<Rightarrow> in_obj list \<Rightarrow> (nat \<times> bytes) list" where
  "published_fields p ins =
     [(0, le_bytes 4 (nat (to_uint32 (p_registrationId p)))), (4, le_bytes 4 (nat (to_uint32 (p_device p)))),
      (8, le_bytes 8 (to_twos 64 (c_id (p_oneTimeId p))))] @
     concat (map (\<lambda>(at, i). [(at, le_bytes 4 (nat (to_uint32 (int (in_ptr i))))),
                             (at + 4, le_bytes 4 (nat (to_uint32 (int (in_len i)))))]) (zip slots_at (drop 2 ins))) @
     [(24, le_bytes 4 (nat (to_uint32 (p_signedId p)))), (52, le_bytes 4 (nat (to_uint32 (p_pqId p))))]"

lemma foldl_put_slot:
  "foldl put_slot b xs = foldl (\<lambda>b (at, new). splice at new b) b
     (concat (map (\<lambda>(at, i). [(at, le_bytes 4 (nat (to_uint32 (int (in_ptr i))))),
                             (at + 4, le_bytes 4 (nat (to_uint32 (int (in_len i)))))]) xs))"
  by (induction xs arbitrary: b) (auto simp: put_slot_def)

lemma published_fields_ok: "length ins = 8 \<Longrightarrow> list_all field_ok (published_fields p ins)"
  by (auto simp: published_fields_def list_all_iff field_ok_def slots_at_def chunk_of_def widths_def
      dest!: set_zip_leftD)

lemma published_image:
  assumes p: "published_ok p" and i: "ins = [i0, i1, i2, i3, i4, i5, i6, i7]"
    "\<forall>i\<in>set ins. in_ptr i < 2 ^ 32 \<and> in_len i < 2 ^ 32"
  shows "splice 52 (le_bytes 4 (nat (to_uint32 (p_pqId p))))
      (splice 24 (le_bytes 4 (nat (to_uint32 (p_signedId p))))
      (foldl put_slot
      (splice 8 (le_bytes 8 (to_twos 64 (c_id (p_oneTimeId p))))
      (splice 4 (le_bytes 4 (nat (to_uint32 (p_device p))))
      (splice 0 (le_bytes 4 (nat (to_uint32 (p_registrationId p)))) (replicate 72 0))))
      (zip slots_at (drop 2 ins)))) = c_published p (map (\<lambda>i. (in_ptr i, in_len i)) (drop 2 ins))"
proof -
  define z where "z = map (\<lambda>n. replicate n (0::byte)) widths"
  have z: "concat z = replicate 72 0" "map length z = widths"
    by (simp_all add: z_def widths_def o_def flip: replicate_add)
  have "foldl (\<lambda>b (at, new). splice at new b) (concat z) (published_fields p ins) =
      concat (foldl (\<lambda>cs (at, new). cs[chunk_of at := new]) z (published_fields p ins))"
    by (rule splices_published [OF z(2) published_fields_ok]) (simp add: i)
  also have "\<dots> = c_published p (map (\<lambda>i. (in_ptr i, in_len i)) (drop 2 ins))"
    using p i by (simp add: published_fields_def slots_at_def chunk_of_def z_def widths_def
        published_ok_def u32_id to_uint32_id c_published_def c_struct_def padding_def)
  finally show ?thesis by (simp add: published_fields_def z foldl_put_slot)
qed

text \<open>C6: the bytes \<^verbatim>\<open>sessionStart\<close> writes into its zeroed pad of 72 bytes are the struct
  \<^verbatim>\<open>GvPublished\<close> of the header, every scalar and every pointer and length at the offset the
  C layout gives it, and an absent one-time id as -1.\<close>

theorem sessionStart_struct:
  assumes p: "published_ok p" and v: "pad_len v = 72" "pad_ptr v + 72 \<le> memory_size m"
    and zero: "block m (pad_ptr v) 72 = replicate 72 0"
    and ins: "length ins = 8" "\<forall>i\<in>set ins. in_ptr i < 2 ^ 32 \<and> in_len i < 2 ^ 32"
  shows "\<exists>m'. write_published v p ins m = (Inr (), m') \<and>
    block m' (pad_ptr v) 72 = c_published p (map (\<lambda>i. (in_ptr i, in_len i)) (drop 2 ins))"
proof -
  from ins(1) obtain i0 i1 i2 i3 i4 i5 i6 i7 where i: "ins = [i0, i1, i2, i3, i4, i5, i6, i7]"
    by (auto simp: length_Suc_conv numeral_eq_Suc)
  have "pad_holds (memory_size m) (pad_ptr v) (pad_len v) (replicate 72 0) m"
    using v zero by (simp add: pad_holds_def)
  with write_published_writes [OF v(1) ins(1), of p] published_image [OF p i ins(2)] v(1)
  show ?thesis unfolding writes_def by (fastforce simp: pad_holds_def)
qed

lemma block_const: "block \<lparr>buffer = (\<lambda>a. x), memory_size = s, inner = w\<rparr> p n = replicate n x"
  by (simp add: block_def map_replicate_const)

theorem sessionStart_struct_witness:
  "\<exists>m'. write_published \<lparr>pad_ptr = 16, pad_len = 72\<rparr>
      \<lparr>p_registrationId = 5, p_device = 1, p_oneTimeId = None, p_oneTime = None, p_signedId = 7,
       p_signedKey = [1], p_signedSignature = [2], p_identity = [3], p_pqId = 9, p_pqKey = [4],
       p_pqSignature = [5]\<rparr>
      (replicate 8 \<lparr>in_ptr = 8, in_len = 1\<rparr>)
      \<lparr>buffer = (\<lambda>a. 0), memory_size = 128, inner = ()\<rparr> = (Inr (), m') \<and>
    slice 8 8 (block m' 16 72) = le_bytes 8 (2 ^ 64 - 1)"
proof -
  define p where "p = \<lparr>p_registrationId = 5, p_device = 1, p_oneTimeId = None, p_oneTime = None, p_signedId = 7,
       p_signedKey = [1], p_signedSignature = [2], p_identity = [3], p_pqId = 9, p_pqKey = [4],
       p_pqSignature = [5]\<rparr>"
  define v where "v = \<lparr>pad_ptr = 16, pad_len = 72\<rparr>"
  define ins where "ins = replicate 8 \<lparr>in_ptr = 8, in_len = 1\<rparr>"
  define m where "m = \<lparr>buffer = (\<lambda>a. 0 :: byte), memory_size = 128, inner = ()\<rparr>"
  have "published_ok p" "pad_len v = 72" "pad_ptr v + 72 \<le> memory_size m"
    "block m (pad_ptr v) 72 = replicate 72 0" "length ins = 8"
    "\<forall>i\<in>set ins. in_ptr i < 2 ^ 32 \<and> in_len i < 2 ^ 32"
    by (simp_all add: p_def v_def m_def ins_def published_ok_def u32_def block_const)
  note t = sessionStart_struct [OF this]
  have "slice 8 8 (c_published p (map (\<lambda>i. (in_ptr i, in_len i)) (drop 2 ins))) = le_bytes 8 (2 ^ 64 - 1)"
    by (simp add: c_published_def layout p_def c_id_def to_twos_def)
  with t show ?thesis unfolding p_def [symmetric] v_def [symmetric] ins_def [symmetric] m_def [symmetric]
    by (auto simp: v_def)
qed

end
