(* ===== verification/Keys.thy ===== *)
theory Keys
  imports Bridge
begin

text \<open>
  The key classes of \<^verbatim>\<open>sdk/ts/src/api.ts\<close>: \<^verbatim>\<open>PublicKey\<close>, \<^verbatim>\<open>PrivateKey\<close>,
  \<^verbatim>\<open>IdentityKeyPair\<close>, \<^verbatim>\<open>KEMPublicKey\<close>, \<^verbatim>\<open>KEMSecretKey\<close> and
  \<^verbatim>\<open>KEMKeyPair\<close>. Every object holds plain bytes that nothing changes after construction,
  so a copy of an array is the array. The constructors are the source's private constructors, which
  \<^verbatim>\<open>unchecked\<close> exposes. \<^verbatim>\<open>compare\<close> is a total order on keys.
\<close>

subsection \<open>PublicKey\<close>

datatype public_key = PublicKey (pk_bytes: bytes)

definition PublicKey_deserialize :: "'s core_calls \<Rightarrow> bytes \<Rightarrow> ('s, public_key) op" where
  "PublicKey_deserialize K data = andThen (core_curveCheck K data) (\<lambda>_. ret (PublicKey data))"

definition PublicKey_unchecked :: "bytes \<Rightarrow> public_key" where
  "PublicKey_unchecked b = PublicKey b"

definition PublicKey_serialize :: "public_key \<Rightarrow> bytes" where
  "PublicKey_serialize k = pk_bytes k"

definition PublicKey_getPublicKeyBytes :: "public_key \<Rightarrow> bytes" where
  "PublicKey_getPublicKeyBytes k = drop 1 (pk_bytes k)"

definition PublicKey_verify :: "'s core_calls \<Rightarrow> public_key \<Rightarrow> bytes \<Rightarrow> bytes \<Rightarrow> ('s, bool) op" where
  "PublicKey_verify K k message signature = core_curveVerify K (pk_bytes k) message signature"

definition PublicKey_verifyAlternateIdentity ::
    "'s core_calls \<Rightarrow> public_key \<Rightarrow> public_key \<Rightarrow> bytes \<Rightarrow> ('s, bool) op" where
  "PublicKey_verifyAlternateIdentity K k other signature =
     core_identityVouched K (pk_bytes k) (pk_bytes other) signature"

definition PublicKey_equals :: "public_key \<Rightarrow> public_key \<Rightarrow> bool" where
  "PublicKey_equals k other = bytesEqual (pk_bytes k) (pk_bytes other)"

text \<open>The loop of \<^verbatim>\<open>compare\<close> over the common length: the sign at the first difference.\<close>

fun first_difference :: "bytes \<Rightarrow> bytes \<Rightarrow> int option" where
  "first_difference (a # as) (b # bs) =
     (if a \<noteq> b then Some (if a < b then - 1 else 1) else first_difference as bs)"
| "first_difference _ _ = None"

definition compare_bytes :: "bytes \<Rightarrow> bytes \<Rightarrow> int" where
  "compare_bytes a b =
     (case first_difference a b of Some s \<Rightarrow> s | None \<Rightarrow> int (length a) - int (length b))"

definition PublicKey_compare :: "public_key \<Rightarrow> public_key \<Rightarrow> int" where
  "PublicKey_compare k other = compare_bytes (pk_bytes k) (pk_bytes other)"

subsection \<open>PrivateKey\<close>

datatype private_key = PrivateKey (sk_bytes: bytes)

definition PrivateKey_generate :: "'s core_calls \<Rightarrow> ('s, private_key) op" where
  "PrivateKey_generate K = andThen (core_curvePair K) (\<lambda>(secret, publicKey). ret (PrivateKey secret))"

definition PrivateKey_deserialize :: "bytes \<Rightarrow> js_error + private_key" where
  "PrivateKey_deserialize data =
     (if length data \<noteq> 32 then Inl (fault InvalidKey (js ''a private key is 32 bytes''))
      else Inr (PrivateKey data))"

definition PrivateKey_unchecked :: "bytes \<Rightarrow> private_key" where
  "PrivateKey_unchecked b = PrivateKey b"

definition PrivateKey_serialize :: "private_key \<Rightarrow> bytes" where
  "PrivateKey_serialize k = sk_bytes k"

definition PrivateKey_getPublicKey :: "'s core_calls \<Rightarrow> private_key \<Rightarrow> ('s, public_key) op" where
  "PrivateKey_getPublicKey K k = andThen (core_curvePublic K (sk_bytes k)) (\<lambda>b. ret (PublicKey_unchecked b))"

definition PrivateKey_sign :: "'s core_calls \<Rightarrow> private_key \<Rightarrow> bytes \<Rightarrow> ('s, bytes) op" where
  "PrivateKey_sign K k message = core_curveSign K (sk_bytes k) message"

definition PrivateKey_agree :: "'s core_calls \<Rightarrow> private_key \<Rightarrow> public_key \<Rightarrow> ('s, bytes) op" where
  "PrivateKey_agree K k other = core_curveAgree K (sk_bytes k) (pk_bytes other)"

subsection \<open>IdentityKeyPair\<close>

datatype identity_key_pair = IdentityKeyPair (ik_publicKey: public_key) (ik_privateKey: private_key)

definition IdentityKeyPair_generate :: "'s core_calls \<Rightarrow> ('s, identity_key_pair) op" where
  "IdentityKeyPair_generate K =
     andThen (PrivateKey_generate K) (\<lambda>secret.
     andThen (PrivateKey_getPublicKey K secret) (\<lambda>publicKey.
     ret (IdentityKeyPair publicKey secret)))"

definition IdentityKeyPair_deserialize :: "'s core_calls \<Rightarrow> bytes \<Rightarrow> ('s, identity_key_pair) op" where
  "IdentityKeyPair_deserialize K data =
     andThen (core_identityParse K data) (\<lambda>(publicKey, secret).
     ret (IdentityKeyPair (PublicKey_unchecked publicKey) (PrivateKey_unchecked secret)))"

definition IdentityKeyPair_serialize :: "'s core_calls \<Rightarrow> identity_key_pair \<Rightarrow> ('s, bytes) op" where
  "IdentityKeyPair_serialize K p = core_identitySerialize K (sk_bytes (ik_privateKey p))"

definition IdentityKeyPair_signAlternateIdentity ::
    "'s core_calls \<Rightarrow> identity_key_pair \<Rightarrow> public_key \<Rightarrow> ('s, bytes) op" where
  "IdentityKeyPair_signAlternateIdentity K p other =
     core_identityVouch K (sk_bytes (ik_privateKey p)) (pk_bytes other)"

subsection \<open>The key encapsulation keys\<close>

definition PQ_PUBLIC_LENGTH :: nat where "PQ_PUBLIC_LENGTH = 1569"
definition PQ_SECRET_LENGTH :: nat where "PQ_SECRET_LENGTH = 3169"

definition pqTagged :: "bytes \<Rightarrow> nat \<Rightarrow> bool" where
  "pqTagged data len \<longleftrightarrow>
     length data = len \<and> (uint (data ! 0) = PQ_ROUND_THREE \<or> uint (data ! 0) = 0x0a)"

datatype kem_public_key = KEMPublicKey (kp_bytes: bytes)
datatype kem_secret_key = KEMSecretKey (ks_bytes: bytes)
datatype kem_key_pair = KEMKeyPair (kem_publicKey: kem_public_key) (kem_secretKey: kem_secret_key)

definition KEMPublicKey_deserialize :: "bytes \<Rightarrow> js_error + kem_public_key" where
  "KEMPublicKey_deserialize data =
     (if \<not> pqTagged data PQ_PUBLIC_LENGTH
      then Inl (fault InvalidKey (js ''unrecognized key encapsulation key'')) else Inr (KEMPublicKey data))"

definition KEMPublicKey_serialize :: "kem_public_key \<Rightarrow> bytes" where
  "KEMPublicKey_serialize k = kp_bytes k"

text \<open>The shared secret and the ciphertext.\<close>

definition KEMPublicKey_encapsulate :: "'s core_calls \<Rightarrow> kem_public_key \<Rightarrow> ('s, bytes \<times> bytes) op" where
  "KEMPublicKey_encapsulate K k =
     andThen (core_pqEncapsulate K (kp_bytes k)) (\<lambda>(capsule, shared). ret (shared, capsule))"

definition KEMSecretKey_deserialize :: "bytes \<Rightarrow> js_error + kem_secret_key" where
  "KEMSecretKey_deserialize data =
     (if \<not> pqTagged data PQ_SECRET_LENGTH
      then Inl (fault InvalidKey (js ''unrecognized key encapsulation secret'')) else Inr (KEMSecretKey data))"

definition KEMSecretKey_serialize :: "kem_secret_key \<Rightarrow> bytes" where
  "KEMSecretKey_serialize k = ks_bytes k"

definition KEMSecretKey_decapsulate :: "'s core_calls \<Rightarrow> kem_secret_key \<Rightarrow> bytes \<Rightarrow> ('s, bytes) op" where
  "KEMSecretKey_decapsulate K k ciphertext = core_pqOpen K (ks_bytes k) ciphertext"

definition KEMKeyPair_generate :: "'s core_calls \<Rightarrow> ('s, kem_key_pair) op" where
  "KEMKeyPair_generate K =
     andThen (core_pqPair K PQ_ROUND_THREE) (\<lambda>(publicKey, secret).
     ret (KEMKeyPair (KEMPublicKey publicKey) (KEMSecretKey secret)))"

subsection \<open>Equality and order of public keys\<close>

lemma PublicKey_equals_iff [simp]: "PublicKey_equals k other \<longleftrightarrow> k = other"
  by (cases k; cases other) (simp add: PublicKey_equals_def bytesEqual_iff)

lemma first_difference_None: "first_difference a b = None \<longleftrightarrow> take (length b) a = take (length a) b"
  by (induction a b rule: first_difference.induct) auto

lemma first_difference_swap: "first_difference b a = map_option uminus (first_difference a b)"
  by (induction a b rule: first_difference.induct) (auto simp: not_less)

lemma compare_bytes_eq_0: "compare_bytes a b = 0 \<longleftrightarrow> a = b"
proof -
  have "first_difference a b \<noteq> Some 0"
    by (induction a b rule: first_difference.induct) auto
  moreover have "first_difference a b = None \<Longrightarrow> length a = length b \<Longrightarrow> a = b"
    by (simp add: first_difference_None)
  moreover have "first_difference b b = None"
    by (simp add: first_difference_None)
  ultimately show ?thesis by (auto simp: compare_bytes_def split: option.splits)
qed

lemma compare_bytes_swap: "compare_bytes b a = - compare_bytes a b"
  by (auto simp: compare_bytes_def first_difference_swap [of a b] split: option.splits)

lemma compare_bytes_Cons:
  "compare_bytes (a # as) (b # bs) = (if a < b then - 1 else if b < a then 1 else compare_bytes as bs)"
  by (auto simp: compare_bytes_def split: option.split)

lemma compare_bytes_Nil [simp]:
  "compare_bytes [] b = - int (length b)" "compare_bytes a [] = int (length a)"
  by (simp_all add: compare_bytes_def)

lemma compare_bytes_trans: "compare_bytes a b \<le> 0 \<Longrightarrow> compare_bytes b c \<le> 0 \<Longrightarrow> compare_bytes a c \<le> 0"
proof (induction a arbitrary: b c)
  case Nil
  then show ?case by simp
next
  case (Cons x a)
  show ?case
  proof (cases b)
    case Nil
    with Cons.prems show ?thesis by simp
  next
    case b: (Cons y b')
    show ?thesis
    proof (cases c)
      case Nil
      with Cons.prems b show ?thesis by simp
    next
      case (Cons z c')
      with Cons.prems b Cons.IH [of b' c'] show ?thesis
        by (auto simp: compare_bytes_Cons split: if_splits)
    qed
  qed
qed

instantiation public_key :: linorder
begin

definition less_eq_public_key :: "public_key \<Rightarrow> public_key \<Rightarrow> bool" where
  "less_eq_public_key k other \<longleftrightarrow> PublicKey_compare k other \<le> 0"

definition less_public_key :: "public_key \<Rightarrow> public_key \<Rightarrow> bool" where
  "less_public_key k other \<longleftrightarrow> PublicKey_compare k other < 0"

instance
proof
  fix x y z :: public_key
  have swap: "PublicKey_compare y x = - PublicKey_compare x y"
    by (simp add: PublicKey_compare_def compare_bytes_swap [of "pk_bytes y"])
  show "x < y \<longleftrightarrow> x \<le> y \<and> \<not> y \<le> x"
    unfolding less_public_key_def less_eq_public_key_def swap by linarith
  show "x \<le> x" by (simp add: less_eq_public_key_def PublicKey_compare_def compare_bytes_eq_0 [THEN iffD2])
  show "x \<le> y \<Longrightarrow> y \<le> z \<Longrightarrow> x \<le> z"
    unfolding less_eq_public_key_def PublicKey_compare_def by (rule compare_bytes_trans)
  show "x \<le> y \<Longrightarrow> y \<le> x \<Longrightarrow> x = y"
    unfolding less_eq_public_key_def swap
    using compare_bytes_eq_0 [of "pk_bytes x" "pk_bytes y"]
    by (cases x; cases y) (simp add: PublicKey_compare_def)
  show "x \<le> y \<or> y \<le> x" unfolding less_eq_public_key_def swap by linarith
qed

end

text \<open>C22: \<^verbatim>\<open>compare\<close> is a total order whose equality is \<^verbatim>\<open>equals\<close>: it is zero exactly
  on equal keys, swapping its arguments negates it, and it is transitive.\<close>

theorem compare_total_order:
  "(PublicKey_compare a b = 0 \<longleftrightarrow> PublicKey_equals a b) \<and>
   PublicKey_compare b a = - PublicKey_compare a b \<and>
   (PublicKey_compare a b \<le> 0 \<longrightarrow> PublicKey_compare b c \<le> 0 \<longrightarrow> PublicKey_compare a c \<le> 0)"
proof -
  have "PublicKey_compare a b = 0 \<longleftrightarrow> PublicKey_equals a b"
    by (cases a; cases b) (simp add: PublicKey_compare_def compare_bytes_eq_0)
  moreover have "PublicKey_compare b a = - PublicKey_compare a b"
    by (simp add: PublicKey_compare_def compare_bytes_swap [of "pk_bytes b"])
  moreover have "PublicKey_compare a b \<le> 0 \<longrightarrow> PublicKey_compare b c \<le> 0 \<longrightarrow> PublicKey_compare a c \<le> 0"
    unfolding PublicKey_compare_def using compare_bytes_trans by blast
  ultimately show ?thesis by blast
qed

theorem compare_total_order_witness:
  "PublicKey_compare (PublicKey [5, 1]) (PublicKey [5, 2, 0]) \<le> 0 \<and>
   PublicKey_compare (PublicKey [5, 2, 0]) (PublicKey [5, 200]) \<le> 0 \<and>
   PublicKey_compare (PublicKey [5, 1]) (PublicKey [5, 200]) \<le> 0"
proof -
  have 1: "PublicKey_compare (PublicKey [5, 1]) (PublicKey [5, 2, 0]) \<le> 0"
    "PublicKey_compare (PublicKey [5, 2, 0]) (PublicKey [5, 200]) \<le> 0"
    by (simp_all add: PublicKey_compare_def compare_bytes_def)
  with compare_total_order [of "PublicKey [5, 1]" "PublicKey [5, 2, 0]" "PublicKey [5, 200]"]
  show ?thesis by blast
qed

end
