(* ===== verification/Uuid.thy ===== *)
theory Uuid
  imports Text Effects
begin

text \<open>
  \<^verbatim>\<open>sdk/ts/src/uuid.ts\<close>: a UUID as text and as sixteen bytes. \<open>uuidToBytes\<close> drops
  every dash and takes thirty-two hexadecimal digits of either case; \<open>bytesToUuid\<close> prints the
  canonical lower-case form with dashes after 8, 12, 16 and 20 digits. The lemmas: each reads the
  other back, whatever is accepted has sixteen bytes, and the canonical form is fixed by the bytes.
\<close>

fun parse_hex_pairs :: "jsstring \<Rightarrow> bytes" where
  "parse_hex_pairs (h # l # s) =
     of_nat (16 * the (hex_value h) + the (hex_value l)) # parse_hex_pairs s"
| "parse_hex_pairs _ = []"

definition uuidToBytes :: "jsstring \<Rightarrow> js_error + bytes" where
  "uuidToBytes s =
     (let hex = filter (\<lambda>c. c \<noteq> 45) s
      in if \<not> (length hex = 32 \<and> list_all is_hex hex)
         then Inl (fault InvalidArgument (js ''not a uuid: '' @ s))
         else Inr (parse_hex_pairs hex))"

definition bytesToUuid :: "bytes \<Rightarrow> js_error + jsstring" where
  "bytesToUuid bytes =
     (if length bytes \<noteq> 16 then Inl (fault InvalidArgument (js ''a uuid is 16 bytes''))
      else let hex = concat (map hex2 bytes)
           in Inr (slice 0 8 hex @ [45] @ slice 8 4 hex @ [45] @ slice 12 4 hex @ [45] @
                   slice 16 4 hex @ [45] @ drop 20 hex))"

subsection \<open>Hexadecimal text of bytes\<close>

lemma length_hex2s [simp]: "length (concat (map hex2 bs)) = 2 * length bs"
  by (induction bs) (auto simp: hex2_def)

lemma hex2s_no_dash: "filter (\<lambda>c. c \<noteq> 45) (concat (map hex2 bs)) = concat (map hex2 bs)"
  by (induction bs) (auto simp: hex2_def hex2_nibbles)

lemma hex2s_is_hex: "list_all is_hex (concat (map hex2 bs))"
  by (induction bs) (auto simp: hex2_def hex2_nibbles is_hex_def)

lemma parse_hex2s: "parse_hex_pairs (concat (map hex2 bs)) = bs"
proof (induction bs)
  case (Cons b bs)
  have "16 * (unat b div 16) + unat b mod 16 = unat b" by simp
  then show ?case using Cons by (simp add: hex2_def hex2_nibbles del: of_nat_add of_nat_mult)
qed simp

lemma length_parse_hex_pairs: "length (parse_hex_pairs s) = length s div 2"
  by (induction s rule: parse_hex_pairs.induct) auto

text \<open>The four dashes cut the digits in five runs that together are all of them.\<close>

lemma dashed_digits:
  "slice 0 8 hex @ slice 8 4 hex @ slice 12 4 hex @ slice 16 4 hex @ drop 20 hex = hex"
proof -
  have step: "slice k n hex @ drop (k + n) hex = drop k hex" for n k
    unfolding slice_def by (metis append_take_drop_id drop_drop add.commute)
  show ?thesis
    using step [of 0 8] step [of 8 4] step [of 12 4] step [of 16 4] by (simp del: append_assoc
        add: append_assoc [symmetric])
qed

lemma uuid_bytes_roundtrip_aux:
  assumes "bytesToUuid bs = Inr s"
  shows "length s = 36 \<and> uuidToBytes s = Inr bs"
proof -
  let ?hex = "concat (map hex2 bs)"
  have len: "length bs = 16" using assms by (auto simp: bytesToUuid_def split: if_splits)
  have s: "s = slice 0 8 ?hex @ [45] @ slice 8 4 ?hex @ [45] @ slice 12 4 ?hex @ [45] @
    slice 16 4 ?hex @ [45] @ drop 20 ?hex"
    using assms len by (simp add: bytesToUuid_def Let_def)
  have nd: "filter (\<lambda>c. c \<noteq> 45) (slice a n ?hex) = slice a n ?hex"
    "filter (\<lambda>c. c \<noteq> 45) (drop a ?hex) = drop a ?hex" for a n
    using hex2s_no_dash [of bs]
    by (fastforce simp: filter_id_conv slice_def dest!: in_set_takeD in_set_dropD)+
  have "filter (\<lambda>c. c \<noteq> 45) s = ?hex"
    using dashed_digits [of ?hex] by (simp add: s nd)
  moreover have "length s = 36"
    using len by (simp add: s slice_def)
  ultimately show ?thesis
    using len hex2s_is_hex [of bs] by (simp add: uuidToBytes_def Let_def parse_hex2s)
qed

text \<open>C21: bytesToUuid prints what uuidToBytes reads back: every sixteen bytes survive the round
  trip through their text.\<close>

theorem uuid_bytes_roundtrip:
  assumes "length bs = 16"
  shows "\<exists>s. bytesToUuid bs = Inr s \<and> length s = 36 \<and> uuidToBytes s = Inr bs"
proof -
  from assms obtain s where "bytesToUuid bs = Inr s" by (simp add: bytesToUuid_def Let_def)
  then show ?thesis using uuid_bytes_roundtrip_aux by blast
qed

theorem uuid_bytes_roundtrip_witness:
  "\<exists>s. bytesToUuid [1,2,3,4,5,6,7,8,9,10,11,12,13,14,15,255] = Inr s \<and> length s = 36
     \<and> uuidToBytes s = Inr [1,2,3,4,5,6,7,8,9,10,11,12,13,14,15,255]"
  by (rule uuid_bytes_roundtrip) simp

text \<open>What is accepted: exactly the strings that hold thirty-two hexadecimal digits once their
  dashes are dropped, wherever the dashes stand; and what comes out has sixteen bytes.\<close>

lemma uuidToBytes_Inr_iff:
  "(\<exists>bs. uuidToBytes s = Inr bs) \<longleftrightarrow>
     length (filter (\<lambda>c. c \<noteq> 45) s) = 32 \<and> (\<forall>c\<in>set s. c = 45 \<or> is_hex c)"
  by (auto simp: uuidToBytes_def Let_def list_all_iff)

lemma uuidToBytes_length: "uuidToBytes s = Inr bs \<Longrightarrow> length bs = 16"
  by (auto simp: uuidToBytes_def Let_def length_parse_hex_pairs split: if_splits)

lemma uuidToBytes_dashes: "uuidToBytes s = Inr bs \<Longrightarrow> uuidToBytes (filter (\<lambda>c. c \<noteq> 45) s) = Inr bs"
  by (auto simp: uuidToBytes_def Let_def split: if_splits)

lemma bytesToUuid_Inr_iff: "(\<exists>s. bytesToUuid bs = Inr s) \<longleftrightarrow> length bs = 16"
  by (simp add: bytesToUuid_def Let_def)

lemma bytesToUuid_inj: "bytesToUuid a = Inr s \<Longrightarrow> bytesToUuid b = Inr s \<Longrightarrow> a = b"
  by (drule uuid_bytes_roundtrip_aux)+ simp

text \<open>The canonical text: lower-case digits and dashes only.\<close>

lemma hex_digit_range: "n < 16 \<Longrightarrow>
    is_digit (hex_digit n) \<or> 97 \<le> unat (hex_digit n) \<and> unat (hex_digit n) \<le> 102"
  by (cases "n < 10") (simp_all add: hex_digit_def is_digit_def unat_of_nat_unit del: of_nat_add)

lemma bytesToUuid_chars:
  assumes "bytesToUuid bs = Inr s" "c \<in> set s"
  shows "c = 45 \<or> is_digit c \<or> 97 \<le> unat c \<and> unat c \<le> 102"
proof -
  have "c = 45 \<or> c \<in> set (concat (map hex2 bs))"
    using assms by (auto simp: bytesToUuid_def Let_def slice_def split: if_splits
        dest!: in_set_takeD in_set_dropD)
  moreover have "is_digit d \<or> 97 \<le> unat d \<and> unat d \<le> 102" if "d \<in> set (hex2 b)" for d b
    using that hex_digit_range [OF hex2_nibbles(1) [of b]] hex_digit_range [OF hex2_nibbles(2) [of b]]
    by (auto simp: hex2_def)
  ultimately show ?thesis by auto
qed

end
