(* ===== verification/Address.thy ===== *)
theory Address
  imports Keys Uuid
begin

text \<open>
  \<^verbatim>\<open>ProtocolAddress\<close>, \<^verbatim>\<open>ServiceId\<close>, \<^verbatim>\<open>Aci\<close> and \<^verbatim>\<open>Pni\<close> of
  \<^verbatim>\<open>sdk/ts/src/api.ts\<close>. The text of an address is the key of every in-memory store, so it
  has to tell addresses apart (\<open>address_text_inj\<close>); a service id has three serial forms, and each
  parser reads back what its printer writes (\<open>service_id_roundtrips\<close>).
\<close>

subsection \<open>ServiceId\<close>

datatype service_id_kind = AciKind | PniKind

fun ServiceIdKind :: "service_id_kind \<Rightarrow> byte" where
  "ServiceIdKind AciKind = 0"
| "ServiceIdKind PniKind = 1"

datatype service_id = ServiceId (si_kind: service_id_kind) (rawUuid: bytes)

definition ServiceId_new :: "service_id_kind \<Rightarrow> bytes \<Rightarrow> js_error + service_id" where
  "ServiceId_new kind raw =
     (if length raw \<noteq> 16 then Inl (fault InvalidArgument (js ''a uuid is 16 bytes''))
      else Inr (ServiceId kind raw))"

text \<open>A pure computation after one that may throw.\<close>

definition bindE :: "js_error + 'a \<Rightarrow> ('a \<Rightarrow> js_error + 'b) \<Rightarrow> js_error + 'b" where
  "bindE r k = (case r of Inl e \<Rightarrow> Inl e | Inr x \<Rightarrow> k x)"

lemma bindE_simps [simp]: "bindE (Inl e) k = Inl e" "bindE (Inr x) k = k x"
  by (simp_all add: bindE_def)

lemma bindE_Inr_iff: "bindE r k = Inr y \<longleftrightarrow> (\<exists>x. r = Inr x \<and> k x = Inr y)"
  by (cases r) auto

definition parseFromServiceIdString :: "jsstring \<Rightarrow> js_error + service_id" where
  "parseFromServiceIdString s =
     (if take 4 s = js ''PNI:'' then bindE (uuidToBytes (drop 4 s)) (ServiceId_new PniKind)
      else bindE (uuidToBytes s) (ServiceId_new AciKind))"

definition parseFromServiceIdFixedWidthBinary :: "bytes \<Rightarrow> js_error + service_id" where
  "parseFromServiceIdFixedWidthBinary b =
     (if length b \<noteq> 17 \<or> 1 < b ! 0 then Inl (fault InvalidArgument (js ''bad service id''))
      else ServiceId_new (if b ! 0 = 0 then AciKind else PniKind) (drop 1 b))"

definition parseFromServiceIdBinary :: "bytes \<Rightarrow> js_error + service_id" where
  "parseFromServiceIdBinary b =
     (if length b = 16 then ServiceId_new AciKind b
      else if length b = 17 \<and> b ! 0 = 1 then ServiceId_new PniKind (drop 1 b)
      else Inl (fault InvalidArgument (js ''bad service id'')))"

definition getServiceIdString :: "service_id \<Rightarrow> js_error + jsstring" where
  "getServiceIdString s =
     bindE (bytesToUuid (rawUuid s)) (\<lambda>uuid.
     Inr (if si_kind s = PniKind then js ''PNI:'' @ uuid else uuid))"

definition getServiceIdFixedWidthBinary :: "service_id \<Rightarrow> bytes" where
  "getServiceIdFixedWidthBinary s = ServiceIdKind (si_kind s) # rawUuid s"

definition getServiceIdBinary :: "service_id \<Rightarrow> bytes" where
  "getServiceIdBinary s = (if si_kind s = AciKind then rawUuid s else getServiceIdFixedWidthBinary s)"

definition ServiceId_equals :: "service_id \<Rightarrow> service_id \<Rightarrow> bool" where
  "ServiceId_equals s other \<longleftrightarrow> si_kind s = si_kind other \<and> bytesEqual (rawUuid s) (rawUuid other)"

definition Aci_new :: "bytes \<Rightarrow> js_error + service_id" where
  "Aci_new raw = ServiceId_new AciKind raw"

definition Aci_fromUuid :: "jsstring \<Rightarrow> js_error + service_id" where
  "Aci_fromUuid uuid = bindE (uuidToBytes uuid) Aci_new"

definition Pni_new :: "bytes \<Rightarrow> js_error + service_id" where
  "Pni_new raw = ServiceId_new PniKind raw"

definition Pni_fromUuid :: "jsstring \<Rightarrow> js_error + service_id" where
  "Pni_fromUuid uuid = bindE (uuidToBytes uuid) Pni_new"

subsection \<open>ProtocolAddress\<close>

datatype protocol_address = ProtocolAddress (pa_name: jsstring) (pa_deviceId: int)

definition ProtocolAddress_new :: "jsstring \<Rightarrow> int \<Rightarrow> js_error + protocol_address" where
  "ProtocolAddress_new name deviceId =
     (if length name = 0 then Inl (fault InvalidArgument (js ''empty address name''))
      else if deviceId = 0 then Inl (fault InvalidArgument (js ''device id must not be zero''))
      else Inr (ProtocolAddress name (to_uint32 deviceId)))"

definition ProtocolAddress_toString :: "protocol_address \<Rightarrow> jsstring" where
  "ProtocolAddress_toString a = pa_name a @ js ''.'' @ decimal (pa_deviceId a)"

text \<open>The parse with every exception turned to \<^verbatim>\<open>null\<close>.\<close>

definition ProtocolAddress_serviceId :: "protocol_address \<Rightarrow> service_id option" where
  "ProtocolAddress_serviceId a =
     (case parseFromServiceIdString (pa_name a) of Inl e \<Rightarrow> None | Inr s \<Rightarrow> Some s)"

text \<open>Well-formed service ids and addresses: what the constructors return.\<close>

definition service_id_ok :: "service_id \<Rightarrow> bool" where
  "service_id_ok s \<longleftrightarrow> length (rawUuid s) = 16"

definition address_ok :: "protocol_address \<Rightarrow> bool" where
  "address_ok a \<longleftrightarrow> pa_name a \<noteq> [] \<and> 0 \<le> pa_deviceId a \<and> pa_deviceId a < 2 ^ 32"

lemma ServiceId_new_ok: "ServiceId_new k raw = Inr s \<Longrightarrow> service_id_ok s"
  by (auto simp: ServiceId_new_def service_id_ok_def split: if_splits)

lemma ProtocolAddress_new_ok: "ProtocolAddress_new n d = Inr a \<Longrightarrow> address_ok a"
  using to_uint32_bounds [of d] by (auto simp: ProtocolAddress_new_def address_ok_def split: if_splits)

lemma parse_service_id_ok: "parseFromServiceIdString t = Inr s \<Longrightarrow> service_id_ok s"
  by (auto simp: parseFromServiceIdString_def bindE_Inr_iff dest: ServiceId_new_ok split: if_splits)

lemma ServiceId_equals_iff [simp]: "ServiceId_equals s t \<longleftrightarrow> s = t"
  by (cases s; cases t) (simp add: ServiceId_equals_def bytesEqual_iff)

lemma service_id_text_back:
  assumes "service_id_ok s"
  shows "\<exists>t. getServiceIdString s = Inr t \<and> parseFromServiceIdString t = Inr s"
proof -
  obtain k raw where s: "s = ServiceId k raw" by (cases s)
  with assms have len: "length raw = 16" by (simp add: service_id_ok_def)
  then obtain u where u: "bytesToUuid raw = Inr u" using bytesToUuid_Inr_iff by blast
  note r = uuid_bytes_roundtrip_aux [OF u]
  have "take 4 u \<noteq> js ''PNI:''"
  proof
    assume "take 4 u = js ''PNI:''"
    then have "80 \<in> set (take 4 u)" by simp
    then have "80 \<in> set u" by (rule in_set_takeD)
    from bytesToUuid_chars [OF u this] show False by (simp add: is_digit_def)
  qed
  then show ?thesis
    using u r len
    by (cases k) (simp_all add: s getServiceIdString_def parseFromServiceIdString_def ServiceId_new_def)
qed

lemma service_id_text_inj:
  assumes "service_id_ok s" "service_id_ok s'" "getServiceIdString s = getServiceIdString s'"
  shows "s = s'"
  using service_id_text_back [OF assms(1)] service_id_text_back [OF assms(2)] assms(3) by auto

text \<open>C20: the three serial forms of a service id read back as the id they were written from, and
  the compact form has sixteen bytes for an ACI and seventeen for a PNI.\<close>

theorem service_id_roundtrips:
  assumes "service_id_ok s"
  shows "(\<exists>t. getServiceIdString s = Inr t \<and> parseFromServiceIdString t = Inr s) \<and>
         parseFromServiceIdFixedWidthBinary (getServiceIdFixedWidthBinary s) = Inr s \<and>
         parseFromServiceIdBinary (getServiceIdBinary s) = Inr s \<and>
         length (getServiceIdBinary s) = (if si_kind s = AciKind then 16 else 17)"
proof -
  obtain k raw where s: "s = ServiceId k raw" by (cases s)
  with assms have len: "length raw = 16" by (simp add: service_id_ok_def)
  note service_id_text_back [OF assms]
  moreover have "parseFromServiceIdFixedWidthBinary (getServiceIdFixedWidthBinary s) = Inr s"
    using len by (cases k) (simp_all add: s getServiceIdFixedWidthBinary_def
      parseFromServiceIdFixedWidthBinary_def ServiceId_new_def)
  moreover have "parseFromServiceIdBinary (getServiceIdBinary s) = Inr s"
    using len by (cases k) (simp_all add: s getServiceIdBinary_def getServiceIdFixedWidthBinary_def
      parseFromServiceIdBinary_def ServiceId_new_def)
  moreover have "length (getServiceIdBinary s) = (if si_kind s = AciKind then 16 else 17)"
    using len by (cases k) (simp_all add: s getServiceIdBinary_def getServiceIdFixedWidthBinary_def)
  ultimately show ?thesis by blast
qed

theorem service_id_roundtrips_witness:
  "\<exists>t. getServiceIdString (ServiceId PniKind (replicate 16 171)) = Inr t \<and>
       parseFromServiceIdString t = Inr (ServiceId PniKind (replicate 16 171))"
  by (rule conjunct1 [OF service_id_roundtrips]) (simp add: service_id_ok_def)

lemma dot_not_digit: "\<not> is_digit 46"
  by (simp add: is_digit_def)

lemma name_device_text_inj:
  assumes "0 \<le> d" "0 \<le> e"
  shows "n @ js ''.'' @ decimal d = n' @ js ''.'' @ decimal e \<longleftrightarrow> n = n' \<and> d = e"
proof
  assume "n @ js ''.'' @ decimal d = n' @ js ''.'' @ decimal e"
  then have "n @ 46 # decimal d = n' @ 46 # decimal e" by simp
  then have "n = n' \<and> decimal d = decimal e"
    by (rule append_digits_unique) (use assms decimal_digits dot_not_digit in auto)
  then show "n = n' \<and> d = e" using assms decimal_inj by auto
qed simp

lemma toString_inj_aux:
  "address_ok a \<Longrightarrow> address_ok b \<Longrightarrow> ProtocolAddress_toString a = ProtocolAddress_toString b \<longleftrightarrow> a = b"
  using name_device_text_inj [of "pa_deviceId a" "pa_deviceId b" "pa_name a" "pa_name b"]
  by (cases a; cases b) (simp add: ProtocolAddress_toString_def address_ok_def del: js_Cons)

text \<open>C17: the text of an address, the key of every in-memory store, tells any two addresses the
  constructor returns apart, whatever dots and digits their names hold.\<close>

theorem address_text_inj:
  assumes "ProtocolAddress_new n d = Inr a" "ProtocolAddress_new n' d' = Inr b"
  shows "ProtocolAddress_toString a = ProtocolAddress_toString b \<longleftrightarrow> n = n' \<and> d mod 2 ^ 32 = d' mod 2 ^ 32"
proof -
  have "ProtocolAddress_toString a = ProtocolAddress_toString b \<longleftrightarrow> a = b"
    using assms toString_inj_aux ProtocolAddress_new_ok by blast
  with assms show ?thesis by (auto simp: ProtocolAddress_new_def to_uint32_def split: if_splits)
qed

theorem address_text_inj_witness:
  "ProtocolAddress_toString (ProtocolAddress (js ''a.1'') 2) \<noteq> ProtocolAddress_toString (ProtocolAddress (js ''a'') 12)"
proof -
  have 1: "ProtocolAddress_new (js ''a.1'') 2 = Inr (ProtocolAddress (js ''a.1'') 2)"
    "ProtocolAddress_new (js ''a'') 12 = Inr (ProtocolAddress (js ''a'') 12)"
    by (simp_all add: ProtocolAddress_new_def to_uint32_def)
  from address_text_inj [OF 1] show ?thesis by simp
qed

text \<open>C40: the check against device id zero runs before the id is reduced to 32 bits, so a
  non-zero multiple of \<open>2 ^ 32\<close> passes it and gives an address of device zero.\<close>

theorem device_zero_passes:
  "(\<exists>a. ProtocolAddress_new n d = Inr a \<and> pa_deviceId a = 0) \<longleftrightarrow> n \<noteq> [] \<and> d \<noteq> 0 \<and> d mod 2 ^ 32 = 0"
  by (auto simp: ProtocolAddress_new_def to_uint32_def)

end
