(* ===== verification/Records.thy ===== *)
theory Records
  imports Address
begin

text \<open>
  The records of \<^verbatim>\<open>sdk/ts/src/api.ts\<close>: pre-key records, which a constructor parses once
  and whose getters answer from the parse, the bundle, and the two mutable records
  \<^verbatim>\<open>SessionRecord\<close> and \<^verbatim>\<open>SenderKeyRecord\<close>, objects whose \<^verbatim>\<open>bytes\<close>
  can be replaced and which a store and its caller share. An \<open>env\<close> is what the code reaches
  besides its arguments: the core, the clock, and the heap of these mutable objects.
\<close>

subsection \<open>The environment\<close>

text \<open>\<open>clock\<close> is \<^verbatim>\<open>new Date().getTime()\<close>; \<open>obj_new\<close>, \<open>obj_bytes\<close> and \<open>obj_set\<close> create a
  record object, read its \<^verbatim>\<open>bytes\<close> and replace them. \<open>lowerCase\<close> is
  \<^verbatim>\<open>toLowerCase\<close>, whose Unicode tables belong to the engine.\<close>

type_synonym obj = nat

record 'w env =
  calls :: "'w core_calls"
  clock :: "('w, int) op"
  obj_new :: "bytes \<Rightarrow> ('w, obj) op"
  obj_bytes :: "obj \<Rightarrow> ('w, bytes) op"
  obj_set :: "obj \<Rightarrow> bytes \<Rightarrow> ('w, unit) op"
  lowerCase :: "jsstring \<Rightarrow> jsstring"

text \<open>\<^verbatim>\<open>BigInt(Math.max(0, Math.floor(date.getTime() / 1000)))\<close>.\<close>

definition nowSecs :: "int \<Rightarrow> int" where
  "nowSecs date = max 0 (date div 1000)"

text \<open>A date parameter whose default is \<^verbatim>\<open>new Date()\<close>.\<close>

definition date_or_now :: "'w env \<Rightarrow> int option \<Rightarrow> ('w, int) op" where
  "date_or_now E now = (case now of None \<Rightarrow> clock E | Some d \<Rightarrow> ret d)"

subsection \<open>PreKeyRecord\<close>

record pre_key_record =
  pr_bytes :: bytes
  pr_id :: int
  pr_publicKey :: bytes
  pr_secret :: bytes

definition PreKeyRecord_make :: "'s core_calls \<Rightarrow> bytes \<Rightarrow> ('s, pre_key_record) op" where
  "PreKeyRecord_make K b =
     andThen (core_oneTimeParse K b) (\<lambda>parsed.
     ret \<lparr>pr_bytes = b, pr_id = ot_id parsed, pr_publicKey = ot_publicKey parsed, pr_secret = ot_secret parsed\<rparr>)"

definition PreKeyRecord_new :: "'s core_calls \<Rightarrow> int \<Rightarrow> public_key \<Rightarrow> private_key \<Rightarrow> ('s, pre_key_record) op" where
  "PreKeyRecord_new K i publicKey privateKey =
     andThen (core_oneTimeRecord K (to_uint32 i) (sk_bytes privateKey)) (PreKeyRecord_make K)"

definition PreKeyRecord_deserialize :: "'s core_calls \<Rightarrow> bytes \<Rightarrow> ('s, pre_key_record) op" where
  "PreKeyRecord_deserialize K data = PreKeyRecord_make K data"

definition PreKeyRecord_publicKey :: "pre_key_record \<Rightarrow> public_key" where
  "PreKeyRecord_publicKey r = PublicKey_unchecked (pr_publicKey r)"

definition PreKeyRecord_privateKey :: "pre_key_record \<Rightarrow> private_key" where
  "PreKeyRecord_privateKey r = PrivateKey_unchecked (pr_secret r)"

subsection \<open>SignedPreKeyRecord and KyberPreKeyRecord\<close>

text \<open>Both classes keep the same parse, an id, a stamp, the two halves and a signature.\<close>

record signed_record =
  sr_bytes :: bytes
  sr_id :: int
  sr_stamp :: int
  sr_publicKey :: bytes
  sr_secret :: bytes
  sr_signature :: bytes

definition signed_of :: "bytes \<Rightarrow> signed_parts \<Rightarrow> signed_record" where
  "signed_of b parsed =
     \<lparr>sr_bytes = b, sr_id = sp_id parsed, sr_stamp = sp_stamp parsed, sr_publicKey = sp_publicKey parsed,
      sr_secret = sp_secret parsed, sr_signature = sp_signature parsed\<rparr>"

definition SignedPreKeyRecord_make :: "'s core_calls \<Rightarrow> bytes \<Rightarrow> ('s, signed_record) op" where
  "SignedPreKeyRecord_make K b = andThen (core_signedParse K b) (\<lambda>parsed. ret (signed_of b parsed))"

definition SignedPreKeyRecord_new ::
    "'s core_calls \<Rightarrow> int \<Rightarrow> int \<Rightarrow> public_key \<Rightarrow> private_key \<Rightarrow> bytes \<Rightarrow> ('s, signed_record) op" where
  "SignedPreKeyRecord_new K i timestamp publicKey privateKey signature =
     andThen (core_signedRecord K (to_uint32 i) timestamp (sk_bytes privateKey) signature)
       (SignedPreKeyRecord_make K)"

definition SignedPreKeyRecord_deserialize :: "'s core_calls \<Rightarrow> bytes \<Rightarrow> ('s, signed_record) op" where
  "SignedPreKeyRecord_deserialize K data = SignedPreKeyRecord_make K data"

definition SignedPreKeyRecord_publicKey :: "signed_record \<Rightarrow> public_key" where
  "SignedPreKeyRecord_publicKey r = PublicKey_unchecked (sr_publicKey r)"

definition SignedPreKeyRecord_privateKey :: "signed_record \<Rightarrow> private_key" where
  "SignedPreKeyRecord_privateKey r = PrivateKey_unchecked (sr_secret r)"

definition KyberPreKeyRecord_make :: "'s core_calls \<Rightarrow> bytes \<Rightarrow> ('s, signed_record) op" where
  "KyberPreKeyRecord_make K b = andThen (core_pqRecordParse K b) (\<lambda>parsed. ret (signed_of b parsed))"

definition KyberPreKeyRecord_new ::
    "'s core_calls \<Rightarrow> int \<Rightarrow> int \<Rightarrow> kem_key_pair \<Rightarrow> bytes \<Rightarrow> ('s, signed_record) op" where
  "KyberPreKeyRecord_new K i timestamp keyPair signature =
     andThen (core_pqRecord K (to_uint32 i) timestamp (kp_bytes (kem_publicKey keyPair))
                (ks_bytes (kem_secretKey keyPair)) signature)
       (KyberPreKeyRecord_make K)"

definition KyberPreKeyRecord_deserialize :: "'s core_calls \<Rightarrow> bytes \<Rightarrow> ('s, signed_record) op" where
  "KyberPreKeyRecord_deserialize K data = KyberPreKeyRecord_make K data"

definition KyberPreKeyRecord_keyPair :: "signed_record \<Rightarrow> kem_key_pair" where
  "KyberPreKeyRecord_keyPair r = KEMKeyPair (KEMPublicKey (sr_publicKey r)) (KEMSecretKey (sr_secret r))"

definition KyberPreKeyRecord_publicKey :: "signed_record \<Rightarrow> kem_public_key" where
  "KyberPreKeyRecord_publicKey r = KEMPublicKey (sr_publicKey r)"

definition KyberPreKeyRecord_secretKey :: "signed_record \<Rightarrow> kem_secret_key" where
  "KyberPreKeyRecord_secretKey r = KEMSecretKey (sr_secret r)"

subsection \<open>SessionRecord\<close>

definition SessionRecord_deserialize :: "'w env \<Rightarrow> bytes \<Rightarrow> ('w, obj) op" where
  "SessionRecord_deserialize E data =
     andThen (core_sessionInfo (calls E) data 0) (\<lambda>_. obj_new E data)"

definition SessionRecord_unchecked :: "'w env \<Rightarrow> bytes \<Rightarrow> ('w, obj) op" where
  "SessionRecord_unchecked E b = obj_new E b"

definition SessionRecord_serialize :: "'w env \<Rightarrow> obj \<Rightarrow> ('w, bytes) op" where
  "SessionRecord_serialize E r = obj_bytes E r"

definition SessionRecord_archiveCurrentState :: "'w env \<Rightarrow> obj \<Rightarrow> ('w, unit) op" where
  "SessionRecord_archiveCurrentState E r =
     andThen (obj_bytes E r) (\<lambda>b.
     andThen (core_sessionShelve (calls E) b) (\<lambda>shelved. obj_set E r shelved))"

definition SessionRecord_hasCurrentState :: "'w env \<Rightarrow> obj \<Rightarrow> int option \<Rightarrow> ('w, bool) op" where
  "SessionRecord_hasCurrentState E r now =
     andThen (date_or_now E now) (\<lambda>date.
     andThen (obj_bytes E r) (\<lambda>b.
     andThen (core_sessionInfo (calls E) b (nowSecs date)) (\<lambda>info. ret (usable info))))"

definition SessionRecord_currentRatchetKeyMatches :: "'w env \<Rightarrow> obj \<Rightarrow> public_key \<Rightarrow> ('w, bool) op" where
  "SessionRecord_currentRatchetKeyMatches E r key =
     andThen (obj_bytes E r) (\<lambda>b. core_sessionRatchetIs (calls E) b (pk_bytes key))"

definition SessionRecord_live :: "'w env \<Rightarrow> obj \<Rightarrow> ('w, session_info) op" where
  "SessionRecord_live E r =
     andThen (obj_bytes E r) (\<lambda>b.
     andThen (clock E) (\<lambda>date.
     andThen (core_sessionInfo (calls E) b (nowSecs date)) (\<lambda>info.
     if \<not> hasLive info then throw (fault InvalidState (js ''no current session'')) else ret info)))"

definition SessionRecord_remoteRegistrationId :: "'w env \<Rightarrow> obj \<Rightarrow> ('w, int) op" where
  "SessionRecord_remoteRegistrationId E r =
     andThen (SessionRecord_live E r) (\<lambda>info. ret (remoteRegistrationId info))"

definition SessionRecord_localRegistrationId :: "'w env \<Rightarrow> obj \<Rightarrow> ('w, int) op" where
  "SessionRecord_localRegistrationId E r =
     andThen (SessionRecord_live E r) (\<lambda>info. ret (localRegistrationId info))"

definition SessionRecord_sessionVersion :: "'w env \<Rightarrow> obj \<Rightarrow> ('w, int) op" where
  "SessionRecord_sessionVersion E r = andThen (SessionRecord_live E r) (\<lambda>info. ret (si_version info))"

definition SessionRecord_remoteIdentityKey :: "'w env \<Rightarrow> obj \<Rightarrow> ('w, public_key) op" where
  "SessionRecord_remoteIdentityKey E r =
     andThen (SessionRecord_live E r) (\<lambda>info. ret (PublicKey_unchecked (remoteIdentity info)))"

definition SessionRecord_localIdentityKey :: "'w env \<Rightarrow> obj \<Rightarrow> ('w, public_key) op" where
  "SessionRecord_localIdentityKey E r =
     andThen (SessionRecord_live E r) (\<lambda>info. ret (PublicKey_unchecked (localIdentity info)))"

subsection \<open>SenderKeyRecord\<close>

definition SenderKeyRecord_deserialize :: "'w env \<Rightarrow> bytes \<Rightarrow> ('w, obj) op" where
  "SenderKeyRecord_deserialize E data = obj_new E data"

definition SenderKeyRecord_unchecked :: "'w env \<Rightarrow> bytes \<Rightarrow> ('w, obj) op" where
  "SenderKeyRecord_unchecked E b = obj_new E b"

definition SenderKeyRecord_serialize :: "'w env \<Rightarrow> obj \<Rightarrow> ('w, bytes) op" where
  "SenderKeyRecord_serialize E r = obj_bytes E r"

subsection \<open>PreKeyBundle\<close>

record pre_key_bundle =
  pb_registrationId :: int
  pb_deviceId :: int
  pb_preKeyId :: "int option"
  pb_preKey :: "public_key option"
  pb_signedPreKeyId :: int
  pb_signedPreKey :: public_key
  pb_signedPreKeySignature :: bytes
  pb_identityKey :: public_key
  pb_kyberPreKeyId :: int
  pb_kyberPreKey :: kem_public_key
  pb_kyberPreKeySignature :: bytes

end
