(* ===== verification/Messages.thy ===== *)
theory Messages
  imports Records
begin

text \<open>
  The message classes of \<^verbatim>\<open>sdk/ts/src/api.ts\<close>. Like the records, a constructor parses the
  bytes through the core once and the getters answer from the parse, so that an object of one of
  these classes exists only for bytes the core parses.
\<close>

subsection \<open>CiphertextMessage\<close>

text \<open>The kinds of \<^verbatim>\<open>CiphertextMessageType\<close>; a message keeps the number the core gave.\<close>

datatype ciphertext_kind = WhisperKind | PreKeyKind | SenderKeyKind | PlaintextKind

fun CiphertextMessageType :: "ciphertext_kind \<Rightarrow> int" where
  "CiphertextMessageType WhisperKind = 2"
| "CiphertextMessageType PreKeyKind = 3"
| "CiphertextMessageType SenderKeyKind = 7"
| "CiphertextMessageType PlaintextKind = 8"

datatype ciphertext_message = CiphertextMessage (cm_type: int) (cm_bytes: bytes)

subsection \<open>WhisperMessage\<close>

datatype whisper_message = WhisperMessage (wm_bytes: bytes) (wm_info: whisper_info) (wm_body: bytes)

definition WhisperMessage_make :: "'s core_calls \<Rightarrow> bytes \<Rightarrow> ('s, whisper_message) op" where
  "WhisperMessage_make K b =
     andThen (core_whisperParse K b) (\<lambda>(info, body). ret (WhisperMessage b info body))"

definition WhisperMessage_deserialize :: "'s core_calls \<Rightarrow> bytes \<Rightarrow> ('s, whisper_message) op" where
  "WhisperMessage_deserialize K data = WhisperMessage_make K data"

definition WhisperMessage_messageVersion :: "whisper_message \<Rightarrow> int" where
  "WhisperMessage_messageVersion m = w_version (wm_info m)"

definition WhisperMessage_counter :: "whisper_message \<Rightarrow> int" where
  "WhisperMessage_counter m = w_index (wm_info m)"

definition WhisperMessage_previousCounter :: "whisper_message \<Rightarrow> int" where
  "WhisperMessage_previousCounter m = w_previousIndex (wm_info m)"

definition WhisperMessage_senderRatchetKey :: "whisper_message \<Rightarrow> public_key" where
  "WhisperMessage_senderRatchetKey m = PublicKey_unchecked (w_ratchet (wm_info m))"

subsection \<open>PreKeyMessage\<close>

datatype pre_key_message = PreKeyMessage (pm_bytes: bytes) (pm_info: opener_info) (pm_inner: bytes)

definition PreKeyMessage_make :: "'s core_calls \<Rightarrow> bytes \<Rightarrow> ('s, pre_key_message) op" where
  "PreKeyMessage_make K b =
     andThen (core_openerParse K b) (\<lambda>(info, inner). ret (PreKeyMessage b info inner))"

definition PreKeyMessage_deserialize :: "'s core_calls \<Rightarrow> bytes \<Rightarrow> ('s, pre_key_message) op" where
  "PreKeyMessage_deserialize K data = PreKeyMessage_make K data"

definition PreKeyMessage_version :: "pre_key_message \<Rightarrow> int" where
  "PreKeyMessage_version m = o_version (pm_info m)"

definition PreKeyMessage_registrationId :: "pre_key_message \<Rightarrow> int" where
  "PreKeyMessage_registrationId m = o_registrationId (pm_info m)"

definition PreKeyMessage_preKeyId :: "pre_key_message \<Rightarrow> int option" where
  "PreKeyMessage_preKeyId m = o_oneTimeId (pm_info m)"

definition PreKeyMessage_signedPreKeyId :: "pre_key_message \<Rightarrow> int" where
  "PreKeyMessage_signedPreKeyId m = o_signedId (pm_info m)"

definition PreKeyMessage_kyberPreKeyId :: "pre_key_message \<Rightarrow> int option" where
  "PreKeyMessage_kyberPreKeyId m = o_pqId (pm_info m)"

definition PreKeyMessage_baseKey :: "pre_key_message \<Rightarrow> public_key" where
  "PreKeyMessage_baseKey m = PublicKey_unchecked (o_base (pm_info m))"

definition PreKeyMessage_identityKey :: "pre_key_message \<Rightarrow> public_key" where
  "PreKeyMessage_identityKey m = PublicKey_unchecked (o_identity (pm_info m))"

definition PreKeyMessage_whisperMessage :: "'s core_calls \<Rightarrow> pre_key_message \<Rightarrow> ('s, whisper_message) op" where
  "PreKeyMessage_whisperMessage K m = WhisperMessage_deserialize K (pm_inner m)"

subsection \<open>SenderKeyMessage\<close>

record sender_key_message =
  km_bytes :: bytes
  km_version :: int
  km_distributionId :: jsstring
  km_chainId :: int
  km_step :: int
  km_body :: bytes

definition SenderKeyMessage_make :: "'s core_calls \<Rightarrow> bytes \<Rightarrow> ('s, sender_key_message) op" where
  "SenderKeyMessage_make K b =
     andThen (core_noteParse K b) (\<lambda>(parsed, body).
     andThen (pureOp (bytesToUuid (no_circleId parsed))) (\<lambda>distributionId.
     ret \<lparr>km_bytes = b, km_version = no_version parsed, km_distributionId = distributionId,
          km_chainId = no_chainId parsed, km_step = no_step parsed, km_body = body\<rparr>))"

definition SenderKeyMessage_deserialize :: "'s core_calls \<Rightarrow> bytes \<Rightarrow> ('s, sender_key_message) op" where
  "SenderKeyMessage_deserialize K data = SenderKeyMessage_make K data"

subsection \<open>SenderKeyDistributionMessage\<close>

record distribution_message =
  dm_bytes :: bytes
  dm_version :: int
  dm_distributionId :: jsstring
  dm_chainId :: int
  dm_step :: int
  dm_seed :: bytes
  dm_signing :: bytes

definition SenderKeyDistributionMessage_make :: "'s core_calls \<Rightarrow> bytes \<Rightarrow> ('s, distribution_message) op" where
  "SenderKeyDistributionMessage_make K b =
     andThen (core_announceParse K b) (\<lambda>parsed.
     andThen (pureOp (bytesToUuid (an_circleId parsed))) (\<lambda>distributionId.
     ret \<lparr>dm_bytes = b, dm_version = an_version parsed, dm_distributionId = distributionId,
          dm_chainId = an_chainId parsed, dm_step = an_step parsed, dm_seed = an_seed parsed,
          dm_signing = an_signing parsed\<rparr>))"

definition SenderKeyDistributionMessage_deserialize ::
    "'s core_calls \<Rightarrow> bytes \<Rightarrow> ('s, distribution_message) op" where
  "SenderKeyDistributionMessage_deserialize K data = SenderKeyDistributionMessage_make K data"

definition SenderKeyDistributionMessage_signatureKey :: "distribution_message \<Rightarrow> public_key" where
  "SenderKeyDistributionMessage_signatureKey m = PublicKey_unchecked (dm_signing m)"

subsection \<open>DecryptionErrorMessage and PlaintextContent\<close>

datatype decryption_error_message = DecryptionErrorMessage (de_bytes: bytes) (de_parts: report_parts)

definition DecryptionErrorMessage_make :: "'s core_calls \<Rightarrow> bytes \<Rightarrow> ('s, decryption_error_message) op" where
  "DecryptionErrorMessage_make K b =
     andThen (core_reportParse K b) (\<lambda>parsed. ret (DecryptionErrorMessage b parsed))"

definition DecryptionErrorMessage_forOriginal ::
    "'s core_calls \<Rightarrow> bytes \<Rightarrow> int \<Rightarrow> int \<Rightarrow> int \<Rightarrow> ('s, decryption_error_message) op" where
  "DecryptionErrorMessage_forOriginal K b kind timestamp originalSenderDeviceId =
     andThen (core_report K b kind timestamp (to_uint32 originalSenderDeviceId)) (DecryptionErrorMessage_make K)"

definition DecryptionErrorMessage_deserialize :: "'s core_calls \<Rightarrow> bytes \<Rightarrow> ('s, decryption_error_message) op" where
  "DecryptionErrorMessage_deserialize K data = DecryptionErrorMessage_make K data"

definition DecryptionErrorMessage_extractFromSerializedBody ::
    "'s core_calls \<Rightarrow> bytes \<Rightarrow> ('s, decryption_error_message) op" where
  "DecryptionErrorMessage_extractFromSerializedBody K body =
     andThen (core_reportInBody K body) (DecryptionErrorMessage_make K)"

definition DecryptionErrorMessage_ratchetKey :: "decryption_error_message \<Rightarrow> public_key option" where
  "DecryptionErrorMessage_ratchetKey m = map_option PublicKey_unchecked (re_ratchet (de_parts m))"

datatype plaintext_content = PlaintextContent (pc_bytes: bytes) (pc_body: bytes)

definition PlaintextContent_make :: "'s core_calls \<Rightarrow> bytes \<Rightarrow> ('s, plaintext_content) op" where
  "PlaintextContent_make K b = andThen (core_plainBody K b) (\<lambda>body. ret (PlaintextContent b body))"

definition PlaintextContent_from :: "'s core_calls \<Rightarrow> decryption_error_message \<Rightarrow> ('s, plaintext_content) op" where
  "PlaintextContent_from K message = andThen (core_plainFromReport K (de_bytes message)) (PlaintextContent_make K)"

definition PlaintextContent_deserialize :: "'s core_calls \<Rightarrow> bytes \<Rightarrow> ('s, plaintext_content) op" where
  "PlaintextContent_deserialize K data = PlaintextContent_make K data"

subsection \<open>CiphertextMessage.from\<close>

datatype any_message =
    AnyWhisper whisper_message | AnyPreKey pre_key_message | AnySenderKey sender_key_message
  | AnyPlaintext plaintext_content

fun CiphertextMessage_from :: "any_message \<Rightarrow> ciphertext_message" where
  "CiphertextMessage_from (AnyWhisper m) = CiphertextMessage (CiphertextMessageType WhisperKind) (wm_bytes m)"
| "CiphertextMessage_from (AnyPreKey m) = CiphertextMessage (CiphertextMessageType PreKeyKind) (pm_bytes m)"
| "CiphertextMessage_from (AnySenderKey m) = CiphertextMessage (CiphertextMessageType SenderKeyKind) (km_bytes m)"
| "CiphertextMessage_from (AnyPlaintext m) = CiphertextMessage (CiphertextMessageType PlaintextKind) (pc_bytes m)"

end
