(* ===== verification/Stores.thy ===== *)
theory Stores
  imports Messages
begin

text \<open>
  The store interfaces of \<^verbatim>\<open>sdk/ts/src/api.ts\<close> a host implements, and
  \<^verbatim>\<open>InMemoryProtocolStore\<close>, every store in one object. An interface is a record of
  \<^verbatim>\<open>async\<close> methods over the host's world \<open>'w\<close>; the in-memory store's methods are
  \<^verbatim>\<open>async\<close> functions without an \<^verbatim>\<open>await\<close>, which act at once on the maps of
  \<open>mem_store\<close>.
\<close>

subsection \<open>The interfaces\<close>

datatype direction = Sending | Receiving
datatype identity_change = NewOrUnchanged | ReplacedExisting

record 'w session_store =
  saveSession :: "protocol_address \<Rightarrow> obj \<Rightarrow> ('w, unit) task"
  getSession :: "protocol_address \<Rightarrow> ('w, obj option) task"
  getExistingSessions :: "protocol_address list \<Rightarrow> ('w, obj list) task"

record 'w identity_key_store =
  getIdentityKey :: "('w, private_key) task"
  getLocalRegistrationId :: "('w, int) task"
  saveIdentity :: "protocol_address \<Rightarrow> public_key \<Rightarrow> ('w, identity_change) task"
  isTrustedIdentity :: "protocol_address \<Rightarrow> public_key \<Rightarrow> direction \<Rightarrow> ('w, bool) task"
  getIdentity :: "protocol_address \<Rightarrow> ('w, public_key option) task"

record 'w pre_key_store =
  savePreKey :: "int \<Rightarrow> pre_key_record \<Rightarrow> ('w, unit) task"
  getPreKey :: "int \<Rightarrow> ('w, pre_key_record) task"
  removePreKey :: "int \<Rightarrow> ('w, unit) task"

record 'w signed_pre_key_store =
  saveSignedPreKey :: "int \<Rightarrow> signed_record \<Rightarrow> ('w, unit) task"
  getSignedPreKey :: "int \<Rightarrow> ('w, signed_record) task"

record 'w kyber_pre_key_store =
  saveKyberPreKey :: "int \<Rightarrow> signed_record \<Rightarrow> ('w, unit) task"
  getKyberPreKey :: "int \<Rightarrow> ('w, signed_record) task"
  markKyberPreKeyUsed :: "int \<Rightarrow> int \<Rightarrow> public_key \<Rightarrow> ('w, unit) task"

record 'w sender_key_store =
  saveSenderKey :: "protocol_address \<Rightarrow> jsstring \<Rightarrow> obj \<Rightarrow> ('w, unit) task"
  getSenderKey :: "protocol_address \<Rightarrow> jsstring \<Rightarrow> ('w, obj option) task"

definition senderKeyName :: "(jsstring \<Rightarrow> jsstring) \<Rightarrow> protocol_address \<Rightarrow> jsstring \<Rightarrow> jsstring" where
  "senderKeyName lower sender distributionId =
     ProtocolAddress_toString sender @ js ''|'' @ lower distributionId"

subsection \<open>InMemoryProtocolStore\<close>

record mem_store =
  ms_identity :: identity_key_pair
  ms_registrationId :: int
  ms_identities :: "(jsstring, public_key) js_map"
  ms_sessions :: "(jsstring, obj) js_map"
  ms_preKeys :: "(int, pre_key_record) js_map"
  ms_signedPreKeys :: "(int, signed_record) js_map"
  ms_kyberPreKeys :: "(int, signed_record) js_map"
  ms_kyberUsed :: "int list"
  ms_senderKeys :: "(jsstring, obj) js_map"

text \<open>The constructor; \<open>draw\<close> is \<^verbatim>\<open>Math.floor(Math.random() * 16380)\<close>.\<close>

definition InMemoryProtocolStore_new ::
    "'s core_calls \<Rightarrow> int \<Rightarrow> identity_key_pair option \<Rightarrow> int option \<Rightarrow> ('s, mem_store) op" where
  "InMemoryProtocolStore_new K draw identity registrationId =
     andThen (case identity of None \<Rightarrow> IdentityKeyPair_generate K | Some p \<Rightarrow> ret p) (\<lambda>p.
     ret \<lparr>ms_identity = p,
          ms_registrationId = (case registrationId of None \<Rightarrow> 1 + draw | Some r \<Rightarrow> r),
          ms_identities = [], ms_sessions = [], ms_preKeys = [], ms_signedPreKeys = [],
          ms_kyberPreKeys = [], ms_kyberUsed = [], ms_senderKeys = []\<rparr>)"

definition ms_saveSession :: "protocol_address \<Rightarrow> obj \<Rightarrow> (mem_store, unit) op" where
  "ms_saveSession name r =
     modify (\<lambda>s. s\<lparr>ms_sessions := map_set (ProtocolAddress_toString name) r (ms_sessions s)\<rparr>)"

definition ms_getSession :: "protocol_address \<Rightarrow> (mem_store, obj option) op" where
  "ms_getSession name = gets (\<lambda>s. map_get (ms_sessions s) (ProtocolAddress_toString name))"

definition no_session :: "protocol_address \<Rightarrow> js_error" where
  "no_session a = fault SessionNotFound (js ''no session for '' @ ProtocolAddress_toString a)"

definition ms_getExistingSessions :: "protocol_address list \<Rightarrow> (mem_store, obj list) op" where
  "ms_getExistingSessions addresses = each (\<lambda>a.
     andThen (gets (\<lambda>s. map_get (ms_sessions s) (ProtocolAddress_toString a))) (\<lambda>s.
     case s of None \<Rightarrow> throw (no_session a) | Some r \<Rightarrow> ret r)) addresses"

definition ms_getIdentityKey :: "(mem_store, private_key) op" where
  "ms_getIdentityKey = gets (\<lambda>s. ik_privateKey (ms_identity s))"

definition ms_getLocalRegistrationId :: "(mem_store, int) op" where
  "ms_getLocalRegistrationId = gets ms_registrationId"

definition ms_saveIdentity :: "protocol_address \<Rightarrow> public_key \<Rightarrow> (mem_store, identity_change) op" where
  "ms_saveIdentity name key =
     andThen (gets (\<lambda>s. map_get (ms_identities s) (ProtocolAddress_toString name))) (\<lambda>previous.
     andThen (modify (\<lambda>s. s\<lparr>ms_identities := map_set (ProtocolAddress_toString name) key (ms_identities s)\<rparr>)) (\<lambda>_.
     ret (case previous of
            None \<Rightarrow> NewOrUnchanged
          | Some p \<Rightarrow> if \<not> PublicKey_equals p key then ReplacedExisting else NewOrUnchanged)))"

definition ms_isTrustedIdentity :: "protocol_address \<Rightarrow> public_key \<Rightarrow> direction \<Rightarrow> (mem_store, bool) op" where
  "ms_isTrustedIdentity name key direction =
     gets (\<lambda>s. case map_get (ms_identities s) (ProtocolAddress_toString name) of
                 None \<Rightarrow> True | Some known \<Rightarrow> PublicKey_equals known key)"

definition ms_getIdentity :: "protocol_address \<Rightarrow> (mem_store, public_key option) op" where
  "ms_getIdentity name = gets (\<lambda>s. map_get (ms_identities s) (ProtocolAddress_toString name))"

definition ms_savePreKey :: "int \<Rightarrow> pre_key_record \<Rightarrow> (mem_store, unit) op" where
  "ms_savePreKey i r = modify (\<lambda>s. s\<lparr>ms_preKeys := map_set i r (ms_preKeys s)\<rparr>)"

definition ms_getPreKey :: "int \<Rightarrow> (mem_store, pre_key_record) op" where
  "ms_getPreKey i =
     andThen (gets (\<lambda>s. map_get (ms_preKeys s) i)) (\<lambda>r.
     case r of None \<Rightarrow> throw (fault InvalidKeyId (js ''no prekey '' @ decimal i)) | Some x \<Rightarrow> ret x)"

definition ms_removePreKey :: "int \<Rightarrow> (mem_store, unit) op" where
  "ms_removePreKey i = modify (\<lambda>s. s\<lparr>ms_preKeys := map_delete i (ms_preKeys s)\<rparr>)"

definition ms_saveSignedPreKey :: "int \<Rightarrow> signed_record \<Rightarrow> (mem_store, unit) op" where
  "ms_saveSignedPreKey i r = modify (\<lambda>s. s\<lparr>ms_signedPreKeys := map_set i r (ms_signedPreKeys s)\<rparr>)"

definition ms_getSignedPreKey :: "int \<Rightarrow> (mem_store, signed_record) op" where
  "ms_getSignedPreKey i =
     andThen (gets (\<lambda>s. map_get (ms_signedPreKeys s) i)) (\<lambda>r.
     case r of None \<Rightarrow> throw (fault InvalidKeyId (js ''no signed prekey '' @ decimal i)) | Some x \<Rightarrow> ret x)"

definition ms_saveKyberPreKey :: "int \<Rightarrow> signed_record \<Rightarrow> (mem_store, unit) op" where
  "ms_saveKyberPreKey i r = modify (\<lambda>s. s\<lparr>ms_kyberPreKeys := map_set i r (ms_kyberPreKeys s)\<rparr>)"

definition ms_getKyberPreKey :: "int \<Rightarrow> (mem_store, signed_record) op" where
  "ms_getKyberPreKey i =
     andThen (gets (\<lambda>s. map_get (ms_kyberPreKeys s) i)) (\<lambda>r.
     case r of None \<Rightarrow> throw (fault InvalidKeyId (js ''no kyber prekey '' @ decimal i)) | Some x \<Rightarrow> ret x)"

definition ms_markKyberPreKeyUsed :: "int \<Rightarrow> int \<Rightarrow> public_key \<Rightarrow> (mem_store, unit) op" where
  "ms_markKyberPreKeyUsed i signedPreKeyId baseKey =
     modify (\<lambda>s. s\<lparr>ms_kyberUsed := set_add i (ms_kyberUsed s)\<rparr>)"

definition ms_hasKyberPreKeyBeenUsed :: "int \<Rightarrow> (mem_store, bool) op" where
  "ms_hasKyberPreKeyBeenUsed i = gets (\<lambda>s. i \<in> set (ms_kyberUsed s))"

definition ms_saveSenderKey ::
    "(jsstring \<Rightarrow> jsstring) \<Rightarrow> protocol_address \<Rightarrow> jsstring \<Rightarrow> obj \<Rightarrow> (mem_store, unit) op" where
  "ms_saveSenderKey lower sender distributionId r =
     modify (\<lambda>s. s\<lparr>ms_senderKeys := map_set (senderKeyName lower sender distributionId) r (ms_senderKeys s)\<rparr>)"

definition ms_getSenderKey ::
    "(jsstring \<Rightarrow> jsstring) \<Rightarrow> protocol_address \<Rightarrow> jsstring \<Rightarrow> (mem_store, obj option) op" where
  "ms_getSenderKey lower sender distributionId =
     gets (\<lambda>s. map_get (ms_senderKeys s) (senderKeyName lower sender distributionId))"

subsection \<open>A world with one in-memory store\<close>

text \<open>The state of the core, the clock, the record objects by reference, and the store.\<close>

record 'c world =
  core_state :: 'c
  clock_ms :: int
  objects :: "bytes list"
  mem :: mem_store

definition on_core :: "('c, 'a) op \<Rightarrow> ('c world, 'a) op" where
  "on_core m = zoom core_state (\<lambda>c w. w\<lparr>core_state := c\<rparr>) m"

definition on_mem :: "(mem_store, 'a) op \<Rightarrow> ('c world, 'a) op" where
  "on_mem m = zoom mem (\<lambda>s w. w\<lparr>mem := s\<rparr>) m"

definition world_calls :: "'c core_calls \<Rightarrow> 'c world core_calls" where
  "world_calls K =
     \<lparr>run_call = (\<lambda>name steps. on_core (run_call K name steps)),
      run_start = (\<lambda>s i r p t. on_core (run_start K s i r p t)),
      run_poolValid = (\<lambda>p. on_core (run_poolValid K p)),
      run_abiVersion = on_core (run_abiVersion K)\<rparr>"

definition mem_env :: "'c core_calls \<Rightarrow> (jsstring \<Rightarrow> jsstring) \<Rightarrow> 'c world env" where
  "mem_env K lower =
     \<lparr>calls = world_calls K,
      clock = gets clock_ms,
      obj_new = (\<lambda>b w. (Inr (length (objects w)), w\<lparr>objects := objects w @ [b]\<rparr>)),
      obj_bytes = (\<lambda>r. gets (\<lambda>w. objects w ! r)),
      obj_set = (\<lambda>r b. modify (\<lambda>w. w\<lparr>objects := (objects w)[r := b]\<rparr>)),
      lowerCase = lower\<rparr>"

definition mem_session_store :: "'c world session_store" where
  "mem_session_store =
     \<lparr>saveSession = (\<lambda>a r. sync (on_mem (ms_saveSession a r))),
      getSession = (\<lambda>a. sync (on_mem (ms_getSession a))),
      getExistingSessions = (\<lambda>as. sync (on_mem (ms_getExistingSessions as)))\<rparr>"

definition mem_identity_store :: "'c world identity_key_store" where
  "mem_identity_store =
     \<lparr>getIdentityKey = sync (on_mem ms_getIdentityKey),
      getLocalRegistrationId = sync (on_mem ms_getLocalRegistrationId),
      saveIdentity = (\<lambda>a k. sync (on_mem (ms_saveIdentity a k))),
      isTrustedIdentity = (\<lambda>a k d. sync (on_mem (ms_isTrustedIdentity a k d))),
      getIdentity = (\<lambda>a. sync (on_mem (ms_getIdentity a)))\<rparr>"

definition mem_pre_key_store :: "'c world pre_key_store" where
  "mem_pre_key_store =
     \<lparr>savePreKey = (\<lambda>i r. sync (on_mem (ms_savePreKey i r))),
      getPreKey = (\<lambda>i. sync (on_mem (ms_getPreKey i))),
      removePreKey = (\<lambda>i. sync (on_mem (ms_removePreKey i)))\<rparr>"

definition mem_signed_pre_key_store :: "'c world signed_pre_key_store" where
  "mem_signed_pre_key_store =
     \<lparr>saveSignedPreKey = (\<lambda>i r. sync (on_mem (ms_saveSignedPreKey i r))),
      getSignedPreKey = (\<lambda>i. sync (on_mem (ms_getSignedPreKey i)))\<rparr>"

definition mem_kyber_pre_key_store :: "'c world kyber_pre_key_store" where
  "mem_kyber_pre_key_store =
     \<lparr>saveKyberPreKey = (\<lambda>i r. sync (on_mem (ms_saveKyberPreKey i r))),
      getKyberPreKey = (\<lambda>i. sync (on_mem (ms_getKyberPreKey i))),
      markKyberPreKeyUsed = (\<lambda>i s k. sync (on_mem (ms_markKyberPreKeyUsed i s k)))\<rparr>"

definition mem_sender_key_store :: "(jsstring \<Rightarrow> jsstring) \<Rightarrow> 'c world sender_key_store" where
  "mem_sender_key_store lower =
     \<lparr>saveSenderKey = (\<lambda>a d r. sync (on_mem (ms_saveSenderKey lower a d r))),
      getSenderKey = (\<lambda>a d. sync (on_mem (ms_getSenderKey lower a d)))\<rparr>"

end
