(* ===== verification/Sessions.thy ===== *)
theory Sessions
  imports Stores
begin

text \<open>
  The session and group operations of \<^verbatim>\<open>sdk/ts/src/api.ts\<close> over the stores a host
  passes: \<^verbatim>\<open>processBundle\<close>, \<^verbatim>\<open>sessionEncrypt\<close>, \<^verbatim>\<open>sessionDecrypt\<close>,
  \<^verbatim>\<open>sessionDecryptPreKey\<close>, and the sender-key functions. Each is a task; every
  \<^verbatim>\<open>await\<close> of the source is an \<open>awaitT\<close>, where other calls may run.
\<close>

definition untrusted :: "protocol_address \<Rightarrow> js_error" where
  "untrusted address = fault UntrustedIdentity (js ''untrusted identity for '' @ ProtocolAddress_toString address)"

definition binding :: "protocol_address option \<Rightarrow> protocol_address option \<Rightarrow> binding" where
  "binding sender recipient =
     \<lparr>b_sender = map_option pa_name sender,
      b_senderDevice = (case sender of None \<Rightarrow> 0 | Some a \<Rightarrow> pa_deviceId a),
      b_recipient = map_option pa_name recipient,
      b_recipientDevice = (case recipient of None \<Rightarrow> 0 | Some a \<Rightarrow> pa_deviceId a)\<rparr>"

text \<open>\<^verbatim>\<open>if (!(await p)) throw e\<close>.\<close>

definition requireT :: "('w, bool) task \<Rightarrow> js_error \<Rightarrow> ('w, unit) task" where
  "requireT t e = bindT (awaitT t) (\<lambda>ok. sync (throwIf (\<not> ok) e))"

text \<open>\<^verbatim>\<open>(await p)?.bytes ?? new Uint8Array(0)\<close>.\<close>

definition bytesT :: "'w env \<Rightarrow> ('w, obj option) task \<Rightarrow> ('w, bytes) task" where
  "bytesT E t = bindT (awaitT t) (\<lambda>r. sync (case r of None \<Rightarrow> ret [] | Some x \<Rightarrow> obj_bytes E x))"

text \<open>\<^verbatim>\<open>await p\<close> of a record a store may not have.\<close>

definition foundT :: "('w, 'a option) task \<Rightarrow> js_error \<Rightarrow> ('w, 'a) task" where
  "foundT t e = bindT (awaitT t) (\<lambda>r. sync (case r of None \<Rightarrow> throw e | Some x \<Rightarrow> ret x))"

text \<open>\<^verbatim>\<open>await store.saveSession(address, SessionRecord.unchecked(record))\<close>.\<close>

definition save_new :: "'w env \<Rightarrow> 'w session_store \<Rightarrow> protocol_address \<Rightarrow> bytes \<Rightarrow> ('w, unit) task" where
  "save_new E SS address record1 =
     bindT (sync (SessionRecord_unchecked E record1)) (\<lambda>r. awaitT (saveSession SS address r))"

definition published_of :: "pre_key_bundle \<Rightarrow> published" where
  "published_of bundle =
     \<lparr>p_registrationId = pb_registrationId bundle, p_device = pb_deviceId bundle,
      p_oneTimeId = pb_preKeyId bundle, p_oneTime = map_option pk_bytes (pb_preKey bundle),
      p_signedId = pb_signedPreKeyId bundle, p_signedKey = pk_bytes (pb_signedPreKey bundle),
      p_signedSignature = pb_signedPreKeySignature bundle, p_identity = pk_bytes (pb_identityKey bundle),
      p_pqId = pb_kyberPreKeyId bundle, p_pqKey = kp_bytes (pb_kyberPreKey bundle),
      p_pqSignature = pb_kyberPreKeySignature bundle\<rparr>"

definition processBundle ::
    "'w env \<Rightarrow> pre_key_bundle \<Rightarrow> protocol_address \<Rightarrow> 'w session_store \<Rightarrow> 'w identity_key_store \<Rightarrow>
      int option \<Rightarrow> ('w, unit) task" where
  "processBundle E bundle address SS IS now =
     bindT (sync (date_or_now E now)) (\<lambda>date.
     bindT (requireT (isTrustedIdentity IS address (pb_identityKey bundle) Sending) (untrusted address)) (\<lambda>_.
     bindT (awaitT (getIdentityKey IS)) (\<lambda>identity.
     bindT (awaitT (getLocalRegistrationId IS)) (\<lambda>registrationId.
     bindT (bytesT E (getSession SS address)) (\<lambda>existing.
     bindT (sync (core_sessionStart (calls E) (sk_bytes identity) registrationId existing
                   (published_of bundle) (nowSecs date))) (\<lambda>record1.
     bindT (awaitT (saveIdentity IS address (pb_identityKey bundle))) (\<lambda>_.
     save_new E SS address record1)))))))"

definition sessionEncrypt ::
    "'w env \<Rightarrow> bytes \<Rightarrow> protocol_address \<Rightarrow> 'w session_store \<Rightarrow> 'w identity_key_store \<Rightarrow> int option \<Rightarrow>
      protocol_address option \<Rightarrow> ('w, ciphertext_message) task" where
  "sessionEncrypt E message address SS IS now localAddress =
     bindT (sync (date_or_now E now)) (\<lambda>date.
     bindT (foundT (getSession SS address) (no_session address)) (\<lambda>session.
     bindT (sync (obj_bytes E session)) (\<lambda>b.
     bindT (sync (core_sessionSeal (calls E) b message (nowSecs date) (binding localAddress (Some address)))) (\<lambda>s.
     bindT (sync (core_sessionInfo (calls E) (sl_record s) (nowSecs date))) (\<lambda>info.
     bindT (requireT (isTrustedIdentity IS address (PublicKey_unchecked (remoteIdentity info)) Sending)
              (untrusted address)) (\<lambda>_.
     bindT (save_new E SS address (sl_record s)) (\<lambda>_.
     sync (ret (CiphertextMessage (sl_kind s) (sl_sealed s))))))))))"

definition commit ::
    "'w env \<Rightarrow> bytes \<Rightarrow> protocol_address \<Rightarrow> 'w session_store \<Rightarrow> 'w identity_key_store \<Rightarrow> ('w, unit) task" where
  "commit E record1 address SS IS =
     bindT (sync (clock E)) (\<lambda>date.
     bindT (sync (core_sessionInfo (calls E) record1 (nowSecs date))) (\<lambda>info.
     bindT (requireT (isTrustedIdentity IS address (PublicKey_unchecked (remoteIdentity info)) Receiving)
              (untrusted address)) (\<lambda>_.
     bindT (awaitT (saveIdentity IS address (PublicKey_unchecked (remoteIdentity info)))) (\<lambda>_.
     save_new E SS address record1))))"

definition sessionDecrypt ::
    "'w env \<Rightarrow> whisper_message \<Rightarrow> protocol_address \<Rightarrow> 'w session_store \<Rightarrow> 'w identity_key_store \<Rightarrow>
      protocol_address option \<Rightarrow> ('w, bytes) task" where
  "sessionDecrypt E message address SS IS localAddress =
     bindT (foundT (getSession SS address) (no_session address)) (\<lambda>session.
     bindT (sync (obj_bytes E session)) (\<lambda>b.
     bindT (sync (core_sessionOpen (calls E) b (wm_bytes message) (binding (Some address) localAddress)))
       (\<lambda>(plain, record1).
     bindT (awaitT (commit E record1 address SS IS)) (\<lambda>_.
     sync (ret plain)))))"

definition sessionDecryptPreKey ::
    "'w env \<Rightarrow> pre_key_message \<Rightarrow> protocol_address \<Rightarrow> 'w session_store \<Rightarrow> 'w identity_key_store \<Rightarrow>
      'w pre_key_store \<Rightarrow> 'w signed_pre_key_store \<Rightarrow> 'w kyber_pre_key_store \<Rightarrow> protocol_address option \<Rightarrow>
      ('w, bytes) task" where
  "sessionDecryptPreKey E message address SS IS PS SPS KPS localAddress =
     bindT (requireT (isTrustedIdentity IS address (PreKeyMessage_identityKey message) Receiving)
              (untrusted address)) (\<lambda>_.
     bindT (awaitT (getIdentityKey IS)) (\<lambda>identity.
     bindT (awaitT (getLocalRegistrationId IS)) (\<lambda>registrationId.
     bindT (bytesT E (getSession SS address)) (\<lambda>existing.
     bindT (awaitT (getSignedPreKey SPS (PreKeyMessage_signedPreKeyId message))) (\<lambda>signed.
     let oneTimeId = PreKeyMessage_preKeyId message; pqId = PreKeyMessage_kyberPreKeyId message in
     bindT (case oneTimeId of None \<Rightarrow> sync (ret [])
              | Some i \<Rightarrow> bindT (awaitT (getPreKey PS i)) (\<lambda>r. sync (ret (pr_bytes r)))) (\<lambda>oneTime.
     bindT (case pqId of None \<Rightarrow> sync (ret [])
              | Some i \<Rightarrow> bindT (awaitT (getKyberPreKey KPS i)) (\<lambda>r. sync (ret (sr_bytes r)))) (\<lambda>pq.
     bindT (sync (core_sessionOpenFirst (calls E) (sk_bytes identity) registrationId existing
              (pm_bytes message) (sr_bytes signed) oneTime pq (binding (Some address) localAddress))) (\<lambda>opened.
     bindT (awaitT (commit E (op_record opened) address SS IS)) (\<lambda>_.
     bindT (if c_used (op_consumed opened)
            then bindT (case c_oneTimeId (op_consumed opened) of None \<Rightarrow> sync (ret ())
                          | Some i \<Rightarrow> awaitT (removePreKey PS i)) (\<lambda>_.
                 case pqId of None \<Rightarrow> sync (ret ())
                   | Some i \<Rightarrow> awaitT (markKyberPreKeyUsed KPS i (c_signedId (op_consumed opened))
                                  (PublicKey_unchecked (c_base (op_consumed opened)))))
            else sync (ret ())) (\<lambda>_.
     sync (ret (op_plain opened))))))))))))"

subsection \<open>Groups\<close>

definition no_sender_key :: "protocol_address \<Rightarrow> jsstring \<Rightarrow> js_error" where
  "no_sender_key sender distributionId =
     fault SessionNotFound (js ''no sender key for '' @ ProtocolAddress_toString sender @ js '' in '' @ distributionId)"

definition save_sender_key ::
    "'w env \<Rightarrow> 'w sender_key_store \<Rightarrow> protocol_address \<Rightarrow> jsstring \<Rightarrow> bytes \<Rightarrow> ('w, unit) task" where
  "save_sender_key E KS sender distributionId record1 =
     bindT (sync (SenderKeyRecord_unchecked E record1)) (\<lambda>r. awaitT (saveSenderKey KS sender distributionId r))"

definition SenderKeyDistributionMessage_create ::
    "'w env \<Rightarrow> protocol_address \<Rightarrow> jsstring \<Rightarrow> 'w sender_key_store \<Rightarrow> ('w, distribution_message) task" where
  "SenderKeyDistributionMessage_create E sender distributionId KS =
     bindT (bytesT E (getSenderKey KS sender distributionId)) (\<lambda>existing.
     bindT (sync (pureOp (uuidToBytes distributionId))) (\<lambda>circleId.
     bindT (sync (core_circleAnnounce (calls E) existing circleId)) (\<lambda>(record1, announce).
     bindT (save_sender_key E KS sender distributionId record1) (\<lambda>_.
     sync (SenderKeyDistributionMessage_make (calls E) announce)))))"

definition processSenderKeyDistributionMessage ::
    "'w env \<Rightarrow> protocol_address \<Rightarrow> distribution_message \<Rightarrow> 'w sender_key_store \<Rightarrow> ('w, unit) task" where
  "processSenderKeyDistributionMessage E sender message KS =
     bindT (bytesT E (getSenderKey KS sender (dm_distributionId message))) (\<lambda>existing.
     bindT (sync (core_circleAdmit (calls E) existing (dm_bytes message))) (\<lambda>record1.
     save_sender_key E KS sender (dm_distributionId message) record1))"

definition groupEncrypt ::
    "'w env \<Rightarrow> protocol_address \<Rightarrow> jsstring \<Rightarrow> 'w sender_key_store \<Rightarrow> bytes \<Rightarrow> ('w, ciphertext_message) task" where
  "groupEncrypt E sender distributionId KS message =
     bindT (foundT (getSenderKey KS sender distributionId) (no_sender_key sender distributionId)) (\<lambda>r.
     bindT (sync (obj_bytes E r)) (\<lambda>b.
     bindT (sync (pureOp (uuidToBytes distributionId))) (\<lambda>circleId.
     bindT (sync (core_circleSeal (calls E) b circleId message)) (\<lambda>(note1, updated).
     bindT (save_sender_key E KS sender distributionId updated) (\<lambda>_.
     sync (ret (CiphertextMessage (CiphertextMessageType SenderKeyKind) note1)))))))"

definition groupDecrypt ::
    "'w env \<Rightarrow> protocol_address \<Rightarrow> 'w sender_key_store \<Rightarrow> bytes \<Rightarrow> ('w, bytes) task" where
  "groupDecrypt E sender KS message =
     bindT (sync (core_noteParse (calls E) message)) (\<lambda>(parsed, body).
     bindT (sync (pureOp (bytesToUuid (no_circleId parsed)))) (\<lambda>distributionId.
     bindT (foundT (getSenderKey KS sender distributionId) (no_sender_key sender distributionId)) (\<lambda>r.
     bindT (sync (obj_bytes E r)) (\<lambda>b.
     bindT (sync (core_circleOpen (calls E) b message)) (\<lambda>(plain, updated).
     bindT (save_sender_key E KS sender distributionId updated) (\<lambda>_.
     sync (ret plain)))))))"

end
