(* ===== verification/Store_Laws.thy ===== *)
theory Store_Laws
  imports Sessions
begin

text \<open>
  What the session operations rely on from a host: the laws of its stores (a session saved for an
  address is the session loaded for it, a trust decision does not depend on more than the known
  identities, nothing else moves), stated over views of the host's world; the effect of every
  session operation, proved once from these laws; and the interpretation on
  \<open>InMemoryProtocolStore\<close>.
\<close>

abbreviation key_of :: "protocol_address \<Rightarrow> jsstring" where
  "key_of a \<equiv> ProtocolAddress_toString a"

lemma andThen_cases:
  assumes "andThen m k s = (r, s')"
  obtains (fails) e where "m s = (Inl e, s')" "r = Inl e"
    | (goes) x s1 where "m s = (Inr x, s1)" "k x s1 = (r, s')"
  using assms by (auto simp: andThen_def split: prod.splits sum.splits)

lemma pair_run: "pair K n st w = (r, w') \<Longrightarrow> \<exists>r0. run_call K n st w = (r0, w')"
  by (auto simp: pair_def finish_def andThen_def split: prod.splits sum.splits)

lemma first_run: "first K n st w = (r, w') \<Longrightarrow> \<exists>r0. run_call K n st w = (r0, w')"
  by (auto simp: first_def finish_def andThen_def split: prod.splits sum.splits)

lemma finish_run: "finish K n st rd w = (r, w') \<Longrightarrow> \<exists>r0. run_call K n st w = (r0, w')"
  by (auto simp: finish_def andThen_def split: prod.splits sum.splits)

lemmas core_runs = pair_run first_run finish_run

lemmas core_ops = core_sessionInfo_def core_sessionSeal_def core_sessionOpen_def core_sessionOpenFirst_def
  core_sessionStart_def

locale session_host =
  fixes E :: "'w env" and SS :: "'w session_store" and IS :: "'w identity_key_store"
    and wf :: "'w \<Rightarrow> bool"
    and sess :: "'w \<Rightarrow> jsstring \<Rightarrow> bytes option"
    and known :: "'w \<Rightarrow> jsstring \<Rightarrow> public_key option"
    and others :: "'w \<Rightarrow> 'r"
    and trusts :: "(jsstring \<Rightarrow> public_key option) \<Rightarrow> jsstring \<Rightarrow> public_key \<Rightarrow> bool"
  assumes load_none: "wf w \<Longrightarrow> sess w (key_of a) = None \<Longrightarrow> runT (getSession SS a) w = (Inr None, w)"
    and load_some: "wf w \<Longrightarrow> sess w (key_of a) = Some b \<Longrightarrow>
      \<exists>r. runT (getSession SS a) w = (Inr (Some r), w) \<and> obj_bytes E r w = (Inr b, w)"
    and save: "wf w \<Longrightarrow> \<exists>w'. runT (save_new E SS a b) w = (Inr (), w') \<and> wf w' \<and>
      sess w' = (sess w)(key_of a \<mapsto> b) \<and> known w' = known w \<and> others w' = others w"
    and trusted: "wf w \<Longrightarrow> runT (isTrustedIdentity IS a k d) w = (Inr (trusts (known w) (key_of a) k), w)"
    and remember: "wf w \<Longrightarrow> \<exists>c w'. runT (saveIdentity IS a k) w = (Inr c, w') \<and> wf w' \<and>
      sess w' = sess w \<and> known w' = (known w)(key_of a \<mapsto> k) \<and> others w' = others w"
    and own_key: "wf w \<Longrightarrow> \<exists>k. runT (getIdentityKey IS) w = (Inr k, w)"
    and own_id: "wf w \<Longrightarrow> \<exists>i. runT (getLocalRegistrationId IS) w = (Inr i, w)"
    and time: "wf w \<Longrightarrow> \<exists>t. clock E w = (Inr t, w)"
    and core_frame: "wf w \<Longrightarrow> run_call (calls E) n st w = (r0, w') \<Longrightarrow>
      wf w' \<and> sess w' = sess w \<and> known w' = known w \<and> others w' = others w"
    and start_frame: "wf w \<Longrightarrow> run_start (calls E) sk i b p t w = (r1, w') \<Longrightarrow>
      wf w' \<and> sess w' = sess w \<and> known w' = known w \<and> others w' = others w"
begin

definition unmoved :: "'w \<Rightarrow> 'w \<Rightarrow> bool" where
  "unmoved w w' \<longleftrightarrow> wf w' \<and> sess w' = sess w \<and> known w' = known w \<and> others w' = others w"

lemma unmoved_refl: "wf w \<Longrightarrow> unmoved w w"
  by (simp add: unmoved_def)

lemma unmoved_trans: "unmoved w w1 \<Longrightarrow> unmoved w1 w2 \<Longrightarrow> unmoved w w2"
  by (simp add: unmoved_def)

lemma core_unmoved:
  "wf w \<Longrightarrow> core_sessionInfo (calls E) b t w = (r, w') \<Longrightarrow> unmoved w w'"
  "wf w \<Longrightarrow> core_sessionSeal (calls E) b m t bd w = (r2, w') \<Longrightarrow> unmoved w w'"
  "wf w \<Longrightarrow> core_sessionOpen (calls E) b m bd w = (r3, w') \<Longrightarrow> unmoved w w'"
  "wf w \<Longrightarrow> core_sessionOpenFirst (calls E) sk i b m s1 o1 p1 bd w = (r4, w') \<Longrightarrow> unmoved w w'"
  "wf w \<Longrightarrow> core_sessionStart (calls E) sk i b p t w = (r5, w') \<Longrightarrow> unmoved w w'"
  unfolding unmoved_def core_ops by (blast dest: core_runs core_frame start_frame)+

lemma date_unmoved: "wf w \<Longrightarrow> \<exists>t. date_or_now E now w = (Inr t, w)"
  using time by (cases now) (auto simp: date_or_now_def)

lemma require_run:
  "wf w \<Longrightarrow> runT (requireT (isTrustedIdentity IS a k d) e) w =
    (if trusts (known w) (key_of a) k then (Inr (), w) else (Inl e, w))"
  by (simp add: requireT_def task_simps andThen_def trusted)

lemma found_none: "wf w \<Longrightarrow> sess w (key_of a) = None \<Longrightarrow> runT (foundT (getSession SS a) e) w = (Inl e, w)"
  by (simp add: foundT_def task_simps andThen_def load_none)

lemma found_some:
  assumes "wf w" "sess w (key_of a) = Some b"
  shows "\<exists>r. runT (foundT (getSession SS a) e) w = (Inr r, w) \<and> obj_bytes E r w = (Inr b, w)"
  using load_some [OF assms] by (auto simp: foundT_def task_simps andThen_def)

lemma bytes_run:
  "wf w \<Longrightarrow> runT (bytesT E (getSession SS a)) w = (Inr (case sess w (key_of a) of None \<Rightarrow> [] | Some b \<Rightarrow> b), w)"
  using load_none [of w a] load_some [of w a]
  by (cases "sess w (key_of a)") (auto simp: bytesT_def task_simps andThen_def)

text \<open>A session advanced: the record of one address replaced, the identities as given.\<close>

definition advanced :: "'w \<Rightarrow> jsstring \<Rightarrow> bytes \<Rightarrow> (jsstring \<Rightarrow> public_key option) \<Rightarrow> 'w \<Rightarrow> bool" where
  "advanced w a b kn w' \<longleftrightarrow> wf w' \<and> sess w' = (sess w)(a \<mapsto> b) \<and> known w' = kn \<and> others w' = others w"

lemma encrypt_effect:
  assumes wf: "wf w" and run: "runT (sessionEncrypt E message a SS IS now local) w = (r, w')"
  shows "case r of
      Inl e \<Rightarrow> unmoved w w' \<and> (sess w (key_of a) = None \<longrightarrow> e = no_session a)
    | Inr ct \<Rightarrow> (\<exists>b date s info w1 w2. sess w (key_of a) = Some b \<and>
        core_sessionSeal (calls E) b message (nowSecs date) (binding local (Some a)) w = (Inr s, w1) \<and>
        core_sessionInfo (calls E) (sl_record s) (nowSecs date) w1 = (Inr info, w2) \<and>
        trusts (known w) (key_of a) (PublicKey (remoteIdentity info)) \<and>
        ct = CiphertextMessage (sl_kind s) (sl_sealed s) \<and>
        advanced w (key_of a) (sl_record s) (known w) w')"
proof -
  obtain t where t: "date_or_now E now w = (Inr t, w)" using date_unmoved [OF wf] by blast
  show ?thesis
  proof (cases "sess w (key_of a)")
    case None
    then have "r = Inl (no_session a)" "w' = w"
      using run t found_none [OF wf None] by (simp_all add: sessionEncrypt_def task_simps andThen_def)
    then show ?thesis using wf by (simp add: unmoved_refl)
  next
    case (Some b)
    obtain x where x: "runT (foundT (getSession SS a) (no_session a)) w = (Inr x, w)" "obj_bytes E x w = (Inr b, w)"
      using found_some [OF wf Some] by blast
    obtain rs w1 where s: "core_sessionSeal (calls E) b message (nowSecs t) (binding local (Some a)) w = (rs, w1)"
      by fastforce
    note u1 = core_unmoved(2) [OF wf s]
    show ?thesis
    proof (cases rs)
      case (Inl e)
      with run t x s have "r = Inl e" "w' = w1"
        by (simp_all add: sessionEncrypt_def task_simps andThen_def)
      with u1 Some show ?thesis by simp
    next
      case (Inr sl)
      have wf1: "wf w1" using u1 by (simp add: unmoved_def)
      obtain ri w2 where i: "core_sessionInfo (calls E) (sl_record sl) (nowSecs t) w1 = (ri, w2)" by fastforce
      note u2 = core_unmoved(1) [OF wf1 i]
      have u: "unmoved w w2" using u1 u2 by (rule unmoved_trans)
      then have wf2: "wf w2" and kn: "known w2 = known w" by (simp_all add: unmoved_def)
      show ?thesis
      proof (cases ri)
        case (Inl e)
        with run t x s Inr i have "r = Inl e" "w' = w2"
          by (simp_all add: sessionEncrypt_def task_simps andThen_def)
        with u Some show ?thesis by simp
      next
        case info: (Inr info)
        note req = require_run [OF wf2, of a "PublicKey (remoteIdentity info)" Sending "untrusted a", unfolded kn]
        obtain w3 where sv: "runT (save_new E SS a (sl_record sl)) w2 = (Inr (), w3)" "wf w3"
          "sess w3 = (sess w2)(key_of a \<mapsto> sl_record sl)" "known w3 = known w2" "others w3 = others w2"
          using save [OF wf2] by blast
        have "(r, w') = (if trusts (known w) (key_of a) (PublicKey (remoteIdentity info))
            then (Inr (CiphertextMessage (sl_kind sl) (sl_sealed sl)), w3) else (Inl (untrusted a), w2))"
          using run t x s Inr i info req sv(1)
          by (simp add: sessionEncrypt_def task_simps andThen_def PublicKey_unchecked_def split: if_splits)
        then consider (no) "r = Inl (untrusted a)" "w' = w2"
          | (yes) "trusts (known w) (key_of a) (PublicKey (remoteIdentity info))"
              "r = Inr (CiphertextMessage (sl_kind sl) (sl_sealed sl))" "w' = w3"
          by (auto split: if_splits)
        then show ?thesis
        proof cases
          case no
          with u Some show ?thesis by simp
        next
          case yes
          have "advanced w (key_of a) (sl_record sl) (known w) w'"
            using u sv(2-) yes(3) by (simp add: advanced_def unmoved_def)
          with Some s Inr i info yes(1,2) show ?thesis
            by simp blast
        qed
      qed
    qed
  qed
qed

lemma commit_effect:
  assumes wf: "wf w" and run: "runT (commit E record1 a SS IS) w = (r, w')"
  shows "case r of
      Inl e \<Rightarrow> unmoved w w'
    | Inr u \<Rightarrow> (\<exists>date info w1. clock E w = (Inr date, w) \<and>
        core_sessionInfo (calls E) record1 (nowSecs date) w = (Inr info, w1) \<and>
        trusts (known w) (key_of a) (PublicKey (remoteIdentity info)) \<and>
        advanced w (key_of a) record1 ((known w)(key_of a \<mapsto> PublicKey (remoteIdentity info))) w')"
proof -
  obtain t where t: "clock E w = (Inr t, w)" using time [OF wf] by blast
  obtain ri w1 where i: "core_sessionInfo (calls E) record1 (nowSecs t) w = (ri, w1)" by fastforce
  note u = core_unmoved(1) [OF wf i]
  then have wf1: "wf w1" and kn: "known w1 = known w" by (simp_all add: unmoved_def)
  show ?thesis
  proof (cases ri)
    case (Inl e)
    with run t i have "r = Inl e" "w' = w1" by (simp_all add: commit_def task_simps andThen_def)
    with u show ?thesis by simp
  next
    case (Inr info)
    note req = require_run [OF wf1, of a "PublicKey (remoteIdentity info)" Receiving "untrusted a", unfolded kn]
    obtain c w2 where rm: "runT (saveIdentity IS a (PublicKey (remoteIdentity info))) w1 = (Inr c, w2)" "wf w2"
      "sess w2 = sess w1" "known w2 = (known w1)(key_of a \<mapsto> PublicKey (remoteIdentity info))" "others w2 = others w1"
      using remember [OF wf1] by blast
    obtain w3 where sv: "runT (save_new E SS a record1) w2 = (Inr (), w3)" "wf w3"
      "sess w3 = (sess w2)(key_of a \<mapsto> record1)" "known w3 = known w2" "others w3 = others w2"
      using save [OF rm(2)] by blast
    have "(r, w') = (if trusts (known w) (key_of a) (PublicKey (remoteIdentity info))
        then (Inr (), w3) else (Inl (untrusted a), w1))"
      using run t i Inr req rm(1) sv(1)
      by (simp add: commit_def task_simps andThen_def PublicKey_unchecked_def split: if_splits)
    then consider (no) "r = Inl (untrusted a)" "w' = w1"
      | (yes) "trusts (known w) (key_of a) (PublicKey (remoteIdentity info))" "r = Inr ()" "w' = w3"
      by (auto split: if_splits)
    then show ?thesis
    proof cases
      case no
      with u show ?thesis by simp
    next
      case yes
      have "advanced w (key_of a) record1 ((known w)(key_of a \<mapsto> PublicKey (remoteIdentity info))) w'"
        using u sv(2-) rm(2-) yes(3) by (simp add: advanced_def unmoved_def)
      with t i Inr yes(1,2) show ?thesis by auto
    qed
  qed
qed

lemma commit_moves:
  assumes "unmoved w w1" "runT (commit E record1 a SS IS) w1 = (r, w')"
  shows "case r of Inl e \<Rightarrow> unmoved w w'
    | Inr u \<Rightarrow> (\<exists>k. trusts (known w) (key_of a) k \<and> advanced w (key_of a) record1 ((known w)(key_of a \<mapsto> k)) w')"
proof -
  have wf1: "wf w1" using assms(1) by (simp add: unmoved_def)
  show ?thesis
  proof (cases r)
    case (Inl e)
    with commit_effect [OF wf1 assms(2)] assms(1) show ?thesis by (auto intro: unmoved_trans)
  next
    case (Inr u)
    with commit_effect [OF wf1 assms(2)] obtain k where
      "trusts (known w1) (key_of a) k" "advanced w1 (key_of a) record1 ((known w1)(key_of a \<mapsto> k)) w'"
      by auto
    with assms(1) have "trusts (known w) (key_of a) k \<and> advanced w (key_of a) record1 ((known w)(key_of a \<mapsto> k)) w'"
      by (simp add: unmoved_def advanced_def)
    then show ?thesis using Inr by auto
  qed
qed

lemma decrypt_effect:
  assumes wf: "wf w" and run: "runT (sessionDecrypt E message a SS IS local) w = (r, w')"
  shows "case r of
      Inl e \<Rightarrow> unmoved w w' \<and> (sess w (key_of a) = None \<longrightarrow> e = no_session a)
    | Inr plain \<Rightarrow> (\<exists>b record1 w1 k. sess w (key_of a) = Some b \<and>
        core_sessionOpen (calls E) b (wm_bytes message) (binding (Some a) local) w = (Inr (plain, record1), w1) \<and>
        trusts (known w) (key_of a) k \<and>
        advanced w (key_of a) record1 ((known w)(key_of a \<mapsto> k)) w')"
proof (cases "sess w (key_of a)")
  case None
  then have "r = Inl (no_session a)" "w' = w"
    using run found_none [OF wf None] by (simp_all add: sessionDecrypt_def task_simps andThen_def)
  then show ?thesis using wf by (simp add: unmoved_refl)
next
  case (Some b)
  obtain x where x: "runT (foundT (getSession SS a) (no_session a)) w = (Inr x, w)" "obj_bytes E x w = (Inr b, w)"
    using found_some [OF wf Some] by blast
  obtain ro w1 where o: "core_sessionOpen (calls E) b (wm_bytes message) (binding (Some a) local) w = (ro, w1)"
    by fastforce
  note u = core_unmoved(3) [OF wf o]
  show ?thesis
  proof (cases ro)
    case (Inl e)
    with run x o have "r = Inl e" "w' = w1" by (simp_all add: sessionDecrypt_def task_simps andThen_def)
    with u Some show ?thesis by simp
  next
    case (Inr po)
    obtain plain record1 where po: "po = (plain, record1)" by (cases po)
    obtain rc w2 where c: "runT (commit E record1 a SS IS) w1 = (rc, w2)" by fastforce
    have "(r, w') = (case rc of Inl e \<Rightarrow> (Inl e, w2) | Inr _ \<Rightarrow> (Inr plain, w2))"
      using run x o Inr po c by (simp add: sessionDecrypt_def task_simps andThen_def split: sum.splits)
    with commit_moves [OF u c] Some o Inr po show ?thesis by (cases rc) auto
  qed
qed

text \<open>Starting a session from a bundle: nothing moves unless the bundle's identity is trusted and
  the core accepts the bundle, and then the identity and the new record are stored.\<close>

lemma bundle_effect:
  assumes wf: "wf w" and run: "runT (processBundle E bundle a SS IS now) w = (r, w')"
  shows "case r of
      Inl e \<Rightarrow> unmoved w w' \<and> (\<not> trusts (known w) (key_of a) (pb_identityKey bundle) \<longrightarrow> e = untrusted a)
    | Inr u \<Rightarrow> (\<exists>sk i date record1 w1. trusts (known w) (key_of a) (pb_identityKey bundle) \<and>
        core_sessionStart (calls E) sk i (case sess w (key_of a) of None \<Rightarrow> [] | Some b \<Rightarrow> b)
          (published_of bundle) (nowSecs date) w = (Inr record1, w1) \<and>
        advanced w (key_of a) record1 ((known w)(key_of a \<mapsto> pb_identityKey bundle)) w')"
proof -
  obtain t where t: "date_or_now E now w = (Inr t, w)" using date_unmoved [OF wf] by blast
  obtain sk where sk: "runT (getIdentityKey IS) w = (Inr sk, w)" using own_key [OF wf] by blast
  obtain i where i: "runT (getLocalRegistrationId IS) w = (Inr i, w)" using own_id [OF wf] by blast
  note req = require_run [OF wf, of a "pb_identityKey bundle" Sending "untrusted a"]
  define ex where "ex = (case sess w (key_of a) of None \<Rightarrow> [] | Some b \<Rightarrow> b)"
  note ld = bytes_run [OF wf, of a, folded ex_def]
  show ?thesis
  proof (cases "trusts (known w) (key_of a) (pb_identityKey bundle)")
    case False
    with run t req have "r = Inl (untrusted a)" "w' = w"
      by (simp_all add: processBundle_def task_simps andThen_def)
    with wf show ?thesis by (simp add: unmoved_refl)
  next
    case True
    obtain rs w1 where st: "core_sessionStart (calls E) (sk_bytes sk) i ex (published_of bundle) (nowSecs t) w = (rs, w1)"
      by fastforce
    note u = core_unmoved(5) [OF wf st]
    then have wf1: "wf w1" by (simp add: unmoved_def)
    show ?thesis
    proof (cases rs)
      case (Inl e)
      with run t req True sk i ld st have "r = Inl e" "w' = w1"
        by (simp_all add: processBundle_def task_simps andThen_def)
      with u True show ?thesis by simp
    next
      case (Inr record1)
      obtain c w2 where rm: "runT (saveIdentity IS a (pb_identityKey bundle)) w1 = (Inr c, w2)" "wf w2"
        "sess w2 = sess w1" "known w2 = (known w1)(key_of a \<mapsto> pb_identityKey bundle)" "others w2 = others w1"
        using remember [OF wf1] by blast
      obtain w3 where sv: "runT (save_new E SS a record1) w2 = (Inr (), w3)" "wf w3"
        "sess w3 = (sess w2)(key_of a \<mapsto> record1)" "known w3 = known w2" "others w3 = others w2"
        using save [OF rm(2)] by blast
      have "r = Inr ()" "w' = w3"
        using run t req True sk i ld st Inr rm(1) sv(1) by (simp_all add: processBundle_def task_simps andThen_def)
      moreover have "advanced w (key_of a) record1 ((known w)(key_of a \<mapsto> pb_identityKey bundle)) w3"
        using u sv(2-) rm(2-) by (simp add: advanced_def unmoved_def)
      ultimately show ?thesis using True st [unfolded ex_def] Inr by (simp, blast)
    qed
  qed
qed

end

text \<open>The stores of a recipient of first messages: the one-time keys, the signed keys, the kyber
  keys and the set of kyber keys used are read off \<open>others\<close>.\<close>

locale prekey_host = session_host +
  fixes PS :: "'a pre_key_store" and SPS :: "'a signed_pre_key_store" and KPS :: "'a kyber_pre_key_store"
    and one_time :: "'b \<Rightarrow> int \<Rightarrow> pre_key_record option"
    and signed_key :: "'b \<Rightarrow> int \<Rightarrow> signed_record option"
    and kyber_key :: "'b \<Rightarrow> int \<Rightarrow> signed_record option"
    and used_kyber :: "'b \<Rightarrow> int set"
  assumes get_one_time: "wf w \<Longrightarrow> (case one_time (others w) i of
        None \<Rightarrow> \<exists>e. runT (getPreKey PS i) w = (Inl e, w) | Some x \<Rightarrow> runT (getPreKey PS i) w = (Inr x, w))"
    and remove_one_time: "wf w \<Longrightarrow> \<exists>w'. runT (removePreKey PS i) w = (Inr (), w') \<and> wf w' \<and> sess w' = sess w \<and>
        known w' = known w \<and> one_time (others w') = (one_time (others w))(i := None) \<and>
        signed_key (others w') = signed_key (others w) \<and> kyber_key (others w') = kyber_key (others w) \<and>
        used_kyber (others w') = used_kyber (others w)"
    and get_signed: "wf w \<Longrightarrow> (case signed_key (others w) i of
        None \<Rightarrow> \<exists>e. runT (getSignedPreKey SPS i) w = (Inl e, w) | Some y \<Rightarrow> runT (getSignedPreKey SPS i) w = (Inr y, w))"
    and get_kyber: "wf w \<Longrightarrow> (case kyber_key (others w) i of
        None \<Rightarrow> \<exists>e. runT (getKyberPreKey KPS i) w = (Inl e, w) | Some y \<Rightarrow> runT (getKyberPreKey KPS i) w = (Inr y, w))"
    and mark_kyber: "wf w \<Longrightarrow> \<exists>w'. runT (markKyberPreKeyUsed KPS i j kk) w = (Inr (), w') \<and> wf w' \<and> sess w' = sess w \<and>
        known w' = known w \<and> one_time (others w') = one_time (others w) \<and>
        signed_key (others w') = signed_key (others w) \<and> kyber_key (others w') = kyber_key (others w) \<and>
        used_kyber (others w') = insert i (used_kyber (others w))"
begin

text \<open>The two optional fetches: the bytes handed to the core.\<close>

definition fetched :: "('k \<Rightarrow> 'v option) \<Rightarrow> ('v \<Rightarrow> bytes) \<Rightarrow> 'k option \<Rightarrow> bytes \<Rightarrow> bool" where
  "fetched m f i b = (case i of None \<Rightarrow> b = [] | Some j \<Rightarrow> \<exists>v. m j = Some v \<and> b = f v)"

lemma fetch_one_time:
  assumes "wf w" "runT (case i of None \<Rightarrow> sync (ret []) | Some j \<Rightarrow> bindT (awaitT (getPreKey PS j)) (\<lambda>r. sync (ret (pr_bytes r)))) w = (r, w')"
  shows "w' = w \<and> (case r of Inl e \<Rightarrow> True | Inr b \<Rightarrow> fetched (one_time (others w)) pr_bytes i b)"
proof (cases i)
  case None
  with assms show ?thesis by (auto simp: task_simps fetched_def)
next
  case (Some j)
  with assms get_one_time [OF assms(1), of j] show ?thesis
    by (cases "one_time (others w) j") (auto simp: task_simps fetched_def andThen_def)
qed

lemma fetch_kyber:
  assumes "wf w" "runT (case i of None \<Rightarrow> sync (ret []) | Some j \<Rightarrow> bindT (awaitT (getKyberPreKey KPS j)) (\<lambda>r. sync (ret (sr_bytes r)))) w = (r, w')"
  shows "w' = w \<and> (case r of Inl e \<Rightarrow> True | Inr b \<Rightarrow> fetched (kyber_key (others w)) sr_bytes i b)"
proof (cases i)
  case None
  with assms show ?thesis by (auto simp: task_simps fetched_def)
next
  case (Some j)
  with assms get_kyber [OF assms(1), of j] show ?thesis
    by (cases "kyber_key (others w) j") (auto simp: task_simps fetched_def andThen_def)
qed

text \<open>The clean-up after a first message.\<close>

definition consumed_keys :: "consumed \<Rightarrow> int option \<Rightarrow> 'a \<Rightarrow> 'a \<Rightarrow> bool" where
  "consumed_keys c pqId w w' \<longleftrightarrow> wf w' \<and> sess w' = sess w \<and> known w' = known w \<and>
     one_time (others w') = (case c_oneTimeId c of
        Some i \<Rightarrow> if c_used c then (one_time (others w))(i := None) else one_time (others w)
      | None \<Rightarrow> one_time (others w)) \<and>
     used_kyber (others w') = (case pqId of
        Some i \<Rightarrow> if c_used c then insert i (used_kyber (others w)) else used_kyber (others w)
      | None \<Rightarrow> used_kyber (others w)) \<and>
     signed_key (others w') = signed_key (others w) \<and> kyber_key (others w') = kyber_key (others w)"

lemma consume_run:
  assumes wf: "wf w"
  shows "\<exists>w'. runT (if c_used c
            then bindT (case c_oneTimeId c of None \<Rightarrow> sync (ret ()) | Some i \<Rightarrow> awaitT (removePreKey PS i)) (\<lambda>_.
                 case pqId of None \<Rightarrow> sync (ret ())
                   | Some i \<Rightarrow> awaitT (markKyberPreKeyUsed KPS i (c_signedId c) (PublicKey_unchecked (c_base c))))
            else sync (ret ())) w = (Inr (), w') \<and> consumed_keys c pqId w w'"
proof (cases "c_used c")
  case False
  then show ?thesis using wf by (auto simp: task_simps consumed_keys_def split: option.splits)
next
  case True
  obtain w1 where 1: "runT (case c_oneTimeId c of None \<Rightarrow> sync (ret ()) | Some i \<Rightarrow> awaitT (removePreKey PS i)) w = (Inr (), w1)"
    "wf w1" "sess w1 = sess w" "known w1 = known w" "signed_key (others w1) = signed_key (others w)"
    "kyber_key (others w1) = kyber_key (others w)" "used_kyber (others w1) = used_kyber (others w)"
    "one_time (others w1) = (case c_oneTimeId c of Some i \<Rightarrow> (one_time (others w))(i := None) | None \<Rightarrow> one_time (others w))"
    using wf remove_one_time [OF wf] by (cases "c_oneTimeId c") (auto simp: task_simps)
  obtain w2 where 2: "runT (case pqId of None \<Rightarrow> sync (ret ())
       | Some i \<Rightarrow> awaitT (markKyberPreKeyUsed KPS i (c_signedId c) (PublicKey_unchecked (c_base c)))) w1 = (Inr (), w2)"
    "wf w2" "sess w2 = sess w1" "known w2 = known w1" "signed_key (others w2) = signed_key (others w1)"
    "kyber_key (others w2) = kyber_key (others w1)" "one_time (others w2) = one_time (others w1)"
    "used_kyber (others w2) = (case pqId of Some i \<Rightarrow> insert i (used_kyber (others w1)) | None \<Rightarrow> used_kyber (others w1))"
    using 1(2) mark_kyber [OF 1(2), of "the pqId" "c_signedId c" "PublicKey_unchecked (c_base c)"]
    by (cases pqId) (auto simp: task_simps)
  have "consumed_keys c pqId w w2"
    using 1(2-) 2(2-) True by (auto simp: consumed_keys_def split: option.splits)
  with 1(1) 2(1) True show ?thesis by (auto simp: task_simps andThen_def)
qed

text \<open>The bytes of the keys a first message names, and the state after it.\<close>

definition first_message_keys :: "'a \<Rightarrow> pre_key_message \<Rightarrow> bytes \<Rightarrow> bytes \<Rightarrow> bytes \<Rightarrow> bool" where
  "first_message_keys w message sgd oneTime pq \<longleftrightarrow>
     (\<exists>x. signed_key (others w) (PreKeyMessage_signedPreKeyId message) = Some x \<and> sgd = sr_bytes x) \<and>
     fetched (one_time (others w)) pr_bytes (PreKeyMessage_preKeyId message) oneTime \<and>
     fetched (kyber_key (others w)) sr_bytes (PreKeyMessage_kyberPreKeyId message) pq"

definition first_message_done :: "'a \<Rightarrow> pre_key_message \<Rightarrow> jsstring \<Rightarrow> opened_parts \<Rightarrow> public_key \<Rightarrow> 'a \<Rightarrow> bool" where
  "first_message_done w message ka opened k w' \<longleftrightarrow>
     (let c = op_consumed opened; pqId = PreKeyMessage_kyberPreKeyId message in
      wf w' \<and> sess w' = (sess w)(ka \<mapsto> op_record opened) \<and> known w' = (known w)(ka \<mapsto> k) \<and>
      one_time (others w') = (case c_oneTimeId c of
        Some i \<Rightarrow> if c_used c then (one_time (others w))(i := None) else one_time (others w)
      | None \<Rightarrow> one_time (others w)) \<and>
      used_kyber (others w') = (case pqId of
        Some i \<Rightarrow> if c_used c then insert i (used_kyber (others w)) else used_kyber (others w)
      | None \<Rightarrow> used_kyber (others w)) \<and>
      signed_key (others w') = signed_key (others w) \<and> kyber_key (others w') = kyber_key (others w))"

lemma decryptPreKey_effect:
  assumes wf: "wf w"
    and run: "runT (sessionDecryptPreKey E message a SS IS PS SPS KPS local) w = (r, w')"
  shows "case r of
      Inl e \<Rightarrow> unmoved w w' \<and>
        (\<not> trusts (known w) (key_of a) (PreKeyMessage_identityKey message) \<longrightarrow> e = untrusted a)
    | Inr plain \<Rightarrow> (\<exists>sk i signed oneTime pq opened w1 k.
        trusts (known w) (key_of a) (PreKeyMessage_identityKey message) \<and>
        first_message_keys w message signed oneTime pq \<and>
        core_sessionOpenFirst (calls E) sk i (case sess w (key_of a) of None \<Rightarrow> [] | Some b \<Rightarrow> b)
          (pm_bytes message) signed oneTime pq (binding (Some a) local) w = (Inr opened, w1) \<and>
        plain = op_plain opened \<and> trusts (known w) (key_of a) k \<and>
        first_message_done w message (key_of a) opened k w')"
proof (cases "trusts (known w) (key_of a) (PreKeyMessage_identityKey message)")
  case False
  with run require_run [OF wf, of a "PreKeyMessage_identityKey message" Receiving "untrusted a"]
  have "r = Inl (untrusted a)" "w' = w" by (simp_all add: sessionDecryptPreKey_def task_simps andThen_def)
  with wf show ?thesis by (simp add: unmoved_refl)
next
  case True
  note req = require_run [OF wf, of a "PreKeyMessage_identityKey message" Receiving "untrusted a"]
  obtain sk where sk: "runT (getIdentityKey IS) w = (Inr sk, w)" using own_key [OF wf] by blast
  obtain i where i: "runT (getLocalRegistrationId IS) w = (Inr i, w)" using own_id [OF wf] by blast
  define ex where "ex = (case sess w (key_of a) of None \<Rightarrow> [] | Some b \<Rightarrow> b)"
  note ld = bytes_run [OF wf, of a, folded ex_def]
  define pqT where "pqT = (case PreKeyMessage_kyberPreKeyId message of None \<Rightarrow> sync (ret [])
       | Some j \<Rightarrow> bindT (awaitT (getKyberPreKey KPS j)) (\<lambda>r. sync (ret (sr_bytes r))))"
  define otT where "otT = (case PreKeyMessage_preKeyId message of None \<Rightarrow> sync (ret [])
       | Some j \<Rightarrow> bindT (awaitT (getPreKey PS j)) (\<lambda>r. sync (ret (pr_bytes r))))"
  define useT where "useT = (\<lambda>opened :: opened_parts. if c_used (op_consumed opened)
            then bindT (case c_oneTimeId (op_consumed opened) of None \<Rightarrow> sync (ret ())
                          | Some i \<Rightarrow> awaitT (removePreKey PS i)) (\<lambda>_.
                 case PreKeyMessage_kyberPreKeyId message of None \<Rightarrow> sync (ret ())
                   | Some i \<Rightarrow> awaitT (markKyberPreKeyUsed KPS i (c_signedId (op_consumed opened))
                                  (PublicKey_unchecked (c_base (op_consumed opened)))))
            else sync (ret ()))"
  note prog = sessionDecryptPreKey_def [of E message a SS IS PS SPS KPS local, unfolded Let_def,
      folded pqT_def otT_def]
  obtain rs ws where sg: "runT (getSignedPreKey SPS (PreKeyMessage_signedPreKeyId message)) w = (rs, ws)" by fastforce
  have ws: "ws = w" and signed: "rs = Inr x \<Longrightarrow> signed_key (others w) (PreKeyMessage_signedPreKeyId message) = Some x" for x
    using get_signed [OF wf, of "PreKeyMessage_signedPreKeyId message"] sg by (auto split: option.splits)
  note start = run [unfolded prog] req True sk i ld sg [unfolded ws]
  show ?thesis
  proof (cases rs)
    case (Inl e)
    with start have "r = Inl e" "w' = w" by (simp_all add: task_simps andThen_def)
    with wf True show ?thesis by (simp add: unmoved_refl)
  next
    case rs: (Inr x)
    obtain ro wo where ot: "runT otT w = (ro, wo)" by fastforce
    note f1 = fetch_one_time [OF wf ot [unfolded otT_def]]
    show ?thesis
    proof (cases ro)
      case (Inl e)
      with start rs ot f1 have "r = Inl e" "w' = w" by (simp_all add: task_simps andThen_def)
      with wf True show ?thesis by (simp add: unmoved_refl)
    next
      case ro: (Inr oneTime)
      obtain rp wp where pq: "runT pqT w = (rp, wp)" by fastforce
      note f2 = fetch_kyber [OF wf pq [unfolded pqT_def]]
      show ?thesis
      proof (cases rp)
        case (Inl e)
        with start rs ot f1 ro pq f2 have "r = Inl e" "w' = w" by (simp_all add: task_simps andThen_def)
        with wf True show ?thesis by (simp add: unmoved_refl)
      next
        case rp: (Inr pqb)
        obtain rf w1 where op: "core_sessionOpenFirst (calls E) (sk_bytes sk) i ex (pm_bytes message) (sr_bytes x)
            oneTime pqb (binding (Some a) local) w = (rf, w1)" by fastforce
        note u = core_unmoved(4) [OF wf op]
        note begun = start rs ot f1 ro pq f2 rp op
        show ?thesis
        proof (cases rf)
          case (Inl e)
          with begun have "r = Inl e" "w' = w1" by (simp_all add: task_simps andThen_def)
          with u True show ?thesis by simp
        next
          case rf: (Inr opened)
          obtain rc w2 where c: "runT (commit E (op_record opened) a SS IS) w1 = (rc, w2)" by fastforce
          note cm = commit_moves [OF u c]
          show ?thesis
          proof (cases rc)
            case (Inl e)
            with begun rf c have "r = Inl e" "w' = w2" by (simp_all add: task_simps andThen_def)
            with cm Inl True show ?thesis by simp
          next
            case rc: (Inr u')
            with cm obtain k where k: "trusts (known w) (key_of a) k"
              "advanced w (key_of a) (op_record opened) ((known w)(key_of a \<mapsto> k)) w2" by auto
            then have wf2: "wf w2" and kk: "sess w2 = (sess w)(key_of a \<mapsto> op_record opened)"
              "known w2 = (known w)(key_of a \<mapsto> k)" "others w2 = others w" by (simp_all add: advanced_def)
            obtain w3 where us: "runT (useT opened) w2 = (Inr (), w3)"
              "consumed_keys (op_consumed opened) (PreKeyMessage_kyberPreKeyId message) w2 w3"
              using consume_run [OF wf2] unfolding useT_def by blast
            have res: "r = Inr (op_plain opened)" "w' = w3"
              using begun rf c rc us(1) [unfolded useT_def] by (simp_all add: task_simps andThen_def)
            have "first_message_keys w message (sr_bytes x) oneTime pqb"
              using signed rs f1 f2 ro rp by (auto simp: first_message_keys_def)
            moreover have "first_message_done w message (key_of a) opened k w'"
              using us(2) unfolding first_message_done_def consumed_keys_def kk res(2) Let_def by (elim conjE, intro conjI)
            ultimately show ?thesis using True op [unfolded ex_def] rf k(1) res(1) by (simp, blast)
          qed
        qed
      qed
    qed
  qed
qed

end

end
