(* ===== verification/Mem_Store.thy ===== *)
theory Mem_Store
  imports Store_Laws
begin

text \<open>
  \<open>InMemoryProtocolStore\<close> keeps the laws of \<open>Store_Laws\<close>: the interpretation of \<open>prekey_host\<close> on
  the world of one in-memory store, over any core. The views read a session through the record
  object the map refers to, so that they see a record changed in place. From the interpretation
  come the effects of the session operations on this store, each as one theorem over its maps.
\<close>

definition mem_session :: "'c world \<Rightarrow> jsstring \<Rightarrow> bytes option" where
  "mem_session w k = map_option (\<lambda>r. objects w ! r) (map_get (ms_sessions (mem w)) k)"

definition mem_sender_key :: "'c world \<Rightarrow> jsstring \<Rightarrow> bytes option" where
  "mem_sender_key w k = map_option (\<lambda>r. objects w ! r) (map_get (ms_senderKeys (mem w)) k)"

definition mem_known :: "'c world \<Rightarrow> jsstring \<Rightarrow> public_key option" where
  "mem_known w = map_get (ms_identities (mem w))"

text \<open>Every reference of the maps is an object.\<close>

definition mem_wf :: "'c world \<Rightarrow> bool" where
  "mem_wf w \<longleftrightarrow>
     (\<forall>k r. map_get (ms_sessions (mem w)) k = Some r \<longrightarrow> r < length (objects w)) \<and>
     (\<forall>k r. map_get (ms_senderKeys (mem w)) k = Some r \<longrightarrow> r < length (objects w))"

text \<open>Trust on first use.\<close>

definition first_use :: "(jsstring \<Rightarrow> public_key option) \<Rightarrow> jsstring \<Rightarrow> public_key \<Rightarrow> bool" where
  "first_use kn k key = (case kn k of None \<Rightarrow> True | Some x \<Rightarrow> x = key)"

record mem_rest =
  rest_preKeys :: "int \<Rightarrow> pre_key_record option"
  rest_signed :: "int \<Rightarrow> signed_record option"
  rest_kyber :: "int \<Rightarrow> signed_record option"
  rest_used :: "int set"
  rest_senderKeys :: "jsstring \<Rightarrow> bytes option"
  rest_identity :: identity_key_pair
  rest_registrationId :: int

definition mem_others :: "'c world \<Rightarrow> mem_rest" where
  "mem_others w =
     \<lparr>rest_preKeys = map_get (ms_preKeys (mem w)), rest_signed = map_get (ms_signedPreKeys (mem w)),
      rest_kyber = map_get (ms_kyberPreKeys (mem w)), rest_used = set (ms_kyberUsed (mem w)),
      rest_senderKeys = mem_sender_key w, rest_identity = ms_identity (mem w),
      rest_registrationId = ms_registrationId (mem w)\<rparr>"

lemma on_mem_run: "on_mem m w = (fst (m (mem w)), w\<lparr>mem := snd (m (mem w))\<rparr>)"
  by (simp add: on_mem_def zoom_apply)

lemma on_core_run: "on_core m w = (fst (m (core_state w)), w\<lparr>core_state := snd (m (core_state w))\<rparr>)"
  by (simp add: on_core_def zoom_apply)

lemmas mem_ops = ms_saveSession_def ms_getSession_def ms_getIdentityKey_def ms_getLocalRegistrationId_def
  ms_saveIdentity_def ms_isTrustedIdentity_def ms_getIdentity_def ms_getPreKey_def ms_removePreKey_def
  ms_getSignedPreKey_def ms_getKyberPreKey_def ms_markKyberPreKeyUsed_def ms_saveSenderKey_def ms_getSenderKey_def

lemmas mem_stores = mem_session_store_def mem_identity_store_def mem_pre_key_store_def
  mem_signed_pre_key_store_def mem_kyber_pre_key_store_def mem_sender_key_store_def

lemmas mem_views = mem_session_def mem_sender_key_def mem_known_def mem_others_def mem_wf_def

lemma core_only:
  "mem_wf (w\<lparr>core_state := c\<rparr>) = mem_wf w" "mem_session (w\<lparr>core_state := c\<rparr>) = mem_session w"
  "mem_known (w\<lparr>core_state := c\<rparr>) = mem_known w" "mem_others (w\<lparr>core_state := c\<rparr>) = mem_others w"
  by (auto simp: mem_views fun_eq_iff)

lemma map_option_nth_append:
  assumes "\<forall>k r. m k = Some r \<longrightarrow> r < length xs"
  shows "map_option (\<lambda>r. (xs @ ys) ! r) (m k) = map_option (\<lambda>r. xs ! r) (m k)"
  using assms by (cases "m k") (auto simp: nth_append)

lemma mem_save:
  assumes "mem_wf w"
  shows "\<exists>w'. runT (save_new (mem_env K lower) mem_session_store a b) w = (Inr (), w') \<and> mem_wf w' \<and>
    mem_session w' = (mem_session w)(ProtocolAddress_toString a \<mapsto> b) \<and> mem_known w' = mem_known w \<and>
    mem_others w' = mem_others w"
proof -
  define w' where "w' = w\<lparr>objects := objects w @ [b],
     mem := (mem w)\<lparr>ms_sessions := map_set (ProtocolAddress_toString a) (length (objects w)) (ms_sessions (mem w))\<rparr>\<rparr>"
  have "runT (save_new (mem_env K lower) mem_session_store a b) w = (Inr (), w')"
    by (simp add: save_new_def task_simps andThen_def SessionRecord_unchecked_def mem_env_def
        mem_session_store_def on_mem_run ms_saveSession_def w'_def)
  moreover have "mem_wf w'"
    using assms by (auto simp: mem_wf_def w'_def split: if_splits intro: less_SucI)
  moreover have "mem_session w' = (mem_session w)(ProtocolAddress_toString a \<mapsto> b)"
  proof
    fix k
    show "mem_session w' k = ((mem_session w)(ProtocolAddress_toString a \<mapsto> b)) k"
      using assms map_option_nth_append [of "map_get (ms_sessions (mem w))" "objects w" "[b]" k]
      by (simp add: mem_session_def mem_wf_def w'_def nth_append)
  qed
  moreover have "mem_sender_key w' = mem_sender_key w"
    using assms map_option_nth_append [of "map_get (ms_senderKeys (mem w))" "objects w" "[b]"]
    by (auto simp: mem_sender_key_def mem_wf_def w'_def)
  then have "mem_others w' = mem_others w" by (simp add: mem_others_def w'_def)
  moreover have "mem_known w' = mem_known w" by (simp add: mem_known_def w'_def)
  ultimately show ?thesis by blast
qed

lemma mem_load:
  "mem_wf w \<Longrightarrow> mem_session w (ProtocolAddress_toString a) = None \<Longrightarrow>
    runT (getSession mem_session_store a) w = (Inr None, w)"
  "mem_wf w \<Longrightarrow> mem_session w (ProtocolAddress_toString a) = Some b \<Longrightarrow>
    \<exists>r. runT (getSession mem_session_store a) w = (Inr (Some r), w) \<and> obj_bytes (mem_env K lower) r w = (Inr b, w)"
  by (auto simp: mem_session_store_def task_simps on_mem_run ms_getSession_def mem_session_def mem_env_def)

lemma mem_identity_laws:
  "runT (isTrustedIdentity mem_identity_store a k d) w =
     (Inr (first_use (mem_known w) (ProtocolAddress_toString a) k), w)"
  "mem_wf w \<Longrightarrow> \<exists>c w'. runT (saveIdentity mem_identity_store a k) w = (Inr c, w') \<and> mem_wf w' \<and>
     mem_session w' = mem_session w \<and> mem_known w' = (mem_known w)(ProtocolAddress_toString a \<mapsto> k) \<and>
     mem_others w' = mem_others w"
  "\<exists>k. runT (getIdentityKey mem_identity_store) w = (Inr k, w)"
  "\<exists>i. runT (getLocalRegistrationId mem_identity_store) w = (Inr i, w)"
  by (auto simp: mem_identity_store_def task_simps on_mem_run mem_ops first_use_def mem_views andThen_def
      fun_eq_iff split: option.splits)

lemma mem_core_frame:
  "run_call (calls (mem_env K lower)) n st w = (r0, w') \<Longrightarrow> mem_wf w \<Longrightarrow>
    mem_wf w' \<and> mem_session w' = mem_session w \<and> mem_known w' = mem_known w \<and> mem_others w' = mem_others w"
  "run_start (calls (mem_env K lower)) sk i b p t w = (r1, w') \<Longrightarrow> mem_wf w \<Longrightarrow>
    mem_wf w' \<and> mem_session w' = mem_session w \<and> mem_known w' = mem_known w \<and> mem_others w' = mem_others w"
  by (auto simp: mem_env_def world_calls_def on_core_run core_only)

lemma mem_pre_key_laws:
  "case rest_preKeys (mem_others w) i of
      None \<Rightarrow> \<exists>e. runT (getPreKey mem_pre_key_store i) w = (Inl e, w)
    | Some x \<Rightarrow> runT (getPreKey mem_pre_key_store i) w = (Inr x, w)"
  "case rest_signed (mem_others w) i of
      None \<Rightarrow> \<exists>e. runT (getSignedPreKey mem_signed_pre_key_store i) w = (Inl e, w)
    | Some y \<Rightarrow> runT (getSignedPreKey mem_signed_pre_key_store i) w = (Inr y, w)"
  "case rest_kyber (mem_others w) i of
      None \<Rightarrow> \<exists>e. runT (getKyberPreKey mem_kyber_pre_key_store i) w = (Inl e, w)
    | Some y \<Rightarrow> runT (getKyberPreKey mem_kyber_pre_key_store i) w = (Inr y, w)"
  by (auto simp: mem_stores task_simps on_mem_run mem_ops mem_others_def andThen_def split: option.splits)

lemma mem_remove:
  "mem_wf w \<Longrightarrow> \<exists>w'. runT (removePreKey mem_pre_key_store i) w = (Inr (), w') \<and> mem_wf w' \<and>
     mem_session w' = mem_session w \<and> mem_known w' = mem_known w \<and>
     rest_preKeys (mem_others w') = (rest_preKeys (mem_others w))(i := None) \<and>
     rest_signed (mem_others w') = rest_signed (mem_others w) \<and>
     rest_kyber (mem_others w') = rest_kyber (mem_others w) \<and> rest_used (mem_others w') = rest_used (mem_others w)"
  "mem_wf w \<Longrightarrow> \<exists>w'. runT (markKyberPreKeyUsed mem_kyber_pre_key_store i j kk) w = (Inr (), w') \<and> mem_wf w' \<and>
     mem_session w' = mem_session w \<and> mem_known w' = mem_known w \<and>
     rest_preKeys (mem_others w') = rest_preKeys (mem_others w) \<and>
     rest_signed (mem_others w') = rest_signed (mem_others w) \<and>
     rest_kyber (mem_others w') = rest_kyber (mem_others w) \<and>
     rest_used (mem_others w') = insert i (rest_used (mem_others w))"
  by (auto simp: mem_stores task_simps on_mem_run mem_ops mem_views fun_eq_iff)

interpretation im: prekey_host "mem_env K lower" mem_session_store mem_identity_store mem_wf mem_session mem_known
    mem_others first_use mem_pre_key_store mem_signed_pre_key_store mem_kyber_pre_key_store
    rest_preKeys rest_signed rest_kyber rest_used
  for K :: "'c core_calls" and lower
proof (unfold_locales, goal_cases)
  case 1 then show ?case by (rule mem_load(1))
next
  case 2 then show ?case by (rule mem_load(2))
next
  case 3 then show ?case by (rule mem_save)
next
  case 4 show ?case by (rule mem_identity_laws(1))
next
  case 5 then show ?case by (rule mem_identity_laws(2))
next
  case 6 show ?case by (rule mem_identity_laws(3))
next
  case 7 show ?case by (rule mem_identity_laws(4))
next
  case 8 show ?case by (simp add: mem_env_def)
next
  case (9 w n st r0 w') then show ?case using mem_core_frame(1) by blast
next
  case (10 w sk i b p t r1 w') then show ?case using mem_core_frame(2) by blast
next
  case 11 show ?case by (rule mem_pre_key_laws(1))
next
  case 12 then show ?case by (rule mem_remove(1))
next
  case 13 show ?case by (rule mem_pre_key_laws(2))
next
  case 14 show ?case by (rule mem_pre_key_laws(3))
next
  case 15 then show ?case by (rule mem_remove(2))
qed

end
