(* ===== verification/Sample_Peer.thy ===== *)
theory Sample_Peer
  imports Mem_Store Structs
begin

text \<open>
  A small core with fixed answers and a world with one in-memory store, on which the theorems about
  sessions and groups are applied to concrete inputs.
\<close>

lemma calls_mem_env: "calls (mem_env K lower) = world_calls K"
  by (simp add: mem_env_def)

subsection \<open>A sample core and world\<close>

definition sample_info :: session_info where
  "sample_info = \<lparr>hasLive = True, canSend = True, usable = True, si_version = 4, localRegistrationId = 1,
     remoteRegistrationId = 2, shelved = 0, localIdentity = replicate 33 5, remoteIdentity = replicate 33 6,
     si_base = replicate 33 7\<rparr>"

definition sample_consumed :: consumed where
  "sample_consumed = \<lparr>c_used = True, c_oneTimeId = Some 5, c_signedId = 1, c_pqId = 2, c_base = replicate 33 7\<rparr>"

definition sample_note :: note_info where
  "sample_note = \<lparr>no_version = 3, no_circleId = replicate 16 170, no_chainId = 1, no_step = 2\<rparr>"

text \<open>The text of the circle id \<open>sample_note\<close> carries.\<close>

definition sample_circle :: jsstring where
  "sample_circle = js ''aaaaaaaa-aaaa-aaaa-aaaa-aaaaaaaaaaaa''"

definition sample_run :: "jsstring \<Rightarrow> bytes list \<times> bytes list" where
  "sample_run name =
     (if name = js ''gv_session_info'' then ([], [c_session_info sample_info])
      else if name = js ''gv_session_seal'' then ([[1], [2]], [le_bytes 1 2])
      else if name = js ''gv_session_open'' then ([[3], [4]], [])
      else if name = js ''gv_session_open_first'' then ([[5], [6]], [c_consumed sample_consumed])
      else if name = js ''gv_circle_seal'' then ([[11], [12]], [])
      else if name = js ''gv_circle_open'' then ([[13], [14]], [])
      else if name = js ''gv_note_parse'' then ([[15]], [c_note_info sample_note])
      else ([], []))"

text \<open>The state of this core counts the calls.\<close>

definition sample_calls :: "nat core_calls" where
  "sample_calls = \<lparr>run_call = (\<lambda>name steps n. (Inr (sample_run name), Suc n)),
     run_start = (\<lambda>sk i b p t n. (Inr [9], Suc n)), run_poolValid = (\<lambda>p n. (Inr True, Suc n)),
     run_abiVersion = ret 1\<rparr>"

definition sample_key :: public_key where
  "sample_key = PublicKey (replicate 33 6)"

definition sample_signed :: signed_record where
  "sample_signed = \<lparr>sr_bytes = [8], sr_id = 1, sr_stamp = 0, sr_publicKey = [], sr_secret = [], sr_signature = []\<rparr>"

definition sample_one_time :: pre_key_record where
  "sample_one_time = \<lparr>pr_bytes = [9], pr_id = 5, pr_publicKey = [], pr_secret = []\<rparr>"

definition sample_mem :: mem_store where
  "sample_mem = \<lparr>ms_identity = IdentityKeyPair (PublicKey []) (PrivateKey []), ms_registrationId = 1,
     ms_identities = [(js ''a.1'', sample_key)], ms_sessions = [(js ''a.1'', 0)],
     ms_preKeys = [(5, sample_one_time)], ms_signedPreKeys = [(1, sample_signed)],
     ms_kyberPreKeys = [(2, sample_signed)], ms_kyberUsed = [],
     ms_senderKeys = [(js ''a.1|'' @ sample_circle, 0)]\<rparr>"

definition sample_world :: "nat world" where
  "sample_world = \<lparr>core_state = 0, clock_ms = 5000, objects = [[7]], mem = sample_mem\<rparr>"

definition sample_address :: protocol_address where
  "sample_address = ProtocolAddress (js ''a'') 1"

definition sample_opener :: pre_key_message where
  "sample_opener = PreKeyMessage [1] \<lparr>o_version = 4, o_registrationId = 2, o_oneTimeId = Some 5, o_signedId = 1,
     o_pqId = Some 2, o_base = [], o_identity = replicate 33 6\<rparr> []"

definition sample_bundle :: pre_key_bundle where
  "sample_bundle = \<lparr>pb_registrationId = 2, pb_deviceId = 1, pb_preKeyId = None, pb_preKey = None,
     pb_signedPreKeyId = 1, pb_signedPreKey = sample_key, pb_signedPreKeySignature = [], pb_identityKey = sample_key,
     pb_kyberPreKeyId = 2, pb_kyberPreKey = KEMPublicKey [], pb_kyberPreKeySignature = []\<rparr>"

lemma sample_reads:
  "read_session_info (c_session_info sample_info) = sample_info" "read_consumed (c_consumed sample_consumed) = sample_consumed"
  "read_note (c_note_info sample_note) = sample_note"
  using read_note_layout [of sample_note] read_consumed_layout [of sample_consumed] read_session_info_layout [of sample_info]
  by (simp_all add: session_info_ok_def consumed_ok_def note_info_ok_def sample_info_def sample_consumed_def
      sample_note_def u8_def u32_def id63_def)

lemma sample_address_text: "ProtocolAddress_toString sample_address = js ''a.1''"
  by (simp add: ProtocolAddress_toString_def sample_address_def decimal_def nat_decimal.simps)

lemma sample_wf: "mem_wf sample_world"
  by (simp add: mem_wf_def sample_world_def sample_mem_def map_get_def)

lemma sample_views:
  "mem_session sample_world = [js ''a.1'' \<mapsto> [7]]" "mem_known sample_world = [js ''a.1'' \<mapsto> sample_key]"
  by (auto simp: mem_session_def mem_known_def sample_world_def sample_mem_def map_get_def fun_eq_iff)

lemma sample_calls_run: "run_call (world_calls sample_calls) name st w =
    (Inr (sample_run name), w\<lparr>core_state := Suc (core_state w)\<rparr>)"
  "run_start (world_calls sample_calls) sk i b pb t w = (Inr [9], w\<lparr>core_state := Suc (core_state w)\<rparr>)"
  by (simp_all add: world_calls_def sample_calls_def on_core_run)

lemma sample_core:
  "core_sessionInfo (world_calls sample_calls) b t w = (Inr sample_info, w\<lparr>core_state := Suc (core_state w)\<rparr>)"
  "core_sessionSeal (world_calls sample_calls) b m t bd w =
     (Inr \<lparr>sl_kind = 2, sl_sealed = [1], sl_record = [2]\<rparr>, w\<lparr>core_state := Suc (core_state w)\<rparr>)"
  "core_sessionOpen (world_calls sample_calls) b m bd w = (Inr ([3], [4]), w\<lparr>core_state := Suc (core_state w)\<rparr>)"
  "core_sessionOpenFirst (world_calls sample_calls) sk i b m s1 o1 p1 bd w =
     (Inr \<lparr>op_plain = [5], op_record = [6], op_consumed = sample_consumed\<rparr>, w\<lparr>core_state := Suc (core_state w)\<rparr>)"
  "core_sessionStart (world_calls sample_calls) sk i b pb t w = (Inr [9], w\<lparr>core_state := Suc (core_state w)\<rparr>)"
  by (simp_all add: core_ops finish_def pair_def andThen_def sample_calls_run sample_run_def sample_reads
      getUint8_def slice_whole from_le_le_bytes del: One_nat_def)

lemma sample_group_core:
  "core_noteParse (world_calls sample_calls) b w = (Inr (sample_note, [15]), w\<lparr>core_state := Suc (core_state w)\<rparr>)"
  "core_circleSeal (world_calls sample_calls) b c m w = (Inr ([11], [12]), w\<lparr>core_state := Suc (core_state w)\<rparr>)"
  "core_circleOpen (world_calls sample_calls) b m w = (Inr ([13], [14]), w\<lparr>core_state := Suc (core_state w)\<rparr>)"
  by (simp_all add: core_noteParse_def core_circleSeal_def core_circleOpen_def finish_def pair_def andThen_def
      sample_calls_run sample_run_def sample_reads)

lemmas sample_steps = task_simps andThen_def foundT_def requireT_def bytesT_def save_new_def calls_mem_env sample_core
  SessionRecord_unchecked_def on_mem_run mem_ops mem_stores sample_address_text date_or_now_def

lemma sample_env:
  "obj_new (mem_env K lower) b = (\<lambda>w. (Inr (length (objects w)), w\<lparr>objects := objects w @ [b]\<rparr>))"
  "obj_bytes (mem_env K lower) r = gets (\<lambda>w. objects w ! r)" "clock (mem_env K lower) = gets clock_ms"
  by (simp_all add: mem_env_def)

lemma sample_maps:
  "map_get (ms_sessions sample_mem) (js ''a.1'') = Some 0"
  "map_get (ms_identities sample_mem) (js ''a.1'') = Some sample_key"
  "map_get (ms_preKeys sample_mem) 5 = Some sample_one_time"
  "map_get (ms_signedPreKeys sample_mem) 1 = Some sample_signed"
  "map_get (ms_kyberPreKeys sample_mem) 2 = Some sample_signed"
  "map_get (ms_senderKeys sample_mem) (js ''a.1|'' @ sample_circle) = Some 0"
  by (simp_all add: sample_mem_def map_get_def)

lemma sample_parts:
  "mem sample_world = sample_mem" "objects sample_world = [[7]]" "clock_ms sample_world = 5000"
  "PublicKey_unchecked (remoteIdentity sample_info) = sample_key"
  by (simp_all add: sample_world_def sample_info_def sample_key_def PublicKey_unchecked_def)

end
