(* ===== verification/Frames.thy ===== *)
theory Frames
  imports Effects
begin

text \<open>
  Frame conditions. A frame is a reflexive and transitive relation between the states before and
  after; an operation is quiet when it always stays inside the frame, clean when it does so if it
  throws, and an asynchronous function is steady when every segment of it stays inside, so that it
  does so under any schedule. A call meets a condition when it does so whatever the others do inside the
  frame, and calls that all do keep their conditions under any schedule (\<open>keep_promises\<close>).
\<close>

text \<open>Every segment of a task relates the states before and after it.\<close>

primrec segments :: "('s \<Rightarrow> 's \<Rightarrow> bool) \<Rightarrow> ('s, 'a) task \<Rightarrow> bool" where
  "segments R (Task f) \<longleftrightarrow> (\<forall>s.
     (case map_prod (map_outcome id (segments R)) id (f s) of
       (Done r, s') \<Rightarrow> R s s'
     | (Await ok, s') \<Rightarrow> R s s' \<and> ok))"

lemma segments_exec:
  fixes t :: "('s, 'a) task"
  shows "segments R t \<longleftrightarrow> (\<forall>s. R s (snd (exec t s)) \<and> (case fst (exec t s) of Done r \<Rightarrow> True | Await u \<Rightarrow> segments R u))"
proof (cases t)
  case (Task f)
  have "(case map_prod (map_outcome id (segments R)) id p of (Done r, s') \<Rightarrow> R s s' | (Await ok, s') \<Rightarrow> R s s' \<and> ok) \<longleftrightarrow>
      R s (snd p) \<and> (case fst p of Done r \<Rightarrow> True | Await u \<Rightarrow> segments R u)"
    for p :: "('a, ('s, 'a) task) outcome \<times> 's" and s
    by (cases p; cases "fst p") auto
  then show ?thesis unfolding Task by (simp only: segments.simps task.sel)
qed

text \<open>What the calls of a pool have still to do, and the pool as a whole.\<close>

definition pending :: "('s \<Rightarrow> 's \<Rightarrow> bool) \<Rightarrow> ('a, ('s, 'a) task) outcome \<Rightarrow> bool" where
  "pending R oc \<longleftrightarrow> (case oc of Done r \<Rightarrow> True | Await t \<Rightarrow> segments R t)"

lemma pending_simps [simp]: "pending R (Done r)" "pending R (Await t) \<longleftrightarrow> segments R t"
  by (simp_all add: pending_def)

lemma segmentsD:
  assumes "segments R t" "exec t s = (oc, s')"
  shows "R s s'" "pending R oc"
proof -
  have "R s (snd (exec t s)) \<and> (case fst (exec t s) of Done r \<Rightarrow> True | Await u \<Rightarrow> segments R u)"
    using assms(1) unfolding segments_exec [of R t] by blast
  with assms(2) show "R s s'" "pending R oc" by (simp_all add: pending_def)
qed

text \<open>A schedule that runs each call it picks to its end before the next.\<close>

fun run_whole ::
    "nat list \<Rightarrow> ('a, ('s, 'a) task) outcome list \<Rightarrow> 's \<Rightarrow> ('a, ('s, 'a) task) outcome list \<times> 's" where
  "run_whole [] pool s = (pool, s)"
| "run_whole (i # sched) pool s =
     (if i < length pool
      then (case pool ! i of
              Done r \<Rightarrow> run_whole sched pool s
            | Await t \<Rightarrow> (case runT t s of (r, s') \<Rightarrow> run_whole sched (pool[i := Done r]) s'))
      else run_whole sched pool s)"

text \<open>Calls that never suspend are isolated from each other: every schedule is a sequential one.\<close>

lemma atomic_schedule:
  "\<forall>t. Await t \<in> set pool \<longrightarrow> atomic t \<Longrightarrow> run_schedule sched pool s = run_whole sched pool s"
proof (induction sched arbitrary: pool s)
  case (Cons i sched)
  show ?case
  proof (cases "i < length pool")
    case True
    show ?thesis
    proof (cases "pool ! i")
      case (Done r)
      with True Cons show ?thesis by simp
    next
      case (Await t)
      then have "atomic t" using Cons.prems True by (metis nth_mem)
      then have e: "exec t s = (Done (fst (runT t s)), snd (runT t s))"
        by (simp add: atomic_def prod_eq_iff)
      have "\<forall>t. Await t \<in> set (pool[i := Done (fst (runT t' s))]) \<longrightarrow> atomic t" for t'
        using Cons.prems set_update_subset_insert [of pool i "Done (fst (runT t' s))"] by blast
      with Cons.IH show ?thesis using True Await e by (simp add: case_prod_beta)
    qed
  qed (use Cons in simp)
qed simp

locale frame =
  fixes R :: "'s \<Rightarrow> 's \<Rightarrow> bool"
  assumes frame_refl: "R s s"
    and frame_trans: "R s t \<Longrightarrow> R t u \<Longrightarrow> R s u"
begin

definition quiet :: "('s, 'a) op \<Rightarrow> bool" where
  "quiet m \<longleftrightarrow> (\<forall>s. R s (snd (m s)))"

definition clean :: "('s, 'a) op \<Rightarrow> bool" where
  "clean m \<longleftrightarrow> (\<forall>s e s'. m s = (Inl e, s') \<longrightarrow> R s s')"

lemma quietD: "quiet m \<Longrightarrow> m s = (r, s') \<Longrightarrow> R s s'"
  unfolding quiet_def by (metis snd_conv)

lemma cleanD: "clean m \<Longrightarrow> m s = (Inl e, s') \<Longrightarrow> R s s'"
  by (simp add: clean_def)

lemma quiet_basic: "quiet (ret x)" "quiet (throw e)" "quiet (throwIf b e)" "quiet (pureOp q)" "quiet (gets f)"
  by (simp_all add: quiet_def frame_refl)

lemma quiet_andThen: "quiet m \<Longrightarrow> (\<And>x. quiet (k x)) \<Longrightarrow> quiet (andThen m k)"
  unfolding quiet_def andThen_apply by (auto split: sum.split intro: frame_trans)

lemma quiet_split: "(\<And>x y. quiet (k x y)) \<Longrightarrow> quiet (case p of (x, y) \<Rightarrow> k x y)"
  by (cases p) simp

lemma quiet_option: "quiet a \<Longrightarrow> (\<And>x. quiet (k x)) \<Longrightarrow> quiet (case p of None \<Rightarrow> a | Some x \<Rightarrow> k x)"
  by (cases p) simp_all

lemmas quiet_intros = quiet_basic quiet_andThen quiet_split quiet_option

lemma quiet_clean: "quiet m \<Longrightarrow> clean m"
  unfolding clean_def by (blast intro: quietD)

lemma clean_andThen: "quiet m \<Longrightarrow> (\<And>x. clean (k x)) \<Longrightarrow> clean (andThen m k)"
  unfolding clean_def andThen_apply by (auto split: sum.splits) (metis frame_trans quietD prod.collapse)+

lemma clean_total: "(\<And>s. \<exists>y s'. m s = (Inr y, s')) \<Longrightarrow> clean m"
  unfolding clean_def by (metis Inl_Inr_False prod.inject)

text \<open>After the last thing that can throw nothing needs to be quiet.\<close>

lemma clean_then_total: "clean m \<Longrightarrow> (\<And>x s. \<exists>y s'. k x s = (Inr y, s')) \<Longrightarrow> clean (andThen m k)"
  unfolding clean_def andThen_apply
  by (auto split: sum.splits) (metis prod.collapse, metis Inl_Inr_False prod.inject)

lemma clean_split: "(\<And>x y. clean (k x y)) \<Longrightarrow> clean (case p of (x, y) \<Rightarrow> k x y)"
  by (cases p) simp

subsection \<open>Tasks\<close>

lemma segments_sync [simp]: "segments R (sync m) \<longleftrightarrow> quiet m"
  by (simp add: segments_exec quiet_def)

lemma segments_resumeWith [simp]: "segments R (resumeWith r)"
  by (simp add: segments_exec frame_refl)

lemma segments_bindT: "segments R t \<Longrightarrow> (\<And>x. segments R (k x)) \<Longrightarrow> segments R (bindT t k)"
proof (induction t)
  case (Task f)
  show ?case
    unfolding segments_exec [of R "bindT (Task f) k"]
  proof
    fix s
    obtain oc s' where f: "f s = (oc, s')" by (cases "f s")
    from segmentsD [OF Task.prems(1), of s] f have R: "R s s'" and p: "pending R oc" by simp_all
    show "R s (snd (exec (bindT (Task f) k) s)) \<and>
        (case fst (exec (bindT (Task f) k) s) of Done r \<Rightarrow> True | Await u \<Rightarrow> segments R u)"
    proof (cases oc)
      case (Done r)
      show ?thesis
      proof (cases r)
        case (Inl e)
        with Done f R show ?thesis by (simp add: exec_bindT)
      next
        case (Inr x)
        obtain oc' u where k: "exec (k x) s' = (oc', u)" by (cases "exec (k x) s'")
        with segmentsD [OF Task.prems(2) [of x] k] have "R s u" "pending R oc'" using R frame_trans by blast+
        with Done Inr f k show ?thesis by (simp add: exec_bindT pending_def)
      qed
    next
      case (Await t)
      have "segments R (bindT t k)"
        by (rule Task.IH [of "f s" oc]) (use f Await p Task.prems(2) in \<open>auto intro: range_eqI [where x = s]\<close>)
      with Await f R show ?thesis by (simp add: exec_bindT)
    qed
  qed
qed

lemma segments_awaitT: "segments R t \<Longrightarrow> segments R (awaitT t)"
proof (induction t)
  case (Task f)
  show ?case
    unfolding segments_exec [of R "awaitT (Task f)"]
  proof
    fix s
    obtain oc s' where f: "f s = (oc, s')" by (cases "f s")
    from segmentsD [OF Task.prems(1), of s] f have R: "R s s'" and p: "pending R oc" by simp_all
    show "R s (snd (exec (awaitT (Task f)) s)) \<and>
        (case fst (exec (awaitT (Task f)) s) of Done r \<Rightarrow> True | Await u \<Rightarrow> segments R u)"
    proof (cases oc)
      case (Done r)
      with f R show ?thesis by (simp add: exec_awaitT)
    next
      case (Await t)
      have "segments R (awaitT t)"
        by (rule Task.IH [of "f s" oc]) (use f Await p in \<open>auto intro: range_eqI [where x = s]\<close>)
      with Await f R show ?thesis by (simp add: exec_awaitT)
    qed
  qed
qed

lemma segments_option: "segments R a \<Longrightarrow> (\<And>x. segments R (k x)) \<Longrightarrow> segments R (case p of None \<Rightarrow> a | Some x \<Rightarrow> k x)"
  by (cases p) simp_all

lemma segments_split: "(\<And>x y. segments R (k x y)) \<Longrightarrow> segments R (case p of (x, y) \<Rightarrow> k x y)"
  by (cases p) simp

lemma segments_if: "segments R a \<Longrightarrow> segments R b \<Longrightarrow> segments R (if c then a else b)"
  by simp

lemmas segments_intros = segments_bindT segments_awaitT segments_option segments_split segments_if

lemma run_schedule_frame:
  "list_all (pending R) pool \<Longrightarrow> R s (snd (run_schedule sched pool s))"
proof (induction sched arbitrary: pool s)
  case Nil
  then show ?case by (simp add: frame_refl)
next
  case (Cons i sched)
  show ?case
  proof (cases "i < length pool")
    case True
    then have p: "pending R (pool ! i)" using Cons.prems by (simp add: list_all_length)
    show ?thesis
    proof (cases "pool ! i")
      case (Done r)
      with True Cons show ?thesis by simp
    next
      case (Await t)
      obtain oc s' where e: "exec t s = (oc, s')" by (cases "exec t s")
      from segmentsD [OF _ e] p Await have "R s s'" "pending R oc" by simp_all
      moreover from this(2) have "list_all (pending R) (pool[i := oc])"
        using Cons.prems by (simp add: list_all_length) (metis nth_list_update_eq nth_list_update_neq)
      ultimately show ?thesis using True Await e Cons.IH [of "pool[i := oc]" s'] by (auto intro: frame_trans)
    qed
  qed (use Cons in simp)
qed

lemma segments_bind_sync:
  assumes "quiet m" "\<And>s x s'. m s = (Inr x, s') \<Longrightarrow> segments R (k x)"
  shows "segments R (bindT (sync m) k)"
  unfolding segments_exec [of R "bindT (sync m) k"]
proof
  fix s
  obtain r s' where m: "m s = (r, s')" by (cases "m s")
  have R: "R s s'" using quietD [OF assms(1) m] .
  show "R s (snd (exec (bindT (sync m) k) s)) \<and>
      (case fst (exec (bindT (sync m) k) s) of Done r \<Rightarrow> True | Await u \<Rightarrow> segments R u)"
  proof (cases r)
    case (Inl e)
    with m R show ?thesis by (simp add: exec_bindT)
  next
    case (Inr x)
    obtain oc s'' where k: "exec (k x) s' = (oc, s'')" by (cases "exec (k x) s'")
    have "R s' s''" "pending R oc" using segmentsD [OF assms(2) k] m Inr by blast+
    with m Inr k R frame_trans [OF R] show ?thesis by (simp add: exec_bindT pending_def)
  qed
qed

end

subsection \<open>Calls that rely on each other\<close>

text \<open>
  A call meets a condition on its result when, from a state in which its condition holds, it does so
  whatever the others do: they move inside the frame between its segments, and each segment of its
  own stays inside the frame. Its condition may change from one segment to the next and is one the
  frame keeps.
\<close>

inductive meets :: "('s \<Rightarrow> 's \<Rightarrow> bool) \<Rightarrow> (js_error + 'a \<Rightarrow> 's \<Rightarrow> bool) \<Rightarrow> ('s \<Rightarrow> bool) \<Rightarrow> ('s, 'a) task \<Rightarrow> bool"
  for R Q where
  segment: "(\<And>s s'. P s \<Longrightarrow> R s s' \<Longrightarrow> P s') \<Longrightarrow>
    (\<And>s r s'. P s \<Longrightarrow> exec t s = (Done r, s') \<Longrightarrow> R s s' \<and> Q r s') \<Longrightarrow>
    (\<And>s u s'. P s \<Longrightarrow> exec t s = (Await u, s') \<Longrightarrow> R s s' \<and> (\<exists>P'. P' s' \<and> meets R Q P' u)) \<Longrightarrow>
    meets R Q P t"

definition promised :: "('s \<Rightarrow> 's \<Rightarrow> bool) \<Rightarrow> (js_error + 'a \<Rightarrow> 's \<Rightarrow> bool) \<Rightarrow> 's \<Rightarrow> ('a, ('s, 'a) task) outcome \<Rightarrow> bool" where
  "promised R Q s oc \<longleftrightarrow> (case oc of Done r \<Rightarrow> Q r s | Await t \<Rightarrow> \<exists>P. P s \<and> meets R Q P t)"

lemma meets_exec:
  assumes "meets R Q P t" "P s" "exec t s = (oc, s')"
  shows "R s s'" "promised R Q s' oc"
  using assms by (cases oc; auto elim!: meets.cases simp: promised_def)+

lemma meets_moves:
  assumes "meets R Q P t" "P s" "R s s'"
  shows "P s'"
  using assms by (auto elim!: meets.cases)

text \<open>A schedule of calls each of which meets its condition: all of them do.\<close>

context frame
begin

lemma promised_moves:
  assumes stable: "\<And>r s s'. Q r s \<Longrightarrow> R s s' \<Longrightarrow> Q r s'" and p: "promised R Q s oc" and moved: "R s s'"
  shows "promised R Q s' oc"
proof (cases oc)
  case (Done r)
  with p stable [OF _ moved] show ?thesis by (simp add: promised_def)
next
  case (Await t)
  with p obtain P where "meets R Q P t" "P s" by (auto simp: promised_def)
  with meets_moves [OF this moved] Await show ?thesis by (auto simp: promised_def)
qed

lemma keep_promises:
  assumes stable: "\<And>i r s s'. Q i r s \<Longrightarrow> R s s' \<Longrightarrow> Q i r s'"
  shows "\<forall>i<length pool. promised R (Q i) s (pool ! i) \<Longrightarrow> run_schedule sched pool s = (pool', s') \<Longrightarrow>
    R s s' \<and> length pool' = length pool \<and> (\<forall>i<length pool. promised R (Q i) s' (pool' ! i))"
proof (induction sched arbitrary: pool s)
  case Nil
  then show ?case by (auto simp: frame_refl)
next
  case (Cons j sched)
  show ?case
  proof (cases "j < length pool \<and> (\<exists>t. pool ! j = Await t)")
    case True
    then obtain t where t: "j < length pool" "pool ! j = Await t" by blast
    obtain oc s1 where e: "exec t s = (oc, s1)" by (cases "exec t s")
    from Cons.prems(1) [rule_format, OF t(1)] t(2) obtain P where "meets R (Q j) P t" "P s"
      by (auto simp: promised_def)
    from meets_exec [OF this e] have 1: "R s s1" "promised R (Q j) s1 oc" .
    have "promised R (Q i) s1 (pool[j := oc] ! i)" if "i < length pool" for i
    proof (cases "i = j")
      case True
      with 1(2) t(1) show ?thesis by simp
    next
      case False
      have "promised R (Q i) s1 (pool ! i)"
        by (rule promised_moves [OF _ _ 1(1)]) (fact stable, use Cons.prems(1) that in blast)
      with False show ?thesis by simp
    qed
    moreover have "run_schedule sched (pool[j := oc]) s1 = (pool', s')"
      using Cons.prems(2) t e by simp
    ultimately show ?thesis using Cons.IH [of "pool[j := oc]" s1] 1(1) by (auto intro: frame_trans)
  next
    case False
    then have "run_schedule sched pool s = (pool', s')"
      using Cons.prems(2) by (cases "pool ! j") (auto split: if_splits)
    with Cons.IH Cons.prems(1) show ?thesis by blast
  qed
qed

end

text \<open>Calls all of which run their first segment before any is resumed, when no first segment moves
  the state.\<close>

lemma start_all:
  fixes ts us :: "('s, 'a) task list"
  assumes "\<forall>i<length ts. exec (ts ! i) s = (Await (us ! i), s)" "length us = length ts"
  shows "run_schedule ([0..<length ts] @ sched) (map Await ts) s = run_schedule sched (map Await us) s"
proof -
  have "run_schedule ([n..<length ts] @ sched) (map Await (take n us) @ map Await (drop n ts)) s =
      run_schedule sched (map Await us) s" if "n \<le> length ts" for n
    using that
  proof (induction n rule: inc_induct)
    case base
    then show ?case using assms(2) by simp
  next
    case (step n)
    let ?pool = "\<lambda>n. map Await (take n us) @ map Await (drop n ts) :: ('a, ('s, 'a) task) outcome list"
    have "(?pool n)[n := Await (us ! n)] = ?pool (Suc n)"
      using step.hyps assms(2)
      by (simp add: take_Suc_conv_app_nth list_update_append Cons_nth_drop_Suc [symmetric])
    moreover have "?pool n ! n = Await (ts ! n)"
      using step.hyps assms(2) by (simp add: nth_append)
    ultimately show ?case
      using step assms by (simp add: upt_conv_Cons [of n])
  qed
  from this [of 0] show ?thesis by simp
qed

end
