(* ===== verification/Session_Facts.thy ===== *)
theory Session_Facts
  imports Sample_Peer Frames
begin

text \<open>
  The effects of the session operations on \<open>InMemoryProtocolStore\<close>, from the interpretation of
  the host laws: an operation that throws leaves every store as it was, and one that returns
  changes exactly the session of its address, the identity of its address where it should, and
  the keys a first message consumed. The last section is on calls of \<^verbatim>\<open>sessionEncrypt\<close> that run
  together, under any schedule.
\<close>

text \<open>Every map of the store is as it was.\<close>

definition stores_kept :: "'c world \<Rightarrow> 'c world \<Rightarrow> bool" where
  "stores_kept w w' \<longleftrightarrow> mem_wf w' \<and> mem_session w' = mem_session w \<and> mem_known w' = mem_known w \<and>
     mem_others w' = mem_others w"

text \<open>The session of one address is \<open>b\<close>, the identities are \<open>kn\<close>, and nothing else moved.\<close>

definition session_moved :: "'c world \<Rightarrow> protocol_address \<Rightarrow> bytes \<Rightarrow> (jsstring \<Rightarrow> public_key option) \<Rightarrow> 'c world \<Rightarrow> bool" where
  "session_moved w a b kn w' \<longleftrightarrow> mem_wf w' \<and>
     mem_session w' = (mem_session w)(ProtocolAddress_toString a \<mapsto> b) \<and> mem_known w' = kn \<and>
     mem_others w' = mem_others w"

lemma kept_unmoved: "im.unmoved w w' \<longleftrightarrow> stores_kept w w'"
  by (simp add: im.unmoved_def stores_kept_def)

lemma moved_advanced:
  "im.advanced w (ProtocolAddress_toString a) b kn w' \<longleftrightarrow> session_moved w a b kn w'"
  by (simp add: im.advanced_def session_moved_def)

text \<open>C3: \<^verbatim>\<open>sessionEncrypt\<close> that throws leaves every store as it was (an untrusted
  recipient included: the ciphertext and the advanced record are dropped). One that returns has
  sealed the stored record of the address, checked that the identity in the new record is trusted,
  and stored exactly the new record, no identity among what it wrote.\<close>

theorem sessionEncrypt_effect:
  assumes "mem_wf w"
    and "runT (sessionEncrypt (mem_env K lower) message a mem_session_store mem_identity_store now local) w = (r, w')"
  shows "case r of
      Inl e \<Rightarrow> stores_kept w w' \<and> (mem_session w (ProtocolAddress_toString a) = None \<longrightarrow> e = no_session a)
    | Inr ct \<Rightarrow> (\<exists>b date s info w1 w2. mem_session w (ProtocolAddress_toString a) = Some b \<and>
        core_sessionSeal (world_calls K) b message (nowSecs date) (binding local (Some a)) w = (Inr s, w1) \<and>
        core_sessionInfo (world_calls K) (sl_record s) (nowSecs date) w1 = (Inr info, w2) \<and>
        first_use (mem_known w) (ProtocolAddress_toString a) (PublicKey (remoteIdentity info)) \<and>
        ct = CiphertextMessage (sl_kind s) (sl_sealed s) \<and>
        session_moved w a (sl_record s) (mem_known w) w')"
  using im.encrypt_effect [OF assms] unfolding kept_unmoved moved_advanced calls_mem_env .

text \<open>C4: \<^verbatim>\<open>sessionDecrypt\<close> that throws leaves every store as it was. One that returns has
  opened the message with the stored record, and stored the new record together with an identity
  that was trusted for the address before.\<close>

theorem sessionDecrypt_effect:
  assumes "mem_wf w"
    and "runT (sessionDecrypt (mem_env K lower) message a mem_session_store mem_identity_store local) w = (r, w')"
  shows "case r of
      Inl e \<Rightarrow> stores_kept w w' \<and> (mem_session w (ProtocolAddress_toString a) = None \<longrightarrow> e = no_session a)
    | Inr plain \<Rightarrow> (\<exists>b record1 w1 k. mem_session w (ProtocolAddress_toString a) = Some b \<and>
        core_sessionOpen (world_calls K) b (wm_bytes message) (binding (Some a) local) w = (Inr (plain, record1), w1) \<and>
        first_use (mem_known w) (ProtocolAddress_toString a) k \<and>
        session_moved w a record1 ((mem_known w)(ProtocolAddress_toString a \<mapsto> k)) w')"
  using im.decrypt_effect [OF assms] unfolding kept_unmoved moved_advanced calls_mem_env .

text \<open>C5: \<^verbatim>\<open>processBundle\<close> for an identity that is not the one pinned for the address throws
  \<^verbatim>\<open>UntrustedIdentity\<close> and changes nothing; nothing changes either when the core refuses the
  bundle; otherwise the record the core started from the stored one and the bundle's identity are
  stored for the address.\<close>

theorem processBundle_effect:
  assumes "mem_wf w"
    and "runT (processBundle (mem_env K lower) bundle a mem_session_store mem_identity_store now) w = (r, w')"
  shows "case r of
      Inl e \<Rightarrow> stores_kept w w' \<and>
        (\<not> first_use (mem_known w) (ProtocolAddress_toString a) (pb_identityKey bundle) \<longrightarrow> e = untrusted a)
    | Inr u \<Rightarrow> (\<exists>sk i date record1 w1. first_use (mem_known w) (ProtocolAddress_toString a) (pb_identityKey bundle) \<and>
        core_sessionStart (world_calls K) sk i
          (case mem_session w (ProtocolAddress_toString a) of None \<Rightarrow> [] | Some b \<Rightarrow> b)
          (published_of bundle) (nowSecs date) w = (Inr record1, w1) \<and>
        session_moved w a record1 ((mem_known w)(ProtocolAddress_toString a \<mapsto> pb_identityKey bundle)) w')"
  using im.bundle_effect [OF assms] unfolding kept_unmoved moved_advanced calls_mem_env .

text \<open>The state after a first message: the record and the identity are stored, and exactly the
  one-time key the core consumed is gone and the kyber key the message named is marked, both only
  when the core says they were used.\<close>

definition first_message_done ::
    "'c world \<Rightarrow> pre_key_message \<Rightarrow> protocol_address \<Rightarrow> opened_parts \<Rightarrow> public_key \<Rightarrow> 'c world \<Rightarrow> bool" where
  "first_message_done w message a opened k w' \<longleftrightarrow>
     (let c = op_consumed opened; pqId = PreKeyMessage_kyberPreKeyId message; before = mem_others w in
      mem_wf w' \<and> mem_session w' = (mem_session w)(ProtocolAddress_toString a \<mapsto> op_record opened) \<and>
      mem_known w' = (mem_known w)(ProtocolAddress_toString a \<mapsto> k) \<and>
      rest_preKeys (mem_others w') = (case c_oneTimeId c of
        Some i \<Rightarrow> if c_used c then (rest_preKeys before)(i := None) else rest_preKeys before
      | None \<Rightarrow> rest_preKeys before) \<and>
      rest_used (mem_others w') = (case pqId of
        Some i \<Rightarrow> if c_used c then insert i (rest_used before) else rest_used before
      | None \<Rightarrow> rest_used before) \<and>
      rest_signed (mem_others w') = rest_signed before \<and> rest_kyber (mem_others w') = rest_kyber before)"

text \<open>The keys a first message names, as bytes for the core; empty for a key it does not name.\<close>

definition first_message_keys :: "'c world \<Rightarrow> pre_key_message \<Rightarrow> bytes \<Rightarrow> bytes \<Rightarrow> bytes \<Rightarrow> bool" where
  "first_message_keys w message sgd oneTime pq \<longleftrightarrow>
     (\<exists>x. rest_signed (mem_others w) (PreKeyMessage_signedPreKeyId message) = Some x \<and> sgd = sr_bytes x) \<and>
     (case PreKeyMessage_preKeyId message of None \<Rightarrow> oneTime = []
        | Some j \<Rightarrow> \<exists>v. rest_preKeys (mem_others w) j = Some v \<and> oneTime = pr_bytes v) \<and>
     (case PreKeyMessage_kyberPreKeyId message of None \<Rightarrow> pq = []
        | Some j \<Rightarrow> \<exists>v. rest_kyber (mem_others w) j = Some v \<and> pq = sr_bytes v)"

text \<open>C2: \<^verbatim>\<open>sessionDecryptPreKey\<close> that throws leaves every store as it was: no key is
  consumed by a message that does not open or comes from an untrusted identity. One that returns
  had the keys the message names and a trusted identity, and its effect is \<open>first_message_done\<close>.\<close>

theorem sessionDecryptPreKey_effect:
  assumes "mem_wf w"
    and "runT (sessionDecryptPreKey (mem_env K lower) message a mem_session_store mem_identity_store
           mem_pre_key_store mem_signed_pre_key_store mem_kyber_pre_key_store local) w = (r, w')"
  shows "case r of
      Inl e \<Rightarrow> stores_kept w w' \<and>
        (\<not> first_use (mem_known w) (ProtocolAddress_toString a) (PreKeyMessage_identityKey message) \<longrightarrow> e = untrusted a)
    | Inr plain \<Rightarrow> (\<exists>sk i sgd oneTime pq opened w1 k.
        first_use (mem_known w) (ProtocolAddress_toString a) (PreKeyMessage_identityKey message) \<and>
        first_message_keys w message sgd oneTime pq \<and>
        core_sessionOpenFirst (world_calls K) sk i
          (case mem_session w (ProtocolAddress_toString a) of None \<Rightarrow> [] | Some b \<Rightarrow> b)
          (pm_bytes message) sgd oneTime pq (binding (Some a) local) w = (Inr opened, w1) \<and>
        plain = op_plain opened \<and> first_use (mem_known w) (ProtocolAddress_toString a) k \<and>
        first_message_done w message a opened k w')"
  using im.decryptPreKey_effect [OF assms]
  unfolding kept_unmoved im.first_message_keys_def im.first_message_done_def im.fetched_def
    first_message_keys_def first_message_done_def calls_mem_env Let_def .

subsection \<open>On the sample world\<close>

theorem sessionEncrypt_effect_witness:
  "\<exists>ct w'. runT (sessionEncrypt (mem_env sample_calls id) [0] sample_address mem_session_store mem_identity_store
       (Some 0) None) sample_world = (Inr ct, w') \<and>
     mem_session w' (js ''a.1'') = Some [2] \<and> mem_known w' = mem_known sample_world"
proof -
  obtain w' where run: "runT (sessionEncrypt (mem_env sample_calls id) [0] sample_address mem_session_store
      mem_identity_store (Some 0) None) sample_world = (Inr (CiphertextMessage 2 [1]), w')"
    by (simp add: sessionEncrypt_def sample_steps sample_env sample_parts sample_maps del: js_Cons)
  from sessionEncrypt_effect [OF sample_wf run] show ?thesis
    unfolding run by (auto simp: session_moved_def sample_core sample_address_text simp del: js_Cons)
qed

theorem sessionDecrypt_effect_witness:
  "\<exists>w'. runT (sessionDecrypt (mem_env sample_calls id) (WhisperMessage [1] \<lparr>w_version = 4, w_index = 0,
       w_previousIndex = 0, w_ratchet = []\<rparr> []) sample_address mem_session_store mem_identity_store None) sample_world =
       (Inr [3], w') \<and> mem_session w' (js ''a.1'') = Some [4]"
proof -
  obtain w' where run: "runT (sessionDecrypt (mem_env sample_calls id) (WhisperMessage [1] \<lparr>w_version = 4, w_index = 0,
       w_previousIndex = 0, w_ratchet = []\<rparr> []) sample_address mem_session_store mem_identity_store None) sample_world =
       (Inr [3], w')"
    by (simp add: sessionDecrypt_def commit_def sample_steps sample_env sample_parts sample_maps del: js_Cons)
  from sessionDecrypt_effect [OF sample_wf run] show ?thesis
    unfolding run by (auto simp: session_moved_def sample_core sample_address_text simp del: js_Cons)
qed

theorem processBundle_effect_witness:
  "\<exists>w'. runT (processBundle (mem_env sample_calls id) sample_bundle sample_address mem_session_store
       mem_identity_store None) sample_world = (Inr (), w') \<and> mem_session w' (js ''a.1'') = Some [9]"
proof -
  have k: "pb_identityKey sample_bundle = sample_key" by (simp add: sample_bundle_def)
  obtain w' where run: "runT (processBundle (mem_env sample_calls id) sample_bundle sample_address mem_session_store
       mem_identity_store None) sample_world = (Inr (), w')"
    by (simp add: processBundle_def sample_steps sample_env sample_parts sample_maps k del: js_Cons)
  from processBundle_effect [OF sample_wf run] show ?thesis
    unfolding run by (auto simp: session_moved_def sample_core sample_address_text simp del: js_Cons)
qed

theorem sessionDecryptPreKey_effect_witness:
  "\<exists>w'. runT (sessionDecryptPreKey (mem_env sample_calls id) sample_opener sample_address mem_session_store
       mem_identity_store mem_pre_key_store mem_signed_pre_key_store mem_kyber_pre_key_store None) sample_world =
       (Inr [5], w') \<and> rest_preKeys (mem_others w') 5 = None \<and> 2 \<in> rest_used (mem_others w')"
proof -
  have m: "PreKeyMessage_identityKey sample_opener = sample_key" "PreKeyMessage_preKeyId sample_opener = Some 5"
    "PreKeyMessage_kyberPreKeyId sample_opener = Some 2" "PreKeyMessage_signedPreKeyId sample_opener = 1"
    by (simp_all add: sample_opener_def sample_key_def PublicKey_unchecked_def PreKeyMessage_identityKey_def
        PreKeyMessage_preKeyId_def PreKeyMessage_kyberPreKeyId_def PreKeyMessage_signedPreKeyId_def)
  have c: "c_used sample_consumed" "c_oneTimeId sample_consumed = Some 5" by (simp_all add: sample_consumed_def)
  obtain w' where run: "runT (sessionDecryptPreKey (mem_env sample_calls id) sample_opener sample_address mem_session_store
       mem_identity_store mem_pre_key_store mem_signed_pre_key_store mem_kyber_pre_key_store None) sample_world =
       (Inr [5], w')"
    by (simp add: sessionDecryptPreKey_def commit_def sample_steps sample_env sample_parts sample_maps m c del: js_Cons)
  from sessionDecryptPreKey_effect [OF sample_wf run] show ?thesis
    unfolding run by (auto simp: first_message_done_def Let_def sample_core m c simp del: js_Cons)
qed

subsection \<open>Record objects\<close>

text \<open>Operations that leave every existing record object as it is, creating new ones at most.\<close>

definition creates :: "('c world, 'a) op \<Rightarrow> bool" where
  "creates m \<longleftrightarrow> (\<forall>w. \<exists>new. objects (snd (m w)) = objects w @ new)"

lemma creates_andThen [intro]: "creates m \<Longrightarrow> (\<And>x. creates (k x)) \<Longrightarrow> creates (andThen m k)"
  unfolding creates_def andThen_def
  by (auto split: prod.splits sum.splits) (metis append_assoc snd_conv)+

lemma creates_case [intro]:
  "creates m \<Longrightarrow> (\<And>x. creates (k x)) \<Longrightarrow> creates (case o1 of None \<Rightarrow> m | Some x \<Rightarrow> k x)"
  "(\<And>x y. creates (h x y)) \<Longrightarrow> creates (case p of (x, y) \<Rightarrow> h x y)"
  "creates m \<Longrightarrow> creates m' \<Longrightarrow> creates (if c then m else m')"
  by (cases o1, auto) (cases p, auto)

lemma creates_basic [intro]:
  "creates (ret x)" "creates (throw e)" "creates (throwIf c e)" "creates (gets f)" "creates (pureOp q)"
  "creates (on_mem m1)" "creates (on_core m2)" "creates (obj_new (mem_env K lower) b)"
  "creates (obj_bytes (mem_env K lower) r)" "creates (clock (mem_env K lower))"
  by (auto simp: creates_def on_mem_run on_core_run mem_env_def)

lemma creates_core [intro]:
  "creates (core_sessionInfo (world_calls K) b t)" "creates (core_sessionSeal (world_calls K) b m t bd)"
  "creates (core_sessionOpen (world_calls K) b m bd)" "creates (core_sessionStart (world_calls K) sk i b p t)"
  "creates (core_sessionOpenFirst (world_calls K) sk i b m s1 o1 p1 bd)"
  unfolding core_ops finish_def pair_def world_calls_def by auto

lemma creates_parts [intro]:
  "creates (runT (requireT (isTrustedIdentity mem_identity_store a k d) e))"
  "creates (runT (foundT (getSession mem_session_store a) e))"
  "creates (runT (bytesT (mem_env K lower) (getSession mem_session_store a)))"
  "creates (runT (save_new (mem_env K lower) mem_session_store a b))"
  "creates (runT (saveIdentity mem_identity_store a k))"
  "creates (runT (getIdentityKey mem_identity_store))" "creates (runT (getLocalRegistrationId mem_identity_store))"
  "creates (runT (getPreKey mem_pre_key_store i))" "creates (runT (removePreKey mem_pre_key_store i))"
  "creates (runT (getSignedPreKey mem_signed_pre_key_store i))" "creates (runT (getKyberPreKey mem_kyber_pre_key_store i))"
  "creates (runT (markKyberPreKeyUsed mem_kyber_pre_key_store i j kk))"
  "creates (date_or_now (mem_env K lower) now)"
  by (auto simp: requireT_def foundT_def bytesT_def save_new_def SessionRecord_unchecked_def mem_stores task_simps
      date_or_now_def)

lemmas creates_rules = creates_andThen creates_case creates_core creates_parts creates_basic

lemma creates_commit:
  "creates (runT (commit (mem_env K lower) b a mem_session_store mem_identity_store))"
  unfolding commit_def task_simps calls_mem_env by (intro creates_rules)

text \<open>C36: the session operations never replace the bytes of a record object a caller or the store
  already holds; they store new objects. (\<^verbatim>\<open>archiveCurrentState\<close> is the one that replaces the
  bytes in place.)\<close>

theorem record_objects_kept:
  "(\<exists>new. objects (snd (runT (sessionEncrypt (mem_env K lower) message a mem_session_store mem_identity_store
      now local) w)) = objects w @ new) \<and>
   (\<exists>new. objects (snd (runT (sessionDecrypt (mem_env K lower) whisper a mem_session_store mem_identity_store
      local) w)) = objects w @ new) \<and>
   (\<exists>new. objects (snd (runT (sessionDecryptPreKey (mem_env K lower) opener a mem_session_store mem_identity_store
      mem_pre_key_store mem_signed_pre_key_store mem_kyber_pre_key_store local) w)) = objects w @ new) \<and>
   (\<exists>new. objects (snd (runT (processBundle (mem_env K lower) bundle a mem_session_store mem_identity_store
      now) w)) = objects w @ new)"
proof -
  have "creates (runT (sessionEncrypt (mem_env K lower) message a mem_session_store mem_identity_store now local))"
    unfolding sessionEncrypt_def task_simps calls_mem_env by (intro creates_rules)
  moreover have "creates (runT (sessionDecrypt (mem_env K lower) whisper a mem_session_store mem_identity_store local))"
    unfolding sessionDecrypt_def task_simps calls_mem_env by (intro creates_rules creates_commit)
  moreover have "creates (runT (sessionDecryptPreKey (mem_env K lower) opener a mem_session_store mem_identity_store
      mem_pre_key_store mem_signed_pre_key_store mem_kyber_pre_key_store local))"
    unfolding sessionDecryptPreKey_def task_simps calls_mem_env Let_def by (intro creates_rules creates_commit)
  moreover have "creates (runT (processBundle (mem_env K lower) bundle a mem_session_store mem_identity_store now))"
    unfolding processBundle_def task_simps calls_mem_env by (intro creates_rules)
  ultimately show ?thesis unfolding creates_def by blast
qed

lemma archive_in_place:
  assumes "map_get (ms_sessions (mem w)) k = Some r" "r < length (objects w)"
    and "core_sessionShelve (world_calls K) (objects w ! r) w = (Inr b, w\<lparr>core_state := c\<rparr>)"
  shows "mem_session (snd (SessionRecord_archiveCurrentState (mem_env K lower) r w)) k = Some b"
  using assms by (simp add: SessionRecord_archiveCurrentState_def andThen_def mem_env_def mem_session_def)

subsection \<open>Two calls at once\<close>

text \<open>A core whose records are the list of what was sealed before: sealing returns the record it
  was given as the ciphertext and one more byte as the new record.\<close>

fun chain_seal :: "step list \<Rightarrow> bytes list \<times> bytes list" where
  "chain_seal (SBytes (Bytes b) # steps) = ([b, b @ [1]], [le_bytes 1 2])"
| "chain_seal steps = ([], [])"

definition chain_calls :: "nat core_calls" where
  "chain_calls = sample_calls\<lparr>run_call := (\<lambda>name steps n.
     (Inr (if name = js ''gv_session_seal'' then chain_seal steps else sample_run name), Suc n))\<rparr>"

lemma chain_core:
  "core_sessionInfo (world_calls chain_calls) b t w = (Inr sample_info, w\<lparr>core_state := Suc (core_state w)\<rparr>)"
  "core_sessionSeal (world_calls chain_calls) b m t bd w =
     (Inr \<lparr>sl_kind = 2, sl_sealed = b, sl_record = b @ [1]\<rparr>, w\<lparr>core_state := Suc (core_state w)\<rparr>)"
  by (simp_all add: core_ops finish_def pair_def andThen_def world_calls_def chain_calls_def on_core_run sample_run_def sample_reads
      bound_def getUint8_def slice_whole from_le_le_bytes del: One_nat_def)

definition chain_encrypt :: "(nat world, ciphertext_message) task" where
  "chain_encrypt = sessionEncrypt (mem_env chain_calls id) [0] sample_address mem_session_store mem_identity_store
     (Some 0) None"

text \<open>What sealing a message with the record \<open>b\<close> gives, at some time and state of the core.\<close>

definition sealed_from ::
    "'c core_calls \<Rightarrow> bytes \<Rightarrow> protocol_address \<Rightarrow> bytes \<Rightarrow> protocol_address option \<Rightarrow> sealed_parts \<Rightarrow> bool" where
  "sealed_from K b a message local s \<longleftrightarrow> (\<exists>t v v'. core_sessionSeal (world_calls K) b message t (binding local (Some a)) v = (Inr s, v'))"

text \<open>No record object changes, and the session of \<open>k\<close> is as before or one of the records \<open>X\<close>.\<close>

definition advanced_to :: "jsstring \<Rightarrow> bytes set \<Rightarrow> 'c world \<Rightarrow> 'c world \<Rightarrow> bool" where
  "advanced_to k X w w' \<longleftrightarrow> (mem_wf w \<longrightarrow> mem_wf w') \<and> (\<exists>new. objects w' = objects w @ new) \<and>
     (mem_session w' k = mem_session w k \<or> (\<exists>x\<in>X. mem_session w' k = Some x))"

interpretation ad: frame "advanced_to k X" for k X
proof
  show "advanced_to k X s u" if "advanced_to k X s t" "advanced_to k X t u" for s t u :: "'c world"
    using that by (auto simp: advanced_to_def)
qed (simp add: advanced_to_def)

lemma meets_return:
  assumes "\<And>s s'. Q (Inr x) s \<Longrightarrow> R s s' \<Longrightarrow> Q (Inr x) s'" and "\<And>s. R s s"
  shows "meets R Q (Q (Inr x)) (bindT (resumeWith (Inr y)) (\<lambda>_. sync (ret x)))"
  by (rule meets.segment) (use assms in \<open>auto simp: exec_bindT\<close>)

lemma advanced_seal:
  assumes "mem_wf w" "core_sessionSeal (world_calls K) b m t bd w = (r, w1)"
  shows "advanced_to k X w w1"
proof -
  have "\<exists>new. objects w1 = objects w @ new"
    using creates_core(2) [of K b m t bd] assms(2) by (auto simp: creates_def dest: spec [of _ w])
  with im.core_unmoved(2) [of w K, unfolded calls_mem_env, OF assms, unfolded kept_unmoved stores_kept_def]
  show ?thesis by (simp add: advanced_to_def)
qed

lemma advanced_info:
  assumes "mem_wf w" "core_sessionInfo (world_calls K) b t w = (r, w1)"
  shows "advanced_to k X w w1"
proof -
  have "\<exists>new. objects w1 = objects w @ new"
    using creates_core(1) [of K b t] assms(2) by (auto simp: creates_def dest: spec [of _ w])
  with im.core_unmoved(1) [of w K, unfolded calls_mem_env, OF assms, unfolded kept_unmoved stores_kept_def]
  show ?thesis by (simp add: advanced_to_def)
qed

text \<open>A call that has loaded its session.\<close>

definition sealed_reply ::
    "'c core_calls \<Rightarrow> bytes \<Rightarrow> protocol_address \<Rightarrow> bytes \<Rightarrow> protocol_address option \<Rightarrow> bytes set \<Rightarrow>
      js_error + ciphertext_message \<Rightarrow> 'c world \<Rightarrow> bool" where
  "sealed_reply K b a message local X r w \<longleftrightarrow> (\<forall>ct. r = Inr ct \<longrightarrow>
     (\<exists>s. sealed_from K b a message local s \<and> ct = CiphertextMessage (sl_kind s) (sl_sealed s)) \<and>
     (\<exists>x\<in>X. mem_session w (ProtocolAddress_toString a) = Some x))"

lemma sealed_reply_stable:
  "sealed_reply K b a message local X r w \<Longrightarrow> advanced_to (ProtocolAddress_toString a) X w w' \<Longrightarrow>
   sealed_reply K b a message local X r w'"
  unfolding sealed_reply_def advanced_to_def by metis

lemma encrypt_stores:
  assumes s: "sealed_from K b a message local s" "sl_record s \<in> X" and ct: "ct = CiphertextMessage (sl_kind s) (sl_sealed s)"
  shows "meets (advanced_to (ProtocolAddress_toString a) X) (sealed_reply K b a message local X) mem_wf
    (bindT (bindT (resumeWith (Inr ok)) (\<lambda>ok. sync (throwIf (\<not> ok) (untrusted a)))) (\<lambda>_.
     bindT (save_new (mem_env K lower) mem_session_store a (sl_record s)) (\<lambda>_. sync (ret ct))))"
proof (rule meets.segment, goal_cases)
  case 1
  then show ?case by (simp add: advanced_to_def)
next
  case (2 w r w')
  then show ?case
    by (auto simp: exec_bindT exec_awaitT save_new_def SessionRecord_unchecked_def mem_env_def mem_session_store_def
        sealed_reply_def ad.frame_refl split: if_splits)
next
  case (3 w u w')
  obtain w1 where save: "runT (save_new (mem_env K lower) mem_session_store a (sl_record s)) w = (Inr (), w1)" "mem_wf w1"
    "mem_session w1 = (mem_session w)(ProtocolAddress_toString a \<mapsto> sl_record s)"
    using mem_save [OF \<open>mem_wf w\<close>] by blast
  have u: "ok" "u = bindT (resumeWith (Inr ())) (\<lambda>_. sync (ret ct))" "w' = w1"
    using 3(2) save(1)
    by (auto simp: exec_bindT exec_awaitT save_new_def task_simps andThen_apply SessionRecord_unchecked_def mem_env_def
        mem_session_store_def on_mem_run ms_saveSession_def split: if_splits)
  have "\<exists>new. objects w1 = objects w @ new"
    using creates_parts(4) [of K lower a "sl_record s"] save(1) by (auto simp: creates_def dest: spec [of _ w])
  with save s(2) have "advanced_to (ProtocolAddress_toString a) X w w1" by (auto simp: advanced_to_def)
  moreover have "sealed_reply K b a message local X (Inr ct) w1"
    using s save(3) ct by (auto simp: sealed_reply_def)
  moreover have "meets (advanced_to (ProtocolAddress_toString a) X) (sealed_reply K b a message local X)
      (sealed_reply K b a message local X (Inr ct)) u"
    unfolding u(2) by (rule meets_return) (auto intro: sealed_reply_stable ad.frame_refl)
  ultimately show ?case using u(3) by blast
qed

lemma encrypt_loads:
  fixes w :: "'c world"
  assumes wf: "mem_wf w" and b: "mem_session w (ProtocolAddress_toString a) = Some b"
    and X: "\<And>s. sealed_from K b a message local s \<Longrightarrow> sl_record s \<in> X"
  shows "\<exists>u. exec (sessionEncrypt (mem_env K lower) message a mem_session_store mem_identity_store now local) w = (Await u, w) \<and>
    promised (advanced_to (ProtocolAddress_toString a) X) (sealed_reply K b a message local X) w (Await u)"
proof -
  let ?R = "advanced_to (ProtocolAddress_toString a) X" and ?Q = "sealed_reply K b a message local X"
  define date where "date = (case now of None \<Rightarrow> clock_ms w | Some t \<Rightarrow> t)"
  from b obtain r where r: "map_get (ms_sessions (mem w)) (ProtocolAddress_toString a) = Some r" "objects w ! r = b"
    by (auto simp: mem_session_def)
  with wf have len: "r < length (objects w)" by (auto simp: mem_wf_def)
  define P where "P v \<longleftrightarrow> mem_wf v \<and> r < length (objects v) \<and> objects v ! r = b" for v :: "'c world"
  let ?u = "bindT (bindT (resumeWith (Inr (Some r))) (\<lambda>r. sync (case r of None \<Rightarrow> throw (no_session a) | Some x \<Rightarrow> ret x))) (\<lambda>session.
     bindT (sync (obj_bytes (mem_env K lower) session)) (\<lambda>b.
     bindT (sync (core_sessionSeal (world_calls K) b message (nowSecs date) (binding local (Some a)))) (\<lambda>s.
     bindT (sync (core_sessionInfo (world_calls K) (sl_record s) (nowSecs date))) (\<lambda>info.
     bindT (requireT (isTrustedIdentity mem_identity_store a (PublicKey_unchecked (remoteIdentity info)) Sending)
              (untrusted a)) (\<lambda>_.
     bindT (save_new (mem_env K lower) mem_session_store a (sl_record s)) (\<lambda>_.
     sync (ret (CiphertextMessage (sl_kind s) (sl_sealed s)))))))))"
  have u: "exec (sessionEncrypt (mem_env K lower) message a mem_session_store mem_identity_store now local) w = (Await ?u, w)"
    by (simp add: sessionEncrypt_def exec_bindT exec_awaitT foundT_def date_or_now_def calls_mem_env mem_session_store_def
        on_mem_run ms_getSession_def r(1) date_def sample_env split: option.split)
  have "meets ?R ?Q P ?u"
  proof (rule meets.segment, goal_cases)
    case (1 v v')
    then show ?case by (auto simp: P_def advanced_to_def nth_append)
  next
    case (2 v res v')
    obtain rs v1 where seal: "core_sessionSeal (world_calls K) b message (nowSecs date) (binding local (Some a)) v = (rs, v1)"
      by fastforce
    have wf: "mem_wf v" and 1: "?R v v1" using 2(1) advanced_seal [OF _ seal] by (auto simp: P_def)
    then have wf1: "mem_wf v1" by (simp add: advanced_to_def)
    show ?case
    proof (cases rs)
      case (Inl e)
      with 2 seal 1 show ?thesis by (auto simp: exec_bindT sample_env P_def sealed_reply_def)
    next
      case (Inr s)
      obtain ri v2 where info: "core_sessionInfo (world_calls K) (sl_record s) (nowSecs date) v1 = (ri, v2)" by fastforce
      have "?R v v2" using 1 advanced_info [OF wf1 info] by (rule ad.frame_trans)
      with 2 seal Inr info show ?thesis
        by (auto simp: exec_bindT exec_awaitT sample_env P_def requireT_def mem_identity_store_def sealed_reply_def
            split: sum.splits)
    qed
  next
    case (3 v t v')
    obtain rs v1 where seal: "core_sessionSeal (world_calls K) b message (nowSecs date) (binding local (Some a)) v = (rs, v1)"
      by fastforce
    have wf: "mem_wf v" and 1: "?R v v1" using 3(1) advanced_seal [OF _ seal] by (auto simp: P_def)
    then have wf1: "mem_wf v1" by (simp add: advanced_to_def)
    from 3 seal obtain s where s: "rs = Inr s" by (cases rs) (simp_all add: exec_bindT sample_env P_def)
    obtain ri v2 where info: "core_sessionInfo (world_calls K) (sl_record s) (nowSecs date) v1 = (ri, v2)" by fastforce
    have 2: "?R v v2" using 1 advanced_info [OF wf1 info] by (rule ad.frame_trans)
    have from_b: "sealed_from K b a message local s" using seal s by (auto simp: sealed_from_def)
    obtain ok where t: "v' = v2" "t = bindT (bindT (resumeWith (Inr ok)) (\<lambda>ok. sync (throwIf (\<not> ok) (untrusted a)))) (\<lambda>_.
     bindT (save_new (mem_env K lower) mem_session_store a (sl_record s)) (\<lambda>_.
     sync (ret (CiphertextMessage (sl_kind s) (sl_sealed s)))))"
      using 3 seal s info
      by (auto simp: exec_bindT exec_awaitT sample_env P_def requireT_def mem_identity_store_def on_mem_run
          ms_isTrustedIdentity_def split: sum.splits)
    have "mem_wf v2" using wf 2 by (simp add: advanced_to_def)
    with 2 encrypt_stores [OF from_b X [OF from_b] refl] show ?case unfolding t by blast
  qed
  moreover have "P w" using wf len r(2) by (simp add: P_def)
  ultimately have "promised ?R ?Q w (Await ?u)" unfolding promised_def outcome.case by blast
  with u show ?thesis by blast
qed

text \<open>C35: calls of \<^verbatim>\<open>sessionEncrypt\<close> for one address are not isolated from each other. Let
  any number of them load the session before any of them resumes; then, however they are scheduled
  after that and whichever of them throw, every ciphertext returned is sealed with the same record,
  the one that was stored when they began; and the store then holds one single advance of that record,
  however many messages were sealed with it, unless no call returned and it holds the record itself.\<close>

theorem concurrent_encrypt:
  assumes "mem_wf w" "mem_session w (ProtocolAddress_toString a) = Some b"
    and "run_schedule ([0..<length messages] @ sched)
       (map (\<lambda>(m, now, local). Await (sessionEncrypt (mem_env K lower) m a mem_session_store mem_identity_store now local)) messages) w =
       (pool, w')"
  shows "(\<forall>i<length messages. \<forall>ct. pool ! i = Done (Inr ct) \<longrightarrow>
      (\<exists>s. sealed_from K b a (fst (messages ! i)) (snd (snd (messages ! i))) s \<and> ct = CiphertextMessage (sl_kind s) (sl_sealed s))) \<and>
    (mem_session w' (ProtocolAddress_toString a) = Some b \<and> (\<forall>i<length messages. \<forall>ct. pool ! i \<noteq> Done (Inr ct)) \<or>
     (\<exists>i<length messages. \<exists>s. sealed_from K b a (fst (messages ! i)) (snd (snd (messages ! i))) s \<and>
        mem_session w' (ProtocolAddress_toString a) = Some (sl_record s)))"
proof -
  define X where "X = {sl_record s |i s. i < length messages \<and> sealed_from K b a (fst (messages ! i)) (snd (snd (messages ! i))) s}"
  define Q where "Q i = sealed_reply K b a (fst (messages ! i)) (snd (snd (messages ! i))) X" for i
  let ?R = "advanced_to (ProtocolAddress_toString a) X"
  define ts where "ts = map (\<lambda>(m, now, local). sessionEncrypt (mem_env K lower) m a mem_session_store mem_identity_store now local) messages"
  have "\<exists>u. i < length messages \<longrightarrow> exec (ts ! i) w = (Await u, w) \<and> promised ?R (Q i) w (Await u)" for i
  proof (cases "i < length messages")
    case True
    have "sl_record s \<in> X" if "sealed_from K b a (fst (messages ! i)) (snd (snd (messages ! i))) s" for s
      using that True by (auto simp: X_def)
    from encrypt_loads [OF assms(1,2) this] True show ?thesis
      by (auto simp: ts_def Q_def split: prod.split)
  qed simp
  then obtain u where u: "i < length messages \<Longrightarrow> exec (ts ! i) w = (Await (u i), w) \<and> promised ?R (Q i) w (Await (u i))" for i
    by metis
  let ?us = "map u [0..<length messages]"
  have run: "run_schedule sched (map Await ?us) w = (pool, w')"
    using start_all [of ts w ?us sched] u assms(3) by (simp add: ts_def comp_def case_prod_unfold)
  have kept: "?R w w' \<and> length pool = length messages \<and> (\<forall>i<length messages. promised ?R (Q i) w' (pool ! i))"
    using ad.keep_promises [of Q _ X "map Await ?us" w sched pool w', OF _ _ run] u
    by (auto simp: Q_def intro: sealed_reply_stable)
  have done1: "(\<exists>s. sealed_from K b a (fst (messages ! i)) (snd (snd (messages ! i))) s \<and> ct = CiphertextMessage (sl_kind s) (sl_sealed s)) \<and>
      (\<exists>x\<in>X. mem_session w' (ProtocolAddress_toString a) = Some x)" if "i < length messages" "pool ! i = Done (Inr ct)" for i ct
    using kept that by (auto simp: promised_def Q_def sealed_reply_def)
  moreover have "mem_session w' (ProtocolAddress_toString a) = Some b \<or> (\<exists>x\<in>X. mem_session w' (ProtocolAddress_toString a) = Some x)"
    using kept assms(2) by (auto simp: advanced_to_def)
  ultimately show ?thesis unfolding X_def by blast
qed

theorem concurrent_encrypt_witness:
  "\<exists>pool w' s1 s2. run_schedule [0, 1, 0, 0, 0, 1, 1, 1] [Await chain_encrypt, Await chain_encrypt] sample_world = (pool, w') \<and>
     pool = [Done (Inr (CiphertextMessage 2 [7])), Done (Inr (CiphertextMessage 2 [7]))] \<and>
     sealed_from chain_calls [7] sample_address [0] None s1 \<and> sl_sealed s1 = [7] \<and>
     sealed_from chain_calls [7] sample_address [0] None s2 \<and> mem_session w' (js ''a.1'') = Some (sl_record s2)"
proof -
  obtain w' where run: "run_schedule [0, 1, 0, 0, 0, 1, 1, 1] [Await chain_encrypt, Await chain_encrypt] sample_world =
      ([Done (Inr (CiphertextMessage 2 [7])), Done (Inr (CiphertextMessage 2 [7]))], w')"
    by (simp add: chain_encrypt_def sessionEncrypt_def exec_bindT exec_awaitT foundT_def requireT_def save_new_def
      calls_mem_env chain_core SessionRecord_unchecked_def on_mem_run mem_ops mem_stores sample_address_text date_or_now_def
      sample_env sample_parts sample_maps nth_append del: js_Cons)
  have b: "mem_session sample_world (ProtocolAddress_toString sample_address) = Some [7]"
    by (simp add: sample_views sample_address_text del: js_Cons)
  have "run_schedule ([0..<length [([0], Some 0, None), ([0], Some 0, None)]] @ [0, 0, 0, 1, 1, 1])
      (map (\<lambda>(m, now, local). Await (sessionEncrypt (mem_env chain_calls id) m sample_address mem_session_store mem_identity_store now local))
        [([0], Some 0, None), ([0], Some 0, None)]) sample_world =
      ([Done (Inr (CiphertextMessage 2 [7])), Done (Inr (CiphertextMessage 2 [7]))], w')"
    using run by (simp add: chain_encrypt_def upt_rec del: run_schedule.simps)
  note both = concurrent_encrypt [OF sample_wf b this]
  have "\<exists>s1. sealed_from chain_calls [7] sample_address [0] None s1 \<and> sl_sealed s1 = [7]"
    using both [THEN conjunct1, THEN spec, of 0] by auto
  moreover have "\<exists>s2. sealed_from chain_calls [7] sample_address [0] None s2 \<and> mem_session w' (js ''a.1'') = Some (sl_record s2)"
  proof -
    have "[([0], Some 0, None), ([0], Some 0, None)] ! i = ([0 :: byte], Some (0 :: int), None :: protocol_address option)"
      if "i < length [([0 :: byte], Some (0 :: int), None :: protocol_address option), ([0], Some 0, None)]" for i
      using that by (auto simp: less_Suc_eq)
    with both [THEN conjunct2] show ?thesis unfolding sample_address_text by fastforce
  qed
  ultimately show ?thesis using run by blast
qed

end
