(* ===== verification/Group_Facts.thy ===== *)
theory Group_Facts
  imports Sample_Peer
begin

text \<open>
  The sender-key functions of \<^verbatim>\<open>sdk/ts/src/api.ts\<close>: what they rely on from a
  \<^verbatim>\<open>SenderKeyStore\<close> (the locale \<open>sender_key_host\<close>), their effects from these laws, the
  interpretation on \<open>InMemoryProtocolStore\<close>, and the names under which it keeps sender keys.
\<close>

lemmas group_core_ops = core_circleSeal_def core_circleOpen_def core_circleAdmit_def core_circleAnnounce_def
  core_noteParse_def core_announceParse_def

locale sender_key_host =
  fixes E :: "'w env" and KS :: "'w sender_key_store"
    and wf :: "'w \<Rightarrow> bool"
    and name_of :: "protocol_address \<Rightarrow> jsstring \<Rightarrow> jsstring"
    and skey :: "'w \<Rightarrow> jsstring \<Rightarrow> bytes option"
    and rest :: "'w \<Rightarrow> 'r"
  assumes load_none: "wf w \<Longrightarrow> skey w (name_of a d) = None \<Longrightarrow> runT (getSenderKey KS a d) w = (Inr None, w)"
    and load_some: "wf w \<Longrightarrow> skey w (name_of a d) = Some b \<Longrightarrow>
      \<exists>r. runT (getSenderKey KS a d) w = (Inr (Some r), w) \<and> obj_bytes E r w = (Inr b, w)"
    and save: "wf w \<Longrightarrow> \<exists>w'. runT (save_sender_key E KS a d b) w = (Inr (), w') \<and> wf w' \<and>
      skey w' = (skey w)(name_of a d \<mapsto> b) \<and> rest w' = rest w"
    and core_frame: "wf w \<Longrightarrow> run_call (calls E) n st w = (r0, w') \<Longrightarrow> wf w' \<and> skey w' = skey w \<and> rest w' = rest w"
begin

definition unmoved :: "'w \<Rightarrow> 'w \<Rightarrow> bool" where
  "unmoved w w' \<longleftrightarrow> wf w' \<and> skey w' = skey w \<and> rest w' = rest w"

definition stepped :: "'w \<Rightarrow> jsstring \<Rightarrow> bytes \<Rightarrow> 'w \<Rightarrow> bool" where
  "stepped w n b w' \<longleftrightarrow> wf w' \<and> skey w' = (skey w)(n \<mapsto> b) \<and> rest w' = rest w"

lemma unmoved_refl: "wf w \<Longrightarrow> unmoved w w"
  by (simp add: unmoved_def)

lemma group_core_unmoved:
  "wf w \<Longrightarrow> core_circleSeal (calls E) b c m w = (r1, w') \<Longrightarrow> unmoved w w'"
  "wf w \<Longrightarrow> core_circleOpen (calls E) b m w = (r2, w') \<Longrightarrow> unmoved w w'"
  "wf w \<Longrightarrow> core_circleAdmit (calls E) b m w = (r3, w') \<Longrightarrow> unmoved w w'"
  "wf w \<Longrightarrow> core_circleAnnounce (calls E) b c w = (r4, w') \<Longrightarrow> unmoved w w'"
  "wf w \<Longrightarrow> core_noteParse (calls E) m w = (r5, w') \<Longrightarrow> unmoved w w'"
  unfolding unmoved_def group_core_ops by (blast dest: core_runs core_frame)+

lemma found_none: "wf w \<Longrightarrow> skey w (name_of a d) = None \<Longrightarrow> runT (foundT (getSenderKey KS a d) e) w = (Inl e, w)"
  by (simp add: foundT_def task_simps andThen_def load_none)

lemma found_some:
  assumes "wf w" "skey w (name_of a d) = Some b"
  shows "\<exists>r. runT (foundT (getSenderKey KS a d) e) w = (Inr r, w) \<and> obj_bytes E r w = (Inr b, w)"
  using load_some [OF assms] by (auto simp: foundT_def task_simps andThen_def)

lemma bytes_run:
  "wf w \<Longrightarrow> runT (bytesT E (getSenderKey KS a d)) w = (Inr (case skey w (name_of a d) of None \<Rightarrow> [] | Some b \<Rightarrow> b), w)"
  using load_none [of w a d] load_some [of w a d]
  by (cases "skey w (name_of a d)") (auto simp: bytesT_def task_simps andThen_def)

lemma encrypt_effect:
  assumes wf: "wf w" and run: "runT (groupEncrypt E a d KS message) w = (r, w')"
  shows "case r of
      Inl e \<Rightarrow> unmoved w w' \<and> (skey w (name_of a d) = None \<longrightarrow> e = no_sender_key a d)
    | Inr ct \<Rightarrow> (\<exists>b c note1 b' w1. skey w (name_of a d) = Some b \<and> uuidToBytes d = Inr c \<and>
        core_circleSeal (calls E) b c message w = (Inr (note1, b'), w1) \<and>
        ct = CiphertextMessage 7 note1 \<and> stepped w (name_of a d) b' w')"
proof (cases "skey w (name_of a d)")
  case None
  then have "r = Inl (no_sender_key a d)" "w' = w"
    using run found_none [OF wf None] by (simp_all add: groupEncrypt_def task_simps andThen_def)
  then show ?thesis using wf by (simp add: unmoved_refl)
next
  case (Some b)
  obtain x where x: "runT (foundT (getSenderKey KS a d) (no_sender_key a d)) w = (Inr x, w)" "obj_bytes E x w = (Inr b, w)"
    using found_some [OF wf Some] by blast
  show ?thesis
  proof (cases "uuidToBytes d")
    case (Inl e)
    with run x have "r = Inl e" "w' = w" by (simp_all add: groupEncrypt_def task_simps andThen_def)
    with wf Some show ?thesis by (simp add: unmoved_refl)
  next
    case c: (Inr c)
    obtain rs w1 where s: "core_circleSeal (calls E) b c message w = (rs, w1)" by fastforce
    note u = group_core_unmoved(1) [OF wf s]
    show ?thesis
    proof (cases rs)
      case (Inl e)
      with run x c s have "r = Inl e" "w' = w1" by (simp_all add: groupEncrypt_def task_simps andThen_def)
      with u Some show ?thesis by simp
    next
      case (Inr nb)
      obtain note1 b' where nb: "nb = (note1, b')" by (cases nb)
      have "wf w1" using u by (simp add: unmoved_def)
      from save [OF this, of a d b'] obtain w2 where sv: "runT (save_sender_key E KS a d b') w1 = (Inr (), w2)" "wf w2"
        "skey w2 = (skey w1)(name_of a d \<mapsto> b')" "rest w2 = rest w1" by blast
      have "r = Inr (CiphertextMessage 7 note1)" "w' = w2"
        using run x c s Inr nb sv(1) by (simp_all add: groupEncrypt_def task_simps andThen_def)
      moreover have "stepped w (name_of a d) b' w2" using u sv(2-) by (simp add: stepped_def unmoved_def)
      ultimately show ?thesis using Some c s Inr nb by auto
    qed
  qed
qed

lemma decrypt_effect:
  assumes wf: "wf w" and run: "runT (groupDecrypt E a KS message) w = (r, w')"
  shows "case r of
      Inl e \<Rightarrow> unmoved w w'
    | Inr plain \<Rightarrow> (\<exists>note1 body d b b' w1 w2. core_noteParse (calls E) message w = (Inr (note1, body), w1) \<and>
        bytesToUuid (no_circleId note1) = Inr d \<and> skey w (name_of a d) = Some b \<and>
        core_circleOpen (calls E) b message w1 = (Inr (plain, b'), w2) \<and> stepped w (name_of a d) b' w')"
proof -
  obtain rn w1 where n: "core_noteParse (calls E) message w = (rn, w1)" by fastforce
  note u1 = group_core_unmoved(5) [OF wf n]
  then have wf1: "wf w1" and k1: "skey w1 = skey w" by (simp_all add: unmoved_def)
  show ?thesis
  proof (cases rn)
    case (Inl e)
    with run n have "r = Inl e" "w' = w1" by (simp_all add: groupDecrypt_def task_simps andThen_def)
    with u1 show ?thesis by simp
  next
    case rn: (Inr nb)
    obtain note1 body where nb: "nb = (note1, body)" by (cases nb)
    show ?thesis
    proof (cases "bytesToUuid (no_circleId note1)")
      case (Inl e)
      with run n rn nb have "r = Inl e" "w' = w1" by (simp_all add: groupDecrypt_def task_simps andThen_def)
      with u1 show ?thesis by simp
    next
      case d: (Inr d)
      show ?thesis
      proof (cases "skey w (name_of a d)")
        case None
        with k1 have "skey w1 (name_of a d) = None" by simp
        from found_none [OF wf1 this, of "no_sender_key a d"] run n rn nb d
        have "r = Inl (no_sender_key a d)" "w' = w1" by (simp_all add: groupDecrypt_def task_simps andThen_def)
        with u1 show ?thesis by simp
      next
        case (Some b)
        with k1 have "skey w1 (name_of a d) = Some b" by simp
        from found_some [OF wf1 this] obtain x where
          x: "runT (foundT (getSenderKey KS a d) (no_sender_key a d)) w1 = (Inr x, w1)" "obj_bytes E x w1 = (Inr b, w1)"
          by blast
        obtain ro w2 where o: "core_circleOpen (calls E) b message w1 = (ro, w2)" by fastforce
        note u2 = group_core_unmoved(2) [OF wf1 o]
        have u: "unmoved w w2" using u1 u2 by (simp add: unmoved_def)
        show ?thesis
        proof (cases ro)
          case (Inl e)
          with run n rn nb d x o have "r = Inl e" "w' = w2" by (simp_all add: groupDecrypt_def task_simps andThen_def)
          with u show ?thesis by simp
        next
          case ro: (Inr pb)
          obtain plain b' where pb: "pb = (plain, b')" by (cases pb)
          have "wf w2" using u by (simp add: unmoved_def)
          from save [OF this, of a d b'] obtain w3 where sv: "runT (save_sender_key E KS a d b') w2 = (Inr (), w3)" "wf w3"
            "skey w3 = (skey w2)(name_of a d \<mapsto> b')" "rest w3 = rest w2" by blast
          have "r = Inr plain" "w' = w3"
            using run n rn nb d x o ro pb sv(1) by (simp_all add: groupDecrypt_def task_simps andThen_def)
          moreover have "stepped w (name_of a d) b' w3" using u sv(2-) by (simp add: stepped_def unmoved_def)
          ultimately show ?thesis using n rn nb d Some o ro pb by auto
        qed
      qed
    qed
  qed
qed

lemma admit_effect:
  assumes wf: "wf w" and run: "runT (processSenderKeyDistributionMessage E a message KS) w = (r, w')"
  shows "case r of
      Inl e \<Rightarrow> unmoved w w'
    | Inr u \<Rightarrow> (\<exists>b' w1. core_circleAdmit (calls E) (case skey w (name_of a (dm_distributionId message)) of None \<Rightarrow> [] | Some b \<Rightarrow> b)
          (dm_bytes message) w = (Inr b', w1) \<and> stepped w (name_of a (dm_distributionId message)) b' w')"
proof -
  define ex where "ex = (case skey w (name_of a (dm_distributionId message)) of None \<Rightarrow> [] | Some b \<Rightarrow> b)"
  note ld = bytes_run [OF wf, of a "dm_distributionId message", folded ex_def]
  obtain rs w1 where s: "core_circleAdmit (calls E) ex (dm_bytes message) w = (rs, w1)" by fastforce
  note u = group_core_unmoved(3) [OF wf s]
  show ?thesis
  proof (cases rs)
    case (Inl e)
    with run ld s have "r = Inl e" "w' = w1"
      by (simp_all add: processSenderKeyDistributionMessage_def task_simps andThen_def)
    with u show ?thesis by simp
  next
    case (Inr b')
    have "wf w1" using u by (simp add: unmoved_def)
    from save [OF this, of a "dm_distributionId message" b'] obtain w2 where
      sv: "runT (save_sender_key E KS a (dm_distributionId message) b') w1 = (Inr (), w2)" "wf w2"
      "skey w2 = (skey w1)(name_of a (dm_distributionId message) \<mapsto> b')" "rest w2 = rest w1" by blast
    have "r = Inr ()" "w' = w2"
      using run ld s Inr sv(1) by (simp_all add: processSenderKeyDistributionMessage_def task_simps andThen_def)
    moreover have "stepped w (name_of a (dm_distributionId message)) b' w2"
      using u sv(2-) by (simp add: stepped_def unmoved_def)
    ultimately show ?thesis using s Inr unfolding ex_def by auto
  qed
qed

end

subsection \<open>The in-memory store\<close>

text \<open>Everything but the sender keys.\<close>

definition mem_not_sender_keys ::
    "'c world \<Rightarrow> (jsstring \<Rightarrow> bytes option) \<times> (jsstring \<Rightarrow> public_key option) \<times> mem_rest" where
  "mem_not_sender_keys w = (mem_session w, mem_known w, (mem_others w)\<lparr>rest_senderKeys := Map.empty\<rparr>)"

lemma mem_save_sender_key:
  assumes "mem_wf w"
  shows "\<exists>w'. runT (save_sender_key (mem_env K lower) (mem_sender_key_store lower) a d b) w = (Inr (), w') \<and> mem_wf w' \<and>
    mem_sender_key w' = (mem_sender_key w)(senderKeyName lower a d \<mapsto> b) \<and> mem_not_sender_keys w' = mem_not_sender_keys w"
proof -
  define w' where "w' = w\<lparr>objects := objects w @ [b],
     mem := (mem w)\<lparr>ms_senderKeys := map_set (senderKeyName lower a d) (length (objects w)) (ms_senderKeys (mem w))\<rparr>\<rparr>"
  have "runT (save_sender_key (mem_env K lower) (mem_sender_key_store lower) a d b) w = (Inr (), w')"
    by (simp add: save_sender_key_def task_simps andThen_def SenderKeyRecord_unchecked_def mem_env_def
        mem_sender_key_store_def on_mem_run ms_saveSenderKey_def w'_def)
  moreover have "mem_wf w'"
    using assms by (auto simp: mem_wf_def w'_def split: if_splits intro: less_SucI)
  moreover have "mem_sender_key w' = (mem_sender_key w)(senderKeyName lower a d \<mapsto> b)"
  proof
    fix k
    show "mem_sender_key w' k = ((mem_sender_key w)(senderKeyName lower a d \<mapsto> b)) k"
      using assms map_option_nth_append [of "map_get (ms_senderKeys (mem w))" "objects w" "[b]" k]
      by (simp add: mem_sender_key_def mem_wf_def w'_def nth_append)
  qed
  moreover have "mem_session w' = mem_session w"
    using assms map_option_nth_append [of "map_get (ms_sessions (mem w))" "objects w" "[b]"]
    by (auto simp: mem_session_def mem_wf_def w'_def)
  then have "mem_not_sender_keys w' = mem_not_sender_keys w"
    by (simp add: mem_not_sender_keys_def mem_others_def mem_known_def w'_def)
  ultimately show ?thesis by blast
qed

interpretation ik: sender_key_host "mem_env K lower" "mem_sender_key_store lower" mem_wf "senderKeyName lower"
    mem_sender_key mem_not_sender_keys
  for K :: "'c core_calls" and lower
proof (unfold_locales, goal_cases)
  case 1 then show ?case
    by (auto simp: mem_sender_key_store_def task_simps on_mem_run ms_getSenderKey_def mem_sender_key_def)
next
  case 2 then show ?case
    by (auto simp: mem_sender_key_store_def task_simps on_mem_run ms_getSenderKey_def mem_sender_key_def mem_env_def)
next
  case 3 then show ?case by (rule mem_save_sender_key)
next
  case (4 w n st r0 w')
  then show ?case using mem_core_frame(1) by (fastforce simp: mem_not_sender_keys_def mem_others_def)
qed

text \<open>Nothing of the store moved, or the sender key of one name alone.\<close>

definition sender_keys_kept :: "'c world \<Rightarrow> 'c world \<Rightarrow> bool" where
  "sender_keys_kept w w' \<longleftrightarrow> mem_wf w' \<and> mem_sender_key w' = mem_sender_key w \<and> mem_not_sender_keys w' = mem_not_sender_keys w"

definition sender_key_moved :: "'c world \<Rightarrow> jsstring \<Rightarrow> bytes \<Rightarrow> 'c world \<Rightarrow> bool" where
  "sender_key_moved w n b w' \<longleftrightarrow> mem_wf w' \<and> mem_sender_key w' = (mem_sender_key w)(n \<mapsto> b) \<and>
     mem_not_sender_keys w' = mem_not_sender_keys w"

lemma group_views: "ik.unmoved w w' = sender_keys_kept w w'" "ik.stepped w n b w' = sender_key_moved w n b w'"
  by (simp_all add: ik.unmoved_def ik.stepped_def sender_keys_kept_def sender_key_moved_def)

text \<open>C7: \<^verbatim>\<open>groupEncrypt\<close> that throws leaves every store as it was; one that returns has
  sealed with the sender key stored for the sender and the distribution id, stored the key the core
  stepped to under the same name, and moved nothing else.\<close>

theorem groupEncrypt_effect:
  assumes "mem_wf w"
    and "runT (groupEncrypt (mem_env K lower) a d (mem_sender_key_store lower) message) w = (r, w')"
  shows "case r of
      Inl e \<Rightarrow> sender_keys_kept w w' \<and> (mem_sender_key w (senderKeyName lower a d) = None \<longrightarrow> e = no_sender_key a d)
    | Inr ct \<Rightarrow> (\<exists>b c note1 b' w1. mem_sender_key w (senderKeyName lower a d) = Some b \<and> uuidToBytes d = Inr c \<and>
        core_circleSeal (world_calls K) b c message w = (Inr (note1, b'), w1) \<and>
        ct = CiphertextMessage 7 note1 \<and> sender_key_moved w (senderKeyName lower a d) b' w')"
  using ik.encrypt_effect [OF assms] unfolding group_views calls_mem_env .

text \<open>C8: \<^verbatim>\<open>groupDecrypt\<close> that throws leaves every store as it was; one that returns has
  opened the message with the sender key stored under the canonical text of the distribution id the
  message carries, and stored the stepped key there, moving nothing else.\<close>

theorem groupDecrypt_effect:
  assumes "mem_wf w"
    and "runT (groupDecrypt (mem_env K lower) a (mem_sender_key_store lower) message) w = (r, w')"
  shows "case r of
      Inl e \<Rightarrow> sender_keys_kept w w'
    | Inr plain \<Rightarrow> (\<exists>note1 body d b b' w1 w2. core_noteParse (world_calls K) message w = (Inr (note1, body), w1) \<and>
        bytesToUuid (no_circleId note1) = Inr d \<and> mem_sender_key w (senderKeyName lower a d) = Some b \<and>
        core_circleOpen (world_calls K) b message w1 = (Inr (plain, b'), w2) \<and>
        sender_key_moved w (senderKeyName lower a d) b' w')"
  using ik.decrypt_effect [OF assms] unfolding group_views calls_mem_env .

lemma sample_circle_bytes: "uuidToBytes sample_circle = Inr (replicate 16 170)" "bytesToUuid (replicate 16 170) = Inr sample_circle"
proof -
  show 1: "bytesToUuid (replicate 16 170) = Inr sample_circle"
    by code_simp
  show "uuidToBytes sample_circle = Inr (replicate 16 170)"
    using uuid_bytes_roundtrip_aux [OF 1] by blast
qed

lemma sample_sender_name: "senderKeyName id sample_address sample_circle = js ''a.1|'' @ sample_circle"
  by (simp add: senderKeyName_def sample_address_text)

theorem groupEncrypt_effect_witness:
  "\<exists>w'. runT (groupEncrypt (mem_env sample_calls id) sample_address sample_circle (mem_sender_key_store id) [1])
       sample_world = (Inr (CiphertextMessage 7 [11]), w') \<and>
     mem_sender_key w' (js ''a.1|'' @ sample_circle) = Some [12] \<and> mem_session w' = mem_session sample_world"
proof -
  obtain w' where run: "runT (groupEncrypt (mem_env sample_calls id) sample_address sample_circle (mem_sender_key_store id) [1])
       sample_world = (Inr (CiphertextMessage 7 [11]), w')"
    by (simp add: groupEncrypt_def save_sender_key_def SenderKeyRecord_unchecked_def sample_steps sample_env sample_parts
        sample_maps sample_group_core sample_circle_bytes sample_sender_name del: js_Cons)
  from groupEncrypt_effect [OF sample_wf run] show ?thesis
    unfolding run by (auto simp: sender_key_moved_def mem_not_sender_keys_def sample_group_core sample_sender_name
      simp del: js_Cons)
qed

theorem groupDecrypt_effect_witness:
  "\<exists>w'. runT (groupDecrypt (mem_env sample_calls id) sample_address (mem_sender_key_store id) [1]) sample_world =
       (Inr [13], w') \<and> mem_sender_key w' (js ''a.1|'' @ sample_circle) = Some [14]"
proof -
  have c: "no_circleId sample_note = replicate 16 170" by (simp add: sample_note_def)
  obtain w' where run: "runT (groupDecrypt (mem_env sample_calls id) sample_address (mem_sender_key_store id) [1])
       sample_world = (Inr [13], w')"
    unfolding groupDecrypt_def calls_mem_env
    by (simp add: save_sender_key_def SenderKeyRecord_unchecked_def sample_steps sample_env sample_parts
        sample_maps sample_group_core c sample_circle_bytes(2) sample_sender_name del: js_Cons)
  from groupDecrypt_effect [OF sample_wf run] show ?thesis
    unfolding run by (auto simp: sender_key_moved_def sample_group_core c sample_circle_bytes(2) sample_sender_name
      simp del: js_Cons)
qed

subsection \<open>The names of sender keys\<close>

text \<open>What is relied on of \<^verbatim>\<open>toLowerCase\<close>: on ASCII text it lowers the letters A to Z.\<close>

definition ascii_lower :: "code_unit \<Rightarrow> code_unit" where
  "ascii_lower c = (if 65 \<le> unat c \<and> unat c \<le> 90 then c + 32 else c)"

definition lower_ok :: "(jsstring \<Rightarrow> jsstring) \<Rightarrow> bool" where
  "lower_ok lower \<longleftrightarrow> (\<forall>s. (\<forall>c\<in>set s. unat c < 128) \<longrightarrow> lower s = map ascii_lower s)"

lemma lower_canonical:
  assumes "lower_ok lower" "bytesToUuid x = Inr d"
  shows "lower d = d"
proof -
  have c: "unat c < 128 \<and> \<not> (65 \<le> unat c \<and> unat c \<le> 90)" if "c \<in> set d" for c
    using bytesToUuid_chars [OF assms(2) that] unfolding is_digit_def by (elim disjE conjE) (simp_all only:, simp_all)
  then have small: "\<forall>c\<in>set d. unat c < 128" by blast
  have "map ascii_lower d = d"
  proof (rule map_idI)
    fix x assume "x \<in> set d"
    from c [OF this] show "ascii_lower x = x" unfolding ascii_lower_def by (simp only: if_False)
  qed
  with small assms(1) show ?thesis unfolding lower_ok_def by metis
qed

text \<open>C18: with distribution ids in canonical form, two sender keys share a name only if they belong
  to the same address and the same distribution id.\<close>

theorem sender_key_names_distinct:
  assumes "lower_ok lower" "address_ok a" "address_ok b" "bytesToUuid x = Inr d" "bytesToUuid y = Inr d'"
  shows "senderKeyName lower a d = senderKeyName lower b d' \<longleftrightarrow> a = b \<and> x = y"
proof -
  have len: "length d = length d'"
    using uuid_bytes_roundtrip_aux [OF assms(4)] uuid_bytes_roundtrip_aux [OF assms(5)] by simp
  have "senderKeyName lower a d = senderKeyName lower b d' \<longleftrightarrow>
      ProtocolAddress_toString a = ProtocolAddress_toString b \<and> d = d'"
    using len by (simp add: senderKeyName_def lower_canonical [OF assms(1,4)] lower_canonical [OF assms(1,5)])
  also have "d = d' \<longleftrightarrow> x = y"
  proof
    assume "d = d'"
    with assms(5) have "bytesToUuid y = Inr d" by simp
    with assms(4) show "x = y" by (rule bytesToUuid_inj)
  next
    assume "x = y"
    with assms(4,5) show "d = d'" by simp
  qed
  also have "ProtocolAddress_toString a = ProtocolAddress_toString b \<longleftrightarrow> a = b"
    by (rule toString_inj_aux [OF assms(2,3)])
  finally show ?thesis .
qed

theorem sender_key_names_distinct_witness:
  "senderKeyName (map ascii_lower) (ProtocolAddress (js ''a'') 1) sample_circle \<noteq>
   senderKeyName (map ascii_lower) (ProtocolAddress (js ''a'') 2) sample_circle"
proof -
  have 1: "lower_ok (map ascii_lower)" "address_ok (ProtocolAddress (js ''a'') 1)" "address_ok (ProtocolAddress (js ''a'') 2)"
    by (simp_all add: lower_ok_def address_ok_def)
  from sender_key_names_distinct [OF this sample_circle_bytes(2) sample_circle_bytes(2)]
  show ?thesis by simp
qed

subsection \<open>Spellings of a distribution id\<close>

definition undashed :: "jsstring \<Rightarrow> jsstring" where
  "undashed s = filter (\<lambda>c. c \<noteq> 45) s"

lemma ascii_lower_hex: "hex_value (ascii_lower c) = hex_value c" "ascii_lower c = 45 \<longleftrightarrow> c = 45"
proof -
  have up: "unat (c + 32) = unat c + 32" if "unat c \<le> 90"
    using that by (subst unat_add_lem [THEN iffD1]) simp_all
  show "hex_value (ascii_lower c) = hex_value c"
    by (auto simp: ascii_lower_def hex_value_def up)
  have "unat (ascii_lower c) = 45 \<longleftrightarrow> unat c = 45" by (auto simp: ascii_lower_def up)
  moreover have "unat x = 45 \<longleftrightarrow> x = 45" for x :: code_unit
    using word_unat_eq_iff [of x 45] by simp
  ultimately show "ascii_lower c = 45 \<longleftrightarrow> c = 45" by simp
qed

lemma parse_hex_lower: "parse_hex_pairs (map ascii_lower s) = parse_hex_pairs s"
  by (induction s rule: parse_hex_pairs.induct) (simp_all add: ascii_lower_hex)

lemma uuidToBytes_lower:
  assumes "uuidToBytes (map ascii_lower s) = Inr x"
  shows "uuidToBytes s = Inr x"
proof -
  have "filter (\<lambda>c. c \<noteq> 45) (map ascii_lower s) = map ascii_lower (filter (\<lambda>c. c \<noteq> 45) s)"
    by (simp add: filter_map comp_def ascii_lower_hex)
  with assms show ?thesis
    by (auto simp: uuidToBytes_def Let_def list_all_iff is_hex_def ascii_lower_hex parse_hex_lower split: if_splits)
qed

lemma lower_same_name:
  assumes "lower_ok lower" "bytesToUuid x = Inr d" "map ascii_lower s = d"
  shows "senderKeyName lower a s = senderKeyName lower a d"
proof -
  have "unat c < 128" if "c \<in> set s" for c
  proof (rule ccontr)
    assume "\<not> unat c < 128"
    then have "ascii_lower c = c" by (simp add: ascii_lower_def)
    then have "c \<in> set d" using that assms(3) by (metis image_eqI list.set_map)
    from bytesToUuid_chars [OF assms(2) this] \<open>\<not> unat c < 128\<close> show False by (auto simp: is_digit_def)
  qed
  with assms(1,3) have "lower s = d" by (simp add: lower_ok_def)
  with lower_canonical [OF assms(1,2)] show ?thesis by (simp add: senderKeyName_def)
qed

lemma undashed_length:
  assumes "bytesToUuid x = Inr d"
  shows "length (undashed d) = 32" "length d = 36"
proof -
  have "uuidToBytes d = Inr x" using uuid_bytes_roundtrip_aux [OF assms] by blast
  then show "length (undashed d) = 32" by (simp add: uuidToBytes_def Let_def undashed_def split: if_splits)
  show "length d = 36" using assms by (auto simp: bytesToUuid_def Let_def slice_def split: if_splits)
qed

lemma undashed_other_name:
  assumes "lower_ok lower" "bytesToUuid x = Inr d"
  shows "senderKeyName lower a (undashed d) \<noteq> senderKeyName lower a d"
proof -
  have low: "lower (undashed d) = map ascii_lower (undashed d)"
  proof -
    have "unat c < 128" if "c \<in> set (undashed d)" for c
      using bytesToUuid_chars [OF assms(2), of c] that by (auto simp: undashed_def is_digit_def)
    with assms(1) show ?thesis by (simp add: lower_ok_def)
  qed
  show ?thesis
  proof
    assume "senderKeyName lower a (undashed d) = senderKeyName lower a d"
    from arg_cong [OF this, of length] show False
      by (simp add: senderKeyName_def low lower_canonical [OF assms] undashed_length [OF assms(2)])
  qed
qed

text \<open>C39: the store folds the case of a distribution id but not its dashes, while the core takes
  the sixteen bytes. Let a sender key be stored under a canonical distribution id. Every spelling in
  other cases names the same bytes and the same key, and \<^verbatim>\<open>groupEncrypt\<close> under it does
  exactly what it does under the canonical one. The id without its dashes names the same bytes too,
  but not the key: if none was stored under it before, \<^verbatim>\<open>groupEncrypt\<close> finds no sender key
  and throws.\<close>

theorem distribution_id_spelling:
  assumes "lower_ok lower" "bytesToUuid x = Inr d" "mem_wf w"
    and "runT (save_sender_key (mem_env K lower) (mem_sender_key_store lower) a d b) w = (Inr (), w1)"
    and "mem_sender_key w (senderKeyName lower a (undashed d)) = None"
  shows "uuidToBytes d = Inr x \<and> uuidToBytes (undashed d) = Inr x \<and>
    runT (groupEncrypt (mem_env K lower) a (undashed d) (mem_sender_key_store lower) m) w1 =
      (Inl (no_sender_key a (undashed d)), w1) \<and>
    (\<forall>s. map ascii_lower s = d \<longrightarrow> uuidToBytes s = Inr x \<and> mem_sender_key w1 (senderKeyName lower a s) = Some b \<and>
      runT (groupEncrypt (mem_env K lower) a s (mem_sender_key_store lower) m) w1 =
      runT (groupEncrypt (mem_env K lower) a d (mem_sender_key_store lower) m) w1)"
proof -
  have d: "uuidToBytes d = Inr x" using uuid_bytes_roundtrip_aux [OF assms(2)] by blast
  have w1: "mem_wf w1" "mem_sender_key w1 = (mem_sender_key w)(senderKeyName lower a d \<mapsto> b)"
    using mem_save_sender_key [OF assms(3), of K lower a d b] assms(4) by auto
  then have "mem_sender_key w1 (senderKeyName lower a (undashed d)) = None"
    using undashed_other_name [OF assms(1,2)] assms(5) by simp
  from ik.found_none [OF w1(1) this] have none:
    "runT (groupEncrypt (mem_env K lower) a (undashed d) (mem_sender_key_store lower) m) w1 =
      (Inl (no_sender_key a (undashed d)), w1)"
    by (simp add: groupEncrypt_def task_simps andThen_apply)
  have same: "uuidToBytes s = Inr x \<and> mem_sender_key w1 (senderKeyName lower a s) = Some b \<and>
      runT (groupEncrypt (mem_env K lower) a s (mem_sender_key_store lower) m) w1 =
      runT (groupEncrypt (mem_env K lower) a d (mem_sender_key_store lower) m) w1" if "map ascii_lower s = d" for s
  proof (intro conjI)
    note name = lower_same_name [OF assms(1,2) that]
    show u: "uuidToBytes s = Inr x" using uuidToBytes_lower d that by blast
    show "mem_sender_key w1 (senderKeyName lower a s) = Some b" by (simp add: w1(2) name)
    have get: "getSenderKey (mem_sender_key_store lower) a s = getSenderKey (mem_sender_key_store lower) a d"
      and put: "saveSenderKey (mem_sender_key_store lower) a s = saveSenderKey (mem_sender_key_store lower) a d"
      by (simp_all add: fun_eq_iff mem_sender_key_store_def ms_getSenderKey_def ms_saveSenderKey_def name)
    have "mem_sender_key w1 (senderKeyName lower a d) = Some b" by (simp add: w1(2))
    from ik.load_some [OF w1(1) this] obtain r where
      r: "runT (getSenderKey (mem_sender_key_store lower) a d) w1 = (Inr (Some r), w1)" by blast
    show "runT (groupEncrypt (mem_env K lower) a s (mem_sender_key_store lower) m) w1 =
      runT (groupEncrypt (mem_env K lower) a d (mem_sender_key_store lower) m) w1"
      by (simp add: groupEncrypt_def save_sender_key_def task_simps andThen_apply foundT_def get put r u d)
  qed
  from d uuidToBytes_dashes [OF d] none same show ?thesis by (simp add: undashed_def)
qed

theorem distribution_id_spelling_witness:
  "\<exists>w1. runT (save_sender_key (mem_env sample_calls (map ascii_lower)) (mem_sender_key_store (map ascii_lower)) sample_address
       sample_circle [12]) sample_world = (Inr (), w1) \<and>
     fst (runT (groupEncrypt (mem_env sample_calls (map ascii_lower)) sample_address (undashed sample_circle)
       (mem_sender_key_store (map ascii_lower)) [1]) w1) = Inl (no_sender_key sample_address (undashed sample_circle)) \<and>
     mem_sender_key w1 (senderKeyName (map ascii_lower) sample_address (map (\<lambda>c. if c = 45 then c else c - 32) sample_circle)) =
       Some [12]"
proof -
  have ok: "lower_ok (map ascii_lower)" by (simp add: lower_ok_def)
  obtain w1 where run: "runT (save_sender_key (mem_env sample_calls (map ascii_lower)) (mem_sender_key_store (map ascii_lower))
      sample_address sample_circle [12]) sample_world = (Inr (), w1)"
    using mem_save_sender_key [OF sample_wf] by blast
  have no: "mem_sender_key sample_world (senderKeyName (map ascii_lower) sample_address (undashed sample_circle)) = None"
  proof -
    have "length (undashed sample_circle) = 32" by code_simp
    moreover have "length sample_circle = 36" by (simp add: sample_circle_def)
    ultimately have "senderKeyName (map ascii_lower) sample_address (undashed sample_circle) \<noteq> js ''a.1|'' @ sample_circle"
      by (auto simp: senderKeyName_def sample_address_text dest: arg_cong [of _ _ length])
    then show ?thesis by (simp add: mem_sender_key_def sample_world_def sample_mem_def map_get_def del: js_Cons)
  qed
  have up: "map ascii_lower (map (\<lambda>c. if c = 45 then c else c - 32) sample_circle) = sample_circle" by code_simp
  note spelling = distribution_id_spelling [OF ok sample_circle_bytes(2) sample_wf run no, of "[1]"]
  have "runT (groupEncrypt (mem_env sample_calls (map ascii_lower)) sample_address (undashed sample_circle)
      (mem_sender_key_store (map ascii_lower)) [1]) w1 = (Inl (no_sender_key sample_address (undashed sample_circle)), w1)"
    using spelling by (elim conjE)
  moreover have "mem_sender_key w1 (senderKeyName (map ascii_lower) sample_address
      (map (\<lambda>c. if c = 45 then c else c - 32) sample_circle)) = Some [12]"
    by (rule spelling [THEN conjunct2, THEN conjunct2, THEN conjunct2,
      THEN spec [of _ "map (\<lambda>c. if c = 45 then c else c - 32) sample_circle"], THEN mp, OF up,
      THEN conjunct2, THEN conjunct1])
  ultimately show ?thesis using run by (intro exI [of _ w1] conjI) (simp_all only: fst_conv)
qed

end
