(* ===== verification/Sealed.thy ===== *)
theory Sealed
  imports Sessions
begin

text \<open>
  Sealed sender in \<^verbatim>\<open>sdk/ts/src/api.ts\<close>: the two certificates and the message content,
  which are parsed once by their constructors like the messages, sealing for one recipient and for
  many, and the decryption that checks the sender's certificate and dispatches on the kind of the
  content.
\<close>

subsection \<open>ServerCertificate\<close>

datatype server_certificate = ServerCertificate (sv_bytes: bytes) (sv_parts: server_cert_parts)

definition ServerCertificate_make :: "'s core_calls \<Rightarrow> bytes \<Rightarrow> ('s, server_certificate) op" where
  "ServerCertificate_make K b = andThen (core_serverCertParse K b) (\<lambda>parsed. ret (ServerCertificate b parsed))"

definition ServerCertificate_new ::
    "'s core_calls \<Rightarrow> int \<Rightarrow> public_key \<Rightarrow> private_key \<Rightarrow> ('s, server_certificate) op" where
  "ServerCertificate_new K keyId serverKey trustRoot =
     andThen (core_serverCert K (to_uint32 keyId) (pk_bytes serverKey) (sk_bytes trustRoot)) (ServerCertificate_make K)"

definition ServerCertificate_deserialize :: "'s core_calls \<Rightarrow> bytes \<Rightarrow> ('s, server_certificate) op" where
  "ServerCertificate_deserialize K data = ServerCertificate_make K data"

definition ServerCertificate_serialize :: "server_certificate \<Rightarrow> bytes" where
  "ServerCertificate_serialize c = sv_bytes c"

definition ServerCertificate_keyId :: "server_certificate \<Rightarrow> int" where
  "ServerCertificate_keyId c = sc_keyId (sv_parts c)"

definition ServerCertificate_key :: "server_certificate \<Rightarrow> public_key" where
  "ServerCertificate_key c = PublicKey_unchecked (sc_key (sv_parts c))"

definition ServerCertificate_certificate :: "server_certificate \<Rightarrow> bytes" where
  "ServerCertificate_certificate c = sc_body (sv_parts c)"

definition ServerCertificate_signature :: "server_certificate \<Rightarrow> bytes" where
  "ServerCertificate_signature c = sc_signature (sv_parts c)"

subsection \<open>SenderCertificate\<close>

record sender_certificate =
  sd_bytes :: bytes
  sd_device :: int
  sd_expiresMs :: int
  sd_key :: bytes
  sd_senderId :: jsstring
  sd_phone :: "jsstring option"
  sd_serverCert :: bytes
  sd_body :: bytes
  sd_signature :: bytes

definition SenderCertificate_make :: "'s core_calls \<Rightarrow> bytes \<Rightarrow> ('s, sender_certificate) op" where
  "SenderCertificate_make K b =
     andThen (core_senderCertParse K b) (\<lambda>parsed.
     ret \<lparr>sd_bytes = b, sd_device = se_device parsed, sd_expiresMs = se_expiresMs parsed, sd_key = se_key parsed,
          sd_senderId = utf8_decode (se_senderId parsed), sd_phone = map_option utf8_decode (se_phone parsed),
          sd_serverCert = se_serverCert parsed, sd_body = se_body parsed, sd_signature = se_signature parsed\<rparr>)"

definition SenderCertificate_new ::
    "'s core_calls \<Rightarrow> jsstring \<Rightarrow> jsstring option \<Rightarrow> int \<Rightarrow> public_key \<Rightarrow> int \<Rightarrow> server_certificate \<Rightarrow> private_key \<Rightarrow>
      ('s, sender_certificate) op" where
  "SenderCertificate_new K senderUuid senderE164 senderDeviceId senderKey expiration signerCert signerKey =
     andThen (core_senderCert K senderUuid senderE164 (to_uint32 senderDeviceId) (pk_bytes senderKey) expiration
                (sv_bytes signerCert) (sk_bytes signerKey))
       (SenderCertificate_make K)"

definition SenderCertificate_deserialize :: "'s core_calls \<Rightarrow> bytes \<Rightarrow> ('s, sender_certificate) op" where
  "SenderCertificate_deserialize K data = SenderCertificate_make K data"

definition SenderCertificate_serialize :: "sender_certificate \<Rightarrow> bytes" where
  "SenderCertificate_serialize c = sd_bytes c"

definition SenderCertificate_validate ::
    "'s core_calls \<Rightarrow> sender_certificate \<Rightarrow> public_key \<Rightarrow> int \<Rightarrow> ('s, bool) op" where
  "SenderCertificate_validate K c trustRoot time = core_senderCertCheck K (sd_bytes c) (pk_bytes trustRoot) time"

definition SenderCertificate_senderUuid :: "sender_certificate \<Rightarrow> jsstring" where
  "SenderCertificate_senderUuid c = sd_senderId c"

definition SenderCertificate_senderE164 :: "sender_certificate \<Rightarrow> jsstring option" where
  "SenderCertificate_senderE164 c = sd_phone c"

definition SenderCertificate_senderDeviceId :: "sender_certificate \<Rightarrow> int" where
  "SenderCertificate_senderDeviceId c = sd_device c"

definition SenderCertificate_certificate :: "sender_certificate \<Rightarrow> bytes" where
  "SenderCertificate_certificate c = sd_body c"

definition SenderCertificate_signature :: "sender_certificate \<Rightarrow> bytes" where
  "SenderCertificate_signature c = sd_signature c"

definition SenderCertificate_senderAci :: "sender_certificate \<Rightarrow> service_id option" where
  "SenderCertificate_senderAci c = (case Aci_fromUuid (sd_senderId c) of Inl e \<Rightarrow> None | Inr a \<Rightarrow> Some a)"

definition SenderCertificate_key :: "sender_certificate \<Rightarrow> public_key" where
  "SenderCertificate_key c = PublicKey_unchecked (sd_key c)"

definition SenderCertificate_serverCertificate ::
    "'s core_calls \<Rightarrow> sender_certificate \<Rightarrow> ('s, server_certificate) op" where
  "SenderCertificate_serverCertificate K c = ServerCertificate_deserialize K (sd_serverCert c)"

subsection \<open>UnidentifiedSenderMessageContent\<close>

datatype content_hint = DefaultHint | Resendable | Implicit

fun ContentHint :: "content_hint \<Rightarrow> int" where
  "ContentHint DefaultHint = 0"
| "ContentHint Resendable = 1"
| "ContentHint Implicit = 2"

datatype message_content = UnidentifiedSenderMessageContent (um_bytes: bytes) (um_parts: content_parts)

definition MessageContent_make :: "'s core_calls \<Rightarrow> bytes \<Rightarrow> ('s, message_content) op" where
  "MessageContent_make K b =
     andThen (core_contentParse K b) (\<lambda>parsed. ret (UnidentifiedSenderMessageContent b parsed))"

definition MessageContent_new ::
    "'s core_calls \<Rightarrow> ciphertext_message \<Rightarrow> sender_certificate \<Rightarrow> int \<Rightarrow> bytes option \<Rightarrow> ('s, message_content) op" where
  "MessageContent_new K message sender contentHint groupId =
     andThen (core_content K (cm_type message) (sd_bytes sender) (cm_bytes message) contentHint groupId)
       (MessageContent_make K)"

definition MessageContent_deserialize :: "'s core_calls \<Rightarrow> bytes \<Rightarrow> ('s, message_content) op" where
  "MessageContent_deserialize K data = MessageContent_make K data"

definition MessageContent_serialize :: "message_content \<Rightarrow> bytes" where
  "MessageContent_serialize c = um_bytes c"

definition MessageContent_msgType :: "message_content \<Rightarrow> int" where
  "MessageContent_msgType c = co_kind (um_parts c)"

definition MessageContent_contentHint :: "message_content \<Rightarrow> int" where
  "MessageContent_contentHint c = co_hint (um_parts c)"

definition MessageContent_groupId :: "message_content \<Rightarrow> bytes option" where
  "MessageContent_groupId c = co_circleId (um_parts c)"

definition MessageContent_contents :: "message_content \<Rightarrow> bytes" where
  "MessageContent_contents c = co_body (um_parts c)"

definition MessageContent_senderCertificate ::
    "'s core_calls \<Rightarrow> message_content \<Rightarrow> ('s, sender_certificate) op" where
  "MessageContent_senderCertificate K c = SenderCertificate_deserialize K (co_senderCert (um_parts c))"

subsection \<open>Sealing for one recipient\<close>

definition no_identity :: "protocol_address \<Rightarrow> js_error" where
  "no_identity a = fault SessionNotFound (js ''no identity for '' @ ProtocolAddress_toString a)"

definition sealedSenderEncrypt ::
    "'w env \<Rightarrow> message_content \<Rightarrow> protocol_address \<Rightarrow> 'w identity_key_store \<Rightarrow> ('w, bytes) task" where
  "sealedSenderEncrypt E content address IS =
     bindT (foundT (getIdentity IS address) (no_identity address)) (\<lambda>theirIdentity.
     bindT (awaitT (getIdentityKey IS)) (\<lambda>identity.
     sync (core_envelopeSeal (calls E) (sk_bytes identity) (pk_bytes theirIdentity) (um_bytes content))))"

definition sealedSenderEncryptMessage ::
    "'w env \<Rightarrow> bytes \<Rightarrow> protocol_address \<Rightarrow> sender_certificate \<Rightarrow> 'w session_store \<Rightarrow> 'w identity_key_store \<Rightarrow>
      ('w, bytes) task" where
  "sealedSenderEncryptMessage E message address senderCert SS IS =
     bindT (awaitT (sessionEncrypt E message address SS IS None None)) (\<lambda>ciphertext.
     bindT (sync (MessageContent_new (calls E) ciphertext senderCert (ContentHint DefaultHint) None)) (\<lambda>content.
     awaitT (sealedSenderEncrypt E content address IS)))"

subsection \<open>Sealing for many recipients\<close>

record device_entry =
  dv_deviceId :: int
  dv_registrationId :: int

record sealed_recipient =
  rc_serviceId :: service_id
  rc_devices :: "device_entry list"
  rc_identityKey :: public_key

text \<open>One round of the loop of \<^verbatim>\<open>recipientsOf\<close> on the map: the device joins the entry of
  its service, or starts it with the identity of its address.\<close>

definition add_device ::
    "jsstring \<Rightarrow> service_id \<Rightarrow> device_entry \<Rightarrow> public_key \<Rightarrow> (jsstring, sealed_recipient) js_map \<Rightarrow>
      (jsstring, sealed_recipient) js_map" where
  "add_device key serviceId device identity byService =
     (case map_get byService key of
        Some entry \<Rightarrow> map_set key (entry\<lparr>rc_devices := rc_devices entry @ [device]\<rparr>) byService
      | None \<Rightarrow> map_set key \<lparr>rc_serviceId = serviceId, rc_devices = [device], rc_identityKey = identity\<rparr> byService)"

text \<open>The loop; the second list is \<^verbatim>\<open>sessions\<close> from index \<^verbatim>\<open>i\<close> on, and past its
  end \<^verbatim>\<open>sessions[i]\<close> is \<^verbatim>\<open>undefined\<close>.\<close>

fun recipients_loop ::
    "'w env \<Rightarrow> 'w identity_key_store \<Rightarrow> protocol_address list \<Rightarrow> obj list \<Rightarrow> (jsstring, sealed_recipient) js_map \<Rightarrow>
      ('w, (jsstring, sealed_recipient) js_map) task" where
  "recipients_loop E IS [] sessions byService = sync (ret byService)"
| "recipients_loop E IS (address # addresses) sessions byService =
     (case ProtocolAddress_serviceId address of
        None \<Rightarrow> sync (throw (fault InvalidArgument (ProtocolAddress_toString address @ js '' is not a service id'')))
      | Some serviceId \<Rightarrow>
          bindT (foundT (getIdentity IS address) (no_identity address)) (\<lambda>identity.
          bindT (sync (case sessions of [] \<Rightarrow> throw TypeError
                         | r # rs \<Rightarrow> SessionRecord_remoteRegistrationId E r)) (\<lambda>registrationId.
          bindT (sync (pureOp (getServiceIdString serviceId))) (\<lambda>key.
          recipients_loop E IS addresses (tl sessions)
            (add_device key serviceId \<lparr>dv_deviceId = pa_deviceId address, dv_registrationId = registrationId\<rparr>
               identity byService)))))"

definition recipientsOf ::
    "'w env \<Rightarrow> protocol_address list \<Rightarrow> 'w identity_key_store \<Rightarrow> 'w session_store \<Rightarrow>
      ('w, sealed_recipient list) task" where
  "recipientsOf E addresses IS SS =
     bindT (awaitT (getExistingSessions SS addresses)) (\<lambda>sessions.
     bindT (recipients_loop E IS addresses sessions []) (\<lambda>byService.
     sync (ret (map snd byService))))"

text \<open>The listing of numbers; \<^verbatim>\<open>>>\<close> works on the value as a signed 32-bit integer, and
  \<^verbatim>\<open>Uint8Array.from\<close> keeps each number modulo 256.\<close>

definition to_int32 :: "int \<Rightarrow> int" where
  "to_int32 n = from_twos 32 (to_twos 32 n)"

definition listing_device :: "device_entry \<Rightarrow> js_error + int list" where
  "listing_device d =
     (if dv_deviceId d > 255 \<or> dv_registrationId d > 65535
      then Inl (fault InvalidArgument (js ''device or registration id does not fit the envelope''))
      else Inr [dv_deviceId d, to_int32 (dv_registrationId d) div 2 ^ 8, to_int32 (dv_registrationId d) mod 256])"

fun listing_devices :: "device_entry list \<Rightarrow> js_error + int list" where
  "listing_devices [] = Inr []"
| "listing_devices (d # ds) =
     bindE (listing_device d) (\<lambda>x. bindE (listing_devices ds) (\<lambda>xs. Inr (x @ xs)))"

definition listing_recipient :: "sealed_recipient \<Rightarrow> js_error + int list" where
  "listing_recipient r =
     bindE (listing_devices (rc_devices r)) (\<lambda>ds.
     Inr (map uint (getServiceIdFixedWidthBinary (rc_serviceId r)) @ [int (length (rc_devices r))] @ ds @
          map uint (pk_bytes (rc_identityKey r))))"

fun listing_recipients :: "sealed_recipient list \<Rightarrow> js_error + int list" where
  "listing_recipients [] = Inr []"
| "listing_recipients (r # rs) =
     bindE (listing_recipient r) (\<lambda>x. bindE (listing_recipients rs) (\<lambda>xs. Inr (x @ xs)))"

definition listing_of :: "sealed_recipient list \<Rightarrow> js_error + int list" where
  "listing_of rs = bindE (listing_recipients rs) (\<lambda>xs. Inr (int (length rs) # xs))"

definition excluded_of :: "service_id list \<Rightarrow> int list" where
  "excluded_of ss = int (length ss) # concat (map (\<lambda>s. map uint (getServiceIdFixedWidthBinary s)) ss)"

definition Uint8Array_from :: "int list \<Rightarrow> bytes" where
  "Uint8Array_from xs = map of_int xs"

datatype recipients_arg = ByAddress "protocol_address list" | ByRecipient "sealed_recipient list"

definition sealedSenderMultiRecipientEncrypt ::
    "'w env \<Rightarrow> message_content \<Rightarrow> recipients_arg \<Rightarrow> 'w identity_key_store \<Rightarrow> 'w session_store option \<Rightarrow>
      service_id list \<Rightarrow> ('w, bytes) task" where
  "sealedSenderMultiRecipientEncrypt E content recipients IS sessionStore excludedRecipients =
     bindT (case recipients of
              ByAddress (a # as) \<Rightarrow>
                (case sessionStore of
                   None \<Rightarrow> sync (throw (fault InvalidArgument (js ''addresses need a session store for registration ids'')))
                 | Some SS \<Rightarrow> awaitT (recipientsOf E (a # as) IS SS))
            | ByAddress [] \<Rightarrow> sync (ret [])
            | ByRecipient rs \<Rightarrow> sync (ret rs)) (\<lambda>recipientList.
     bindT (sync (pureOp (listing_of recipientList))) (\<lambda>listing.
     bindT (awaitT (getIdentityKey IS)) (\<lambda>identity.
     sync (core_envelopeSealMany (calls E) (sk_bytes identity) (Uint8Array_from listing)
             (Uint8Array_from (excluded_of excludedRecipients)) (um_bytes content)))))"

definition sealedSenderMultiRecipientMessageForSingleRecipient :: "'s core_calls \<Rightarrow> bytes \<Rightarrow> ('s, bytes) op" where
  "sealedSenderMultiRecipientMessageForSingleRecipient K message = core_envelopeForSingle K message"

definition sealedSenderMultiRecipientMessageForRecipient ::
    "'s core_calls \<Rightarrow> bytes \<Rightarrow> service_id \<Rightarrow> int \<Rightarrow> ('s, bytes) op" where
  "sealedSenderMultiRecipientMessageForRecipient K message serviceId deviceId =
     core_envelopeForRecipient K message (getServiceIdFixedWidthBinary serviceId) deviceId"

subsection \<open>Opening\<close>

definition sealedSenderDecryptToUsmc ::
    "'w env \<Rightarrow> bytes \<Rightarrow> 'w identity_key_store \<Rightarrow> ('w, message_content) task" where
  "sealedSenderDecryptToUsmc E message IS =
     bindT (awaitT (getIdentityKey IS)) (\<lambda>identity.
     bindT (sync (core_envelopeOpen (calls E) (sk_bytes identity) message)) (\<lambda>content.
     sync (MessageContent_deserialize (calls E) content)))"

record decryption_result =
  dr_message :: bytes
  dr_senderUuid :: jsstring
  dr_senderE164 :: "jsstring option"
  dr_deviceId :: int

text \<open>The sender is this device: the same account, by UUID or by phone number, and the same device.\<close>

definition own_device :: "sender_certificate \<Rightarrow> jsstring option \<Rightarrow> jsstring \<Rightarrow> int \<Rightarrow> bool" where
  "own_device c localE164 localUuid localDeviceId \<longleftrightarrow>
     (sd_senderId c = localUuid \<or> (sd_phone c \<noteq> None \<and> sd_phone c = localE164)) \<and> sd_device c = localDeviceId"

text \<open>The \<^verbatim>\<open>switch\<close> on the kind of the content.\<close>

definition open_content ::
    "'w env \<Rightarrow> message_content \<Rightarrow> protocol_address \<Rightarrow> protocol_address \<Rightarrow> 'w session_store \<Rightarrow>
      'w identity_key_store \<Rightarrow> 'w pre_key_store \<Rightarrow> 'w signed_pre_key_store \<Rightarrow> 'w kyber_pre_key_store \<Rightarrow>
      'w sender_key_store option \<Rightarrow> ('w, bytes) task" where
  "open_content E content sender local SS IS PS SPS KPS senderKeyStore =
     (let kind = MessageContent_msgType content in
      if kind = CiphertextMessageType WhisperKind
      then bindT (sync (WhisperMessage_deserialize (calls E) (MessageContent_contents content))) (\<lambda>m.
           awaitT (sessionDecrypt E m sender SS IS (Some local)))
      else if kind = CiphertextMessageType PreKeyKind
      then bindT (sync (PreKeyMessage_deserialize (calls E) (MessageContent_contents content))) (\<lambda>m.
           awaitT (sessionDecryptPreKey E m sender SS IS PS SPS KPS (Some local)))
      else if kind = CiphertextMessageType SenderKeyKind
      then (case senderKeyStore of
              None \<Rightarrow> sync (throw (fault InvalidArgument (js ''a sender key message needs a sender key store'')))
            | Some KS \<Rightarrow> awaitT (groupDecrypt E sender KS (MessageContent_contents content)))
      else if kind = CiphertextMessageType PlaintextKind
      then bindT (sync (PlaintextContent_deserialize (calls E) (MessageContent_contents content))) (\<lambda>m.
           sync (ret (pc_body m)))
      else sync (throw (fault InvalidMessage (js ''unknown sealed message type''))))"

definition sealedSenderDecryptMessage ::
    "'w env \<Rightarrow> bytes \<Rightarrow> public_key \<Rightarrow> int \<Rightarrow> jsstring option \<Rightarrow> jsstring \<Rightarrow> int \<Rightarrow> 'w session_store \<Rightarrow>
      'w identity_key_store \<Rightarrow> 'w pre_key_store \<Rightarrow> 'w signed_pre_key_store \<Rightarrow> 'w kyber_pre_key_store \<Rightarrow>
      'w sender_key_store option \<Rightarrow> ('w, decryption_result) task" where
  "sealedSenderDecryptMessage E message trustRoot timestamp localE164 localUuid localDeviceId SS IS PS SPS KPS senderKeyStore =
     bindT (awaitT (sealedSenderDecryptToUsmc E message IS)) (\<lambda>content.
     bindT (sync (MessageContent_senderCertificate (calls E) content)) (\<lambda>certificate.
     bindT (sync (SenderCertificate_validate (calls E) certificate trustRoot timestamp)) (\<lambda>valid.
     bindT (sync (throwIf (\<not> valid) (fault InvalidSignature (js ''sender certificate failed validation'')))) (\<lambda>_.
     bindT (sync (throwIf (own_device certificate localE164 localUuid localDeviceId)
                    (fault InvalidMessage (js ''message sealed by this device'')))) (\<lambda>_.
     bindT (sync (pureOp (ProtocolAddress_new (sd_senderId certificate) (sd_device certificate)))) (\<lambda>sender.
     bindT (sync (pureOp (ProtocolAddress_new localUuid localDeviceId))) (\<lambda>local.
     bindT (open_content E content sender local SS IS PS SPS KPS senderKeyStore) (\<lambda>plain.
     sync (ret \<lparr>dr_message = plain, dr_senderUuid = sd_senderId certificate, dr_senderE164 = sd_phone certificate,
                dr_deviceId = sd_device certificate\<rparr>)))))))))"

end
