(* ===== verification/Listing_Facts.thy ===== *)
theory Listing_Facts
  imports Sealed
begin

text \<open>
  The listing \<^verbatim>\<open>sealedSenderMultiRecipientEncrypt\<close> hands to
  \<^verbatim>\<open>gv_envelope_seal_many\<close>. The reference is the reader of the format the header
  documents: a count byte, then per recipient a 17-byte service id, a device count, a device byte
  and a big-endian registration id per device, and a 33-byte identity key. Every recipient whose
  counts and ids fit the format is read back; a count of 256 wraps to none.
\<close>

subsection \<open>The reader of the format\<close>

fun take_devices :: "nat \<Rightarrow> bytes \<Rightarrow> ((nat \<times> nat) list \<times> bytes) option" where
  "take_devices 0 bs = Some ([], bs)"
| "take_devices (Suc n) (d # hi # lo # bs) =
     map_option (\<lambda>(ds, tl1). ((unat d, 256 * unat hi + unat lo) # ds, tl1)) (take_devices n bs)"
| "take_devices (Suc n) bs = None"

fun take_recipients :: "nat \<Rightarrow> bytes \<Rightarrow> ((bytes \<times> (nat \<times> nat) list \<times> bytes) list \<times> bytes) option" where
  "take_recipients 0 bs = Some ([], bs)"
| "take_recipients (Suc n) bs =
     (if length bs < 18 then None
      else case take_devices (unat (bs ! 17)) (drop 18 bs) of
             None \<Rightarrow> None
           | Some (ds, tl1) \<Rightarrow>
               if length tl1 < 33 then None
               else map_option (\<lambda>(rs, tl2). ((take 17 bs, ds, take 33 tl1) # rs, tl2))
                      (take_recipients n (drop 33 tl1)))"

definition parse_recipients :: "bytes \<Rightarrow> ((bytes \<times> (nat \<times> nat) list \<times> bytes) list \<times> bytes) option" where
  "parse_recipients bs = (case bs of [] \<Rightarrow> None | n # tl1 \<Rightarrow> take_recipients (unat n) tl1)"

text \<open>What fits the format, and what of a recipient is on the wire.\<close>

definition recipient_fits :: "sealed_recipient \<Rightarrow> bool" where
  "recipient_fits r \<longleftrightarrow> service_id_ok (rc_serviceId r) \<and> length (pk_bytes (rc_identityKey r)) = 33 \<and> length (rc_devices r) \<le> 255 \<and>
     (\<forall>d\<in>set (rc_devices r). 0 \<le> dv_deviceId d \<and> dv_deviceId d \<le> 255 \<and>
        0 \<le> dv_registrationId d \<and> dv_registrationId d \<le> 65535)"

definition wire_device :: "device_entry \<Rightarrow> nat \<times> nat" where
  "wire_device d = (nat (dv_deviceId d), nat (dv_registrationId d))"

definition wire_recipient :: "sealed_recipient \<Rightarrow> bytes \<times> (nat \<times> nat) list \<times> bytes" where
  "wire_recipient r = (getServiceIdFixedWidthBinary (rc_serviceId r), map wire_device (rc_devices r),
     pk_bytes (rc_identityKey r))"

subsection \<open>Round trip\<close>

lemma of_int_uint_byte [simp]: "of_int (uint b) = (b :: byte)"
  by simp

lemma Uint8Array_from_simps [simp]:
  "Uint8Array_from [] = []" "Uint8Array_from (x # xs) = of_int x # Uint8Array_from xs"
  "Uint8Array_from (xs @ ys) = Uint8Array_from xs @ Uint8Array_from ys"
  "Uint8Array_from (map uint bs) = bs"
  by (simp_all add: Uint8Array_from_def comp_def)

lemma to_int32_id: "0 \<le> n \<Longrightarrow> n < 2 ^ 31 \<Longrightarrow> to_int32 n = n"
  by (simp add: to_int32_def to_twos_def from_twos_def)

lemma unat_of_int_byte: "0 \<le> n \<Longrightarrow> n \<le> 255 \<Longrightarrow> unat (of_int n :: byte) = nat n"
  by (simp add: unat_eq_nat_uint uint_word_of_int)

lemma device_roundtrip:
  assumes "0 \<le> dv_deviceId d" "dv_deviceId d \<le> 255" "0 \<le> dv_registrationId d" "dv_registrationId d \<le> 65535"
  shows "\<exists>x. listing_device d = Inr x \<and>
    take_devices (Suc n) (Uint8Array_from x @ tl1) = map_option (\<lambda>(ds, tl2). (wire_device d # ds, tl2)) (take_devices n tl1)"
proof -
  define i where "i = dv_registrationId d"
  have i: "0 \<le> i" "i \<le> 65535" "to_int32 i = i" using assms by (simp_all add: i_def to_int32_id)
  have hi: "unat (of_int (i div 256) :: byte) = nat (i div 256)" using i by (intro unat_of_int_byte) auto
  have lo: "unat (of_int (i mod 256) :: byte) = nat (i mod 256)" by (intro unat_of_int_byte) auto
  have "nat i = nat (256 * (i div 256) + i mod 256)" by simp
  also have "\<dots> = 256 * nat (i div 256) + nat (i mod 256)"
    using i by (subst nat_add_distrib) (simp_all add: nat_mult_distrib)
  finally have "256 * nat (i div 256) + nat (i mod 256) = nat i" by simp
  with assms i hi lo show ?thesis
    by (simp add: listing_device_def i_def [symmetric] wire_device_def unat_of_int_byte)
qed


lemma devices_roundtrip:
  "\<forall>d\<in>set ds. 0 \<le> dv_deviceId d \<and> dv_deviceId d \<le> 255 \<and> 0 \<le> dv_registrationId d \<and> dv_registrationId d \<le> 65535 \<Longrightarrow>
   \<exists>x. listing_devices ds = Inr x \<and> take_devices (length ds) (Uint8Array_from x @ tl1) = Some (map wire_device ds, tl1)"
proof (induction ds)
  case Nil
  then show ?case by simp
next
  case (Cons d ds)
  then obtain xs where xs: "listing_devices ds = Inr xs"
    "take_devices (length ds) (Uint8Array_from xs @ tl1) = Some (map wire_device ds, tl1)" by auto
  from Cons.prems device_roundtrip [of d "length ds" "Uint8Array_from xs @ tl1"] obtain x where
    "listing_device d = Inr x"
    "take_devices (Suc (length ds)) (Uint8Array_from x @ Uint8Array_from xs @ tl1) = Some (wire_device d # map wire_device ds, tl1)"
    using xs(2) by auto
  with xs(1) show ?case by simp
qed

lemma recipient_roundtrip:
  assumes "recipient_fits r"
  shows "\<exists>x. listing_recipient r = Inr x \<and>
    take_recipients (Suc n) (Uint8Array_from x @ tl1) = map_option (\<lambda>(rs, tl2). (wire_recipient r # rs, tl2)) (take_recipients n tl1)"
proof -
  define w where "w = getServiceIdFixedWidthBinary (rc_serviceId r)"
  have len: "length w = 17" using assms by (simp add: w_def getServiceIdFixedWidthBinary_def recipient_fits_def service_id_ok_def)
  from assms devices_roundtrip [of "rc_devices r" "pk_bytes (rc_identityKey r) @ tl1"] obtain x where
    x: "listing_devices (rc_devices r) = Inr x" "take_devices (length (rc_devices r)) (Uint8Array_from x @ pk_bytes (rc_identityKey r) @ tl1)
      = Some (map wire_device (rc_devices r), pk_bytes (rc_identityKey r) @ tl1)"
    by (auto simp: recipient_fits_def)
  have n: "unat (of_nat (length (rc_devices r)) :: byte) = length (rc_devices r)"
    using assms by (simp add: recipient_fits_def unat_of_nat)
  have k: "length (pk_bytes (rc_identityKey r)) = 33" using assms by (simp add: recipient_fits_def)
  show ?thesis
    using x n k len by (simp add: listing_recipient_def w_def [symmetric] nth_append wire_recipient_def)
qed

lemma recipients_roundtrip:
  "\<forall>r\<in>set rs. recipient_fits r \<Longrightarrow>
   \<exists>x. listing_recipients rs = Inr x \<and> take_recipients (length rs) (Uint8Array_from x @ tl1) = Some (map wire_recipient rs, tl1)"
proof (induction rs)
  case Nil
  then show ?case by simp
next
  case (Cons r rs)
  then obtain xs where xs: "listing_recipients rs = Inr xs"
    "take_recipients (length rs) (Uint8Array_from xs @ tl1) = Some (map wire_recipient rs, tl1)" by auto
  from Cons.prems recipient_roundtrip [of r "length rs" "Uint8Array_from xs @ tl1"] obtain x where
    "listing_recipient r = Inr x"
    "take_recipients (Suc (length rs)) (Uint8Array_from x @ Uint8Array_from xs @ tl1) = Some (wire_recipient r # map wire_recipient rs, tl1)"
    using xs(2) by auto
  with xs(1) show ?case by (simp del: take_recipients.simps)
qed

text \<open>C14: the listing of up to 255 recipients, each with at most 255 devices whose ids fit and an
  identity key of 33 bytes, is accepted and read back by the format of the header: every recipient
  in order, with its service id, every device and registration id, and its key, and nothing left
  over.\<close>

theorem recipient_listing_roundtrip:
  assumes "\<forall>r\<in>set rs. recipient_fits r" "length rs \<le> 255"
  shows "\<exists>x. listing_of rs = Inr x \<and> parse_recipients (Uint8Array_from x) = Some (map wire_recipient rs, [])"
proof -
  from recipients_roundtrip [OF assms(1), of "[]"] obtain x where
    x: "listing_recipients rs = Inr x" "take_recipients (length rs) (Uint8Array_from x) = Some (map wire_recipient rs, [])" by auto
  have "unat (of_nat (length rs) :: byte) = length rs" using assms(2) by (simp add: unat_of_nat)
  with x show ?thesis by (simp add: listing_of_def parse_recipients_def)
qed

lemma listing_recipients_append:
  "listing_recipients (xs @ ys) = bindE (listing_recipients xs) (\<lambda>x. bindE (listing_recipients ys) (\<lambda>y. Inr (x @ y)))"
  by (induction xs) (auto simp: bindE_def split: sum.splits)

text \<open>C34: no check guards the number of recipients. A list of any length whose recipients fit the
  format is accepted, and only the first \<open>length rs mod 256\<close> of them are read back: the bytes of
  the others are left over, so that of 256 recipients none is read, and of 257 one.\<close>

theorem recipient_count_wraps:
  assumes "\<forall>r\<in>set rs. recipient_fits r"
  shows "\<exists>x rest. listing_of rs = Inr x \<and> listing_recipients (drop (length rs mod 256) rs) = Inr rest \<and>
    parse_recipients (Uint8Array_from x) = Some (map wire_recipient (take (length rs mod 256) rs), Uint8Array_from rest)"
proof -
  let ?n = "length rs mod 256"
  have fits: "\<forall>r\<in>set (take ?n rs). recipient_fits r" "\<forall>r\<in>set (drop ?n rs). recipient_fits r"
    using assms by (auto dest: in_set_takeD in_set_dropD)
  from recipients_roundtrip [OF fits(2)] obtain ys where ys: "listing_recipients (drop ?n rs) = Inr ys" by blast
  from recipients_roundtrip [OF fits(1), of "Uint8Array_from ys"] obtain xs where
    xs: "listing_recipients (take ?n rs) = Inr xs"
    "take_recipients (length (take ?n rs)) (Uint8Array_from xs @ Uint8Array_from ys) = Some (map wire_recipient (take ?n rs), Uint8Array_from ys)"
    by blast
  have "listing_recipients rs = Inr (xs @ ys)"
    using listing_recipients_append [of "take ?n rs" "drop ?n rs"] xs(1) ys by simp
  moreover have "unat (of_nat (length rs) :: byte) = length (take ?n rs)" by (simp add: unat_of_nat min_absorb2)
  ultimately show ?thesis using xs(2) ys by (simp add: listing_of_def parse_recipients_def)
qed

definition empty_recipient :: sealed_recipient where
  "empty_recipient = \<lparr>rc_serviceId = ServiceId AciKind (replicate 16 1), rc_devices = [], rc_identityKey = PublicKey (replicate 33 5)\<rparr>"

lemma empty_recipient_fits: "recipient_fits empty_recipient"
  by (simp add: recipient_fits_def empty_recipient_def service_id_ok_def)

theorem recipient_listing_roundtrip_witness:
  "\<exists>x. listing_of [empty_recipient, empty_recipient\<lparr>rc_devices := [\<lparr>dv_deviceId = 3, dv_registrationId = 517\<rparr>]\<rparr>] = Inr x \<and>
     parse_recipients (Uint8Array_from x) =
       Some ([(0 # replicate 16 1, [], replicate 33 5), (0 # replicate 16 1, [(3, 517)], replicate 33 5)], [])"
proof -
  have "\<forall>r\<in>set [empty_recipient, empty_recipient\<lparr>rc_devices := [\<lparr>dv_deviceId = 3, dv_registrationId = 517\<rparr>]\<rparr>]. recipient_fits r"
    by (simp add: recipient_fits_def empty_recipient_def service_id_ok_def)
  from recipient_listing_roundtrip [OF this] show ?thesis
    by (simp add: wire_recipient_def wire_device_def empty_recipient_def getServiceIdFixedWidthBinary_def)
qed

theorem recipient_count_wraps_witness:
  "\<exists>x rest. listing_of (replicate 257 empty_recipient) = Inr x \<and> listing_recipients (replicate 256 empty_recipient) = Inr rest \<and>
     parse_recipients (Uint8Array_from x) = Some ([wire_recipient empty_recipient], Uint8Array_from rest)"
proof -
  have fits: "\<forall>r\<in>set (replicate 257 empty_recipient). recipient_fits r" by (simp add: empty_recipient_fits)
  have n: "length (replicate 257 empty_recipient) mod 256 = 1" by simp
  from recipient_count_wraps [OF fits] show ?thesis by (simp only: n take_replicate drop_replicate) simp
qed

end
