(* ===== verification/Sealed_Facts.thy ===== *)
theory Sealed_Facts
  imports Group_Facts Session_Facts Sealed Frames "HOL-Library.Multiset"
begin

text \<open>
  Facts about sealed sender: the grouping of \<^verbatim>\<open>recipientsOf\<close> against its reference
  (one recipient per service, in the order of first occurrence), what it relies on from the stores
  (the locale \<open>directory_host\<close>, interpreted on the in-memory store), and the effect of
  \<^verbatim>\<open>sealedSenderDecryptMessage\<close>.
\<close>

subsection \<open>The grouping and its reference\<close>

text \<open>Each element once, in the order of first occurrence.\<close>

definition firsts :: "'a list \<Rightarrow> 'a list" where
  "firsts xs = rev (remdups (rev xs))"

lemma firsts_Nil [simp]: "firsts [] = []"
  by (simp add: firsts_def)

lemma firsts_snoc [simp]: "firsts (xs @ [x]) = (if x \<in> set xs then firsts xs else firsts xs @ [x])"
  by (simp add: firsts_def)

lemma set_firsts [simp]: "set (firsts xs) = set xs"
  by (simp add: firsts_def)

lemma distinct_firsts [simp]: "distinct (firsts xs)"
  by (simp add: firsts_def)

text \<open>The entry of one service: all its devices in order, with the identity of the first.\<close>

definition entry_of :: "(service_id \<times> device_entry \<times> public_key) list \<Rightarrow> service_id \<Rightarrow> sealed_recipient" where
  "entry_of xs s = (let mine = filter (\<lambda>x. fst x = s) xs in
     \<lparr>rc_serviceId = s, rc_devices = map (fst \<circ> snd) mine, rc_identityKey = snd (snd (hd mine))\<rparr>)"

definition grouped :: "(service_id \<times> device_entry \<times> public_key) list \<Rightarrow> sealed_recipient list" where
  "grouped xs = map (entry_of xs) (firsts (map fst xs))"

definition text_of :: "service_id \<Rightarrow> jsstring" where
  "text_of s = (case getServiceIdString s of Inl e \<Rightarrow> [] | Inr t \<Rightarrow> t)"

lemma text_of_inj: "service_id_ok s \<Longrightarrow> service_id_ok s' \<Longrightarrow> text_of s = text_of s' \<longleftrightarrow> s = s'"
  using service_id_text_back [of s] service_id_text_back [of s'] service_id_text_inj [of s s']
  by (auto simp: text_of_def)

definition add_all ::
    "(service_id \<times> device_entry \<times> public_key) list \<Rightarrow> (jsstring, sealed_recipient) js_map \<Rightarrow> (jsstring, sealed_recipient) js_map" where
  "add_all xs m = foldl (\<lambda>m (s, d, k). add_device (text_of s) s d k m) m xs"

lemma map_get_keyed:
  "\<forall>x\<in>set L. key x = key s \<longrightarrow> x = s \<Longrightarrow> map_get (map (\<lambda>x. (key x, f x)) L) (key s) = (if s \<in> set L then Some (f s) else None)"
  by (induction L) (auto simp: map_get_def)

lemma map_set_keyed:
  "distinct L \<Longrightarrow> \<forall>x\<in>set L. key x = key s \<longrightarrow> x = s \<Longrightarrow>
   map_set (key s) v (map (\<lambda>x. (key x, f x)) L) =
     (if s \<in> set L then map (\<lambda>x. (key x, if x = s then v else f x)) L else map (\<lambda>x. (key x, f x)) L @ [(key s, v)])"
  by (induction L) (auto simp: map_set_def)

lemma entry_snoc:
  "entry_of (xs @ [(s, d, k)]) s' =
     (if s' = s then (if s \<in> set (map fst xs) then (entry_of xs s)\<lparr>rc_devices := rc_devices (entry_of xs s) @ [d]\<rparr>
                      else \<lparr>rc_serviceId = s, rc_devices = [d], rc_identityKey = k\<rparr>)
      else entry_of xs s')"
proof (cases "s' = s \<and> s \<in> set (map fst xs)")
  case True
  then have "filter (\<lambda>x. fst x = s) xs \<noteq> []" by (auto simp: filter_empty_conv)
  with True show ?thesis by (auto simp: entry_of_def Let_def)
next
  case False
  show ?thesis
  proof (cases "s' = s")
    case True
    with False have "filter (\<lambda>x. fst x = s) xs = []" by (auto simp: filter_empty_conv)
    with True False show ?thesis by (simp add: entry_of_def Let_def)
  next
    case False
    then show ?thesis by (simp add: entry_of_def Let_def)
  qed
qed

lemma add_all_grouped:
  "\<forall>x\<in>set xs. service_id_ok (fst x) \<Longrightarrow>
   add_all xs [] = map (\<lambda>s. (text_of s, entry_of xs s)) (firsts (map fst xs))"
proof (induction xs rule: rev_induct)
  case Nil
  then show ?case by (simp add: add_all_def)
next
  case (snoc x xs)
  obtain s d k where x: "x = (s, d, k)" by (cases x)
  define L where "L = firsts (map fst xs)"
  have ok: "service_id_ok s" and IH: "add_all xs [] = map (\<lambda>s. (text_of s, entry_of xs s)) L"
    using snoc x by (simp_all add: L_def)
  have inj: "\<forall>y\<in>set L. text_of y = text_of s \<longrightarrow> y = s"
    using snoc.prems ok text_of_inj by (auto simp: L_def)
  have mem: "s \<in> set L \<longleftrightarrow> s \<in> set (map fst xs)" by (simp add: L_def)
  have "add_all (xs @ [x]) [] = add_device (text_of s) s d k (add_all xs [])"
    by (simp add: add_all_def x)
  also have "\<dots> = map (\<lambda>s. (text_of s, entry_of (xs @ [x]) s)) (firsts (map fst (xs @ [x])))"
  proof (cases "s \<in> set L")
    case True
    then have "add_device (text_of s) s d k (map (\<lambda>s. (text_of s, entry_of xs s)) L) =
        map (\<lambda>y. (text_of y, if y = s then (entry_of xs s)\<lparr>rc_devices := rc_devices (entry_of xs s) @ [d]\<rparr> else entry_of xs y)) L"
      using map_get_keyed [OF inj, of "entry_of xs"] map_set_keyed [OF _ inj, where f = "entry_of xs"] by (simp add: add_device_def L_def)
    also have "\<dots> = map (\<lambda>s. (text_of s, entry_of (xs @ [x]) s)) L"
      using True mem by (auto simp: x entry_snoc)
    finally show ?thesis using True mem by (simp add: IH x L_def)
  next
    case False
    then have "add_device (text_of s) s d k (map (\<lambda>s. (text_of s, entry_of xs s)) L) =
        map (\<lambda>y. (text_of y, entry_of xs y)) L @ [(text_of s, \<lparr>rc_serviceId = s, rc_devices = [d], rc_identityKey = k\<rparr>)]"
      using map_get_keyed [OF inj, of "entry_of xs"] map_set_keyed [OF _ inj, where f = "entry_of xs"] by (simp add: add_device_def L_def)
    also have "\<dots> = map (\<lambda>s. (text_of s, entry_of (xs @ [x]) s)) (L @ [s])"
      using False mem by (auto simp: x entry_snoc)
    finally show ?thesis using False mem by (simp add: IH x L_def)
  qed
  finally show ?case .
qed

text \<open>No device is lost or repeated.\<close>

lemma grouped_devices:
  "mset (concat (map rc_devices (grouped xs))) = mset (map (fst \<circ> snd) xs)"
proof -
  have "distinct L \<Longrightarrow> mset (concat (map (rc_devices \<circ> entry_of xs) L)) = mset (map (fst \<circ> snd) (filter (\<lambda>x. fst x \<in> set L) xs))" for L
  proof (induction L)
    case Nil
    then show ?case by simp
  next
    case (Cons s L)
    have "mset (map (fst \<circ> snd) (filter (\<lambda>x. fst x = s \<or> fst x \<in> set L) xs)) =
        mset (map (fst \<circ> snd) (filter (\<lambda>x. fst x = s) xs)) + mset (map (fst \<circ> snd) (filter (\<lambda>x. fst x \<in> set L) xs))"
      using Cons.prems by (induction xs) auto
    with Cons show ?case by (simp add: entry_of_def Let_def comp_def)
  qed
  from this [of "firsts (map fst xs)"] show ?thesis by (simp add: grouped_def)
qed
subsection \<open>The loop over the addresses\<close>

text \<open>What \<^verbatim>\<open>recipientsOf\<close> needs of a host besides the laws of sessions: the pinned identities,
  the record objects of all its addresses or a failure, and that a core call changes no object.\<close>

locale directory_host = session_host +
  assumes pinned: "wf w \<Longrightarrow> runT (getIdentity IS a) w = (Inr (known w (key_of a)), w)"
    and existing: "wf w \<Longrightarrow> runT (getExistingSessions SS as) w = (rl, w1) \<Longrightarrow> w1 = w \<and>
      (case rl of Inl e \<Rightarrow> \<exists>a\<in>set as. sess w (key_of a) = None
         | Inr rs \<Rightarrow> list_all2 (\<lambda>r a. \<exists>b. sess w (key_of a) = Some b \<and> obj_bytes E r w = (Inr b, w)) rs as)"
    and core_objects: "run_call (calls E) n st w = (r0, w') \<Longrightarrow> obj_bytes E r w = (Inr b, w) \<Longrightarrow>
      obj_bytes E r w' = (Inr b, w')"
begin

lemma pinned_run:
  "wf w \<Longrightarrow> runT (foundT (getIdentity IS a) e) w =
     (case known w (key_of a) of None \<Rightarrow> (Inl e, w) | Some k \<Rightarrow> (Inr k, w))"
  by (simp add: foundT_def task_simps andThen_def pinned split: option.splits)

text \<open>What one address contributes.\<close>

definition entry_for :: "'a \<Rightarrow> protocol_address \<Rightarrow> service_id \<times> device_entry \<times> public_key \<Rightarrow> bool" where
  "entry_for w a x = (case x of (s, d, k) \<Rightarrow>
     ProtocolAddress_serviceId a = Some s \<and> dv_deviceId d = pa_deviceId a \<and> known w (key_of a) = Some k \<and>
     (\<exists>b date info w1 w2. sess w (key_of a) = Some b \<and> unmoved w w1 \<and>
        core_sessionInfo (calls E) b (nowSecs date) w1 = (Inr info, w2) \<and> hasLive info \<and>
        dv_registrationId d = remoteRegistrationId info))"

lemma entry_for_unmoved: "unmoved w w1 \<Longrightarrow> entry_for w1 a x \<Longrightarrow> entry_for w a x"
  by (cases x) (auto simp: entry_for_def unmoved_def)

lemma entry_for_ok: "entry_for w a x \<Longrightarrow> service_id_ok (fst x)"
  using parse_service_id_ok by (cases x) (auto simp: entry_for_def ProtocolAddress_serviceId_def split: sum.splits)

lemma registration_run:
  assumes wf: "wf w" and b: "obj_bytes E r w = (Inr b, w)" and run: "SessionRecord_remoteRegistrationId E r w = (q, w')"
  shows "unmoved w w' \<and> (\<forall>r' b'. obj_bytes E r' w = (Inr b', w) \<longrightarrow> obj_bytes E r' w' = (Inr b', w')) \<and>
    (case q of Inl e \<Rightarrow> True | Inr i \<Rightarrow> \<exists>date info w2. core_sessionInfo (calls E) b (nowSecs date) w = (Inr info, w2) \<and>
       hasLive info \<and> i = remoteRegistrationId info)"
proof -
  obtain t where t: "clock E w = (Inr t, w)" using time [OF wf] by blast
  obtain ri w1 where i: "core_sessionInfo (calls E) b (nowSecs t) w = (ri, w1)" by fastforce
  note u = core_unmoved(1) [OF wf i]
  from i obtain r0 where "run_call (calls E) (js ''gv_session_info'') [byt b, big (nowSecs t), SPad 120] w = (r0, w1)"
    unfolding core_sessionInfo_def by (blast dest: core_runs)
  note o = core_objects [OF this]
  have "w' = w1 \<and> (case q of Inl e \<Rightarrow> True | Inr j \<Rightarrow> \<exists>info. ri = Inr info \<and> hasLive info \<and> j = remoteRegistrationId info)"
    using run t b i by (cases ri) (auto simp: SessionRecord_remoteRegistrationId_def SessionRecord_live_def andThen_def
        split: if_splits)
  with u o i show ?thesis by (cases q) auto
qed

lemma loop_effect:
  assumes "wf w" "list_all2 (\<lambda>r a. \<exists>b. sess w (key_of a) = Some b \<and> obj_bytes E r w = (Inr b, w)) rs as"
    and "runT (recipients_loop E IS as rs m) w = (q, w')"
  shows "unmoved w w' \<and> (case q of Inl e \<Rightarrow> True
    | Inr m' \<Rightarrow> \<exists>xs. list_all2 (entry_for w) as xs \<and> m' = add_all xs m)"
  using assms
proof (induction as arbitrary: rs m w)
  case Nil
  then show ?case by (cases q) (auto simp: task_simps unmoved_refl add_all_def)
next
  case (Cons a as)
  obtain r rs' where rs: "rs = r # rs'" using Cons.prems(2) by (cases rs) auto
  obtain b where b: "sess w (key_of a) = Some b" "obj_bytes E r w = (Inr b, w)" using Cons.prems(2) rs by auto
  note run = Cons.prems(3) [unfolded rs]
  show ?case
  proof (cases "ProtocolAddress_serviceId a")
    case None
    with run have "w' = w" "\<exists>e. q = Inl e" by (auto simp: task_simps)
    with Cons.prems(1) show ?thesis by (auto simp: unmoved_refl)
  next
    case s: (Some s)
    show ?thesis
    proof (cases "known w (key_of a)")
      case None
      with run s pinned_run [OF Cons.prems(1)] have "w' = w" "\<exists>e. q = Inl e" by (auto simp: task_simps andThen_def)
      with Cons.prems(1) show ?thesis by (auto simp: unmoved_refl)
    next
      case k: (Some k)
      obtain qi w1 where i: "SessionRecord_remoteRegistrationId E r w = (qi, w1)" by fastforce
      note reg = registration_run [OF Cons.prems(1) b(2) i]
      show ?thesis
      proof (cases qi)
        case (Inl e)
        with run s k i pinned_run [OF Cons.prems(1)] have "w' = w1" "q = Inl e" by (auto simp: task_simps andThen_def)
        with reg show ?thesis by simp
      next
        case (Inr j)
        have ok: "service_id_ok s" using s parse_service_id_ok
          by (auto simp: ProtocolAddress_serviceId_def split: sum.splits)
        obtain t where t: "getServiceIdString s = Inr t" using service_id_text_back [OF ok] by blast
        define d where "d = \<lparr>dv_deviceId = pa_deviceId a, dv_registrationId = j\<rparr>"
        have rest: "runT (recipients_loop E IS as rs' (add_device (text_of s) s d k m)) w1 = (q, w')"
          using run s k i Inr t pinned_run [OF Cons.prems(1)] by (simp add: task_simps andThen_def d_def text_of_def)
        have wf1: "wf w1" and se: "sess w1 = sess w" using reg by (simp_all add: unmoved_def)
        have "list_all2 (\<lambda>r a. \<exists>b. sess w1 (key_of a) = Some b \<and> obj_bytes E r w1 = (Inr b, w1)) rs' as"
          using Cons.prems(2) reg unfolding rs se by (auto elim!: list_all2_mono)
        from Cons.IH [OF wf1 this rest] have
          IH: "unmoved w1 w'" "case q of Inl e \<Rightarrow> True | Inr m' \<Rightarrow> \<exists>xs. list_all2 (entry_for w1) as xs \<and> m' = add_all xs (add_device (text_of s) s d k m)"
          by simp_all
        obtain date info w2 where "core_sessionInfo (calls E) b (nowSecs date) w = (Inr info, w2)" "hasLive info"
          "j = remoteRegistrationId info" using reg Inr by auto
        then have "entry_for w a (s, d, k)"
          using s k b(1) unmoved_refl [OF Cons.prems(1)] unfolding entry_for_def d_def by (simp, blast)
        then show ?thesis
          using IH reg entry_for_unmoved
          by (cases q) (auto intro: unmoved_trans list_all2_mono intro!: exI [of _ "(s, d, k) # _"] simp: add_all_def)
      qed
    qed
  qed
qed

lemma recipients_effect:
  assumes wf: "wf w" and run: "runT (recipientsOf E as IS SS) w = (q, w')"
  shows "unmoved w w' \<and> (case q of
      Inl e \<Rightarrow> True
    | Inr rs \<Rightarrow> \<exists>xs. list_all2 (entry_for w) as xs \<and> rs = grouped xs)"
proof -
  obtain rl w1 where l: "runT (getExistingSessions SS as) w = (rl, w1)" by fastforce
  note ex = existing [OF wf l]
  show ?thesis
  proof (cases rl)
    case (Inl e)
    with run l ex have "q = Inl e" "w' = w" by (simp_all add: recipientsOf_def task_simps andThen_def)
    with wf show ?thesis by (simp add: unmoved_refl)
  next
    case (Inr rs)
    obtain ql w2 where lp: "runT (recipients_loop E IS as rs []) w = (ql, w2)" by fastforce
    have "w' = w2 \<and> q = (case ql of Inl e \<Rightarrow> Inl e | Inr m \<Rightarrow> Inr (map snd m))"
      using run l ex Inr lp by (cases ql) (auto simp: recipientsOf_def task_simps andThen_def)
    moreover have "unmoved w w2 \<and> (case ql of Inl e \<Rightarrow> True | Inr m \<Rightarrow> \<exists>xs. list_all2 (entry_for w) as xs \<and> m = add_all xs [])"
      using loop_effect [OF wf _ lp] ex Inr by simp
    moreover have "map snd (add_all xs []) = grouped xs" if "list_all2 (entry_for w) as xs" for xs
    proof -
      have "\<forall>x\<in>set xs. service_id_ok (fst x)"
        using that by (induction rule: list_all2_induct) (auto dest: entry_for_ok)
      then show ?thesis by (simp add: add_all_grouped grouped_def comp_def)
    qed
    ultimately show ?thesis by (cases ql) auto
  qed
qed

end

lemma mem_existing:
  "mem_wf w \<Longrightarrow> runT (getExistingSessions mem_session_store as) w = (rl, w1) \<Longrightarrow> w1 = w \<and>
     (case rl of Inl e \<Rightarrow> \<exists>a\<in>set as. mem_session w (key_of a) = None
        | Inr rs \<Rightarrow> list_all2 (\<lambda>r a. \<exists>b. mem_session w (key_of a) = Some b \<and> obj_bytes (mem_env K lower) r w = (Inr b, w)) rs as)"
proof -
  have "snd (ms_getExistingSessions as s) = s \<and> (case fst (ms_getExistingSessions as s) of
      Inl e \<Rightarrow> \<exists>a\<in>set as. map_get (ms_sessions s) (key_of a) = None
    | Inr rs \<Rightarrow> list_all2 (\<lambda>r a. map_get (ms_sessions s) (key_of a) = Some r) rs as)" for s
    by (induction as) (auto simp: ms_getExistingSessions_def andThen_def split: option.splits prod.splits sum.splits)
  from this [of "mem w"] show "mem_wf w \<Longrightarrow> runT (getExistingSessions mem_session_store as) w = (rl, w1) \<Longrightarrow> ?thesis"
    by (auto simp: mem_session_store_def task_simps on_mem_run mem_session_def mem_env_def split: sum.splits
        elim!: list_all2_mono)
qed

interpretation idir: directory_host "mem_env K lower" mem_session_store mem_identity_store mem_wf mem_session mem_known
    mem_others first_use
  for K :: "'c core_calls" and lower
proof (unfold_locales, goal_cases)
  case 1 show ?case by (simp add: mem_stores task_simps on_mem_run mem_ops mem_known_def)
next
  case 2 then show ?case by (rule mem_existing)
next
  case 3 then show ?case by (auto simp: mem_env_def world_calls_def on_core_run)
qed


subsection \<open>recipientsOf on the in-memory store\<close>

text \<open>What one address contributes: its service id, its device with the registration id the core reads
  from its session, and the identity pinned for it.\<close>

definition recipient_entry ::
    "'c core_calls \<Rightarrow> 'c world \<Rightarrow> protocol_address \<Rightarrow> service_id \<times> device_entry \<times> public_key \<Rightarrow> bool" where
  "recipient_entry K w a x = (case x of (s, d, k) \<Rightarrow>
     ProtocolAddress_serviceId a = Some s \<and> dv_deviceId d = pa_deviceId a \<and>
     mem_known w (ProtocolAddress_toString a) = Some k \<and>
     (\<exists>b date info w1 w2. mem_session w (ProtocolAddress_toString a) = Some b \<and> stores_kept w w1 \<and>
        core_sessionInfo (world_calls K) b (nowSecs date) w1 = (Inr info, w2) \<and> hasLive info \<and>
        dv_registrationId d = remoteRegistrationId info))"

text \<open>C15: \<^verbatim>\<open>recipientsOf\<close> changes no store, and when it returns, every address
  contributed its device to exactly one recipient: one recipient per service in the order of first
  occurrence, its devices in the order of the addresses, no device lost or repeated. The identity
  key is the one pinned for the first address of the service alone.\<close>

theorem recipients_grouped:
  assumes "mem_wf w" "runT (recipientsOf (mem_env K lower) as mem_identity_store mem_session_store) w = (r, w')"
  shows "stores_kept w w' \<and> (case r of
      Inl e \<Rightarrow> True
    | Inr rs \<Rightarrow> \<exists>xs. list_all2 (recipient_entry K w) as xs \<and> rs = grouped xs \<and>
        mset (concat (map rc_devices rs)) = mset (map (fst \<circ> snd) xs))"
proof -
  have e: "recipient_entry K w = idir.entry_for K lower w"
    by (intro ext) (simp add: recipient_entry_def idir.entry_for_def kept_unmoved calls_mem_env)
  from idir.recipients_effect [OF assms] show ?thesis
    unfolding e kept_unmoved using grouped_devices by (cases r) auto
qed

text \<open>Two devices of one account, with different identities pinned.\<close>

definition sealed_device :: "int \<Rightarrow> protocol_address" where
  "sealed_device d = ProtocolAddress sample_circle d"

definition sealed_world :: "nat world" where
  "sealed_world = sample_world\<lparr>mem := sample_mem\<lparr>
     ms_sessions := [(sample_circle @ js ''.1'', 0), (sample_circle @ js ''.2'', 0)],
     ms_identities := [(sample_circle @ js ''.1'', sample_key), (sample_circle @ js ''.2'', PublicKey (replicate 33 9))]\<rparr>\<rparr>"

lemma sealed_texts:
  "ProtocolAddress_toString (sealed_device 1) = sample_circle @ js ''.1''"
  "ProtocolAddress_toString (sealed_device 2) = sample_circle @ js ''.2''"
  by (simp_all add: ProtocolAddress_toString_def sealed_device_def decimal_def nat_decimal.simps)

lemma sealed_maps:
  "map_get (ms_sessions (mem sealed_world)) (sample_circle @ js ''.1'') = Some 0"
  "map_get (ms_sessions (mem sealed_world)) (sample_circle @ js ''.2'') = Some 0"
  "map_get (ms_identities (mem sealed_world)) (sample_circle @ js ''.1'') = Some sample_key"
  "map_get (ms_identities (mem sealed_world)) (sample_circle @ js ''.2'') = Some (PublicKey (replicate 33 9))"
  "objects sealed_world = [[7]]" "clock_ms sealed_world = 5000"
  by (simp_all add: sealed_world_def sample_world_def map_get_def)

lemma sealed_info: "hasLive sample_info" "remoteRegistrationId sample_info = 2"
  by (simp_all add: sample_info_def)

lemma sealed_device_id: "pa_deviceId (sealed_device d) = d"
  by (simp add: sealed_device_def)

lemma sealed_service: "ProtocolAddress_serviceId (sealed_device d) = Some (ServiceId AciKind (replicate 16 170))"
  by (simp add: ProtocolAddress_serviceId_def sealed_device_def parseFromServiceIdString_def sample_circle_bytes(1)
      ServiceId_new_def) (simp add: sample_circle_def)

lemma sealed_service_text: "getServiceIdString (ServiceId AciKind (replicate 16 170)) = Inr sample_circle"
  by (simp add: getServiceIdString_def sample_circle_bytes(2))

theorem recipients_grouped_witness:
  "\<exists>w' xs. runT (recipientsOf (mem_env sample_calls id) [sealed_device 1, sealed_device 2] mem_identity_store mem_session_store)
       sealed_world =
     (Inr [\<lparr>rc_serviceId = ServiceId AciKind (replicate 16 170),
            rc_devices = [\<lparr>dv_deviceId = 1, dv_registrationId = 2\<rparr>, \<lparr>dv_deviceId = 2, dv_registrationId = 2\<rparr>],
            rc_identityKey = sample_key\<rparr>], w') \<and>
     list_all2 (recipient_entry sample_calls sealed_world) [sealed_device 1, sealed_device 2] xs \<and>
     mem_known sealed_world (ProtocolAddress_toString (sealed_device 2)) \<noteq> Some sample_key"
proof -
  have wf: "mem_wf sealed_world"
    by (auto simp: mem_wf_def sealed_world_def sample_world_def sample_mem_def map_get_def split: if_splits)
  obtain w' where run: "runT (recipientsOf (mem_env sample_calls id) [sealed_device 1, sealed_device 2] mem_identity_store
       mem_session_store) sealed_world =
     (Inr [\<lparr>rc_serviceId = ServiceId AciKind (replicate 16 170),
            rc_devices = [\<lparr>dv_deviceId = 1, dv_registrationId = 2\<rparr>, \<lparr>dv_deviceId = 2, dv_registrationId = 2\<rparr>],
            rc_identityKey = sample_key\<rparr>], w')"
    by (simp add: recipientsOf_def ms_getExistingSessions_def SessionRecord_remoteRegistrationId_def SessionRecord_live_def
        sample_steps sample_env sealed_texts sealed_maps sealed_service sealed_service_text add_device_def sealed_info
        sealed_device_id del: js_Cons) (simp add: map_set_def)
  from recipients_grouped [OF wf run] show ?thesis
    unfolding run by (auto simp: mem_known_def sealed_texts sealed_maps sample_key_def simp del: js_Cons)
qed

subsection \<open>Opening a sealed message\<close>

text \<open>The frame of a well-formed store: what stays inside it leaves every store as it was.\<close>

definition stays :: "'c world \<Rightarrow> 'c world \<Rightarrow> bool" where
  "stays w w' \<longleftrightarrow> (mem_wf w \<longrightarrow> stores_kept w w')"

interpretation sf: frame stays
  by unfold_locales (auto simp: stays_def stores_kept_def)

lemma reads_on_core: "sf.quiet (on_core m)"
  by (auto simp: sf.quiet_def stays_def on_core_run stores_kept_def core_only)

lemma reads_core:
  "sf.quiet (core_envelopeOpen (world_calls K) sk m)" "sf.quiet (core_contentParse (world_calls K) m)"
  "sf.quiet (core_senderCertParse (world_calls K) m)" "sf.quiet (core_senderCertCheck (world_calls K) m root t)"
  "sf.quiet (core_whisperParse (world_calls K) m)" "sf.quiet (core_openerParse (world_calls K) m)"
  "sf.quiet (core_plainBody (world_calls K) m)"
  unfolding core_envelopeOpen_def core_contentParse_def core_senderCertParse_def core_senderCertCheck_def
    core_whisperParse_def core_openerParse_def core_plainBody_def finish_def first_def flag_def world_calls_def
  by (auto intro!: sf.quiet_intros reads_on_core split: prod.split)

lemma reads_own_key: "sf.quiet (runT (getIdentityKey mem_identity_store))"
  by (auto simp: sf.quiet_def stays_def mem_identity_store_def task_simps on_mem_run ms_getIdentityKey_def stores_kept_def)

lemma reads_parse:
  "sf.quiet (MessageContent_deserialize (world_calls K) b)" "sf.quiet (SenderCertificate_deserialize (world_calls K) b)"
  "sf.quiet (MessageContent_senderCertificate (world_calls K) c)" "sf.quiet (SenderCertificate_validate (world_calls K) d root t)"
  "sf.quiet (WhisperMessage_deserialize (world_calls K) b)" "sf.quiet (PreKeyMessage_deserialize (world_calls K) b)"
  "sf.quiet (PlaintextContent_deserialize (world_calls K) b)"
  unfolding MessageContent_deserialize_def MessageContent_make_def SenderCertificate_deserialize_def SenderCertificate_make_def
    MessageContent_senderCertificate_def SenderCertificate_validate_def WhisperMessage_deserialize_def WhisperMessage_make_def
    PreKeyMessage_deserialize_def PreKeyMessage_make_def PlaintextContent_deserialize_def PlaintextContent_make_def
  by (intro sf.quiet_intros reads_core)+

lemma sender_keys_kept_iff: "sender_keys_kept w w' \<longleftrightarrow> stores_kept w w'"
  by (auto simp: sender_keys_kept_def stores_kept_def mem_not_sender_keys_def mem_others_def)

lemma decrypts_fail_clean:
  "sf.clean (runT (sessionDecrypt (mem_env K lower) m a mem_session_store mem_identity_store local))"
  "sf.clean (runT (sessionDecryptPreKey (mem_env K lower) p a mem_session_store mem_identity_store mem_pre_key_store
     mem_signed_pre_key_store mem_kyber_pre_key_store local))"
  "sf.clean (runT (groupDecrypt (mem_env K lower) a (mem_sender_key_store lower) b))"
  unfolding sf.clean_def stays_def
  using im.decrypt_effect [unfolded kept_unmoved] im.decryptPreKey_effect [unfolded kept_unmoved]
    ik.decrypt_effect [unfolded group_views sender_keys_kept_iff]
  by (fastforce split: sum.splits)+

abbreviation mem_open_content where
  "mem_open_content K lower content sender local \<equiv>
     open_content (mem_env K lower) content sender local mem_session_store mem_identity_store mem_pre_key_store
       mem_signed_pre_key_store mem_kyber_pre_key_store (Some (mem_sender_key_store lower))"

lemma open_content_fails_clean: "sf.clean (runT (mem_open_content K lower content sender local))"
  unfolding open_content_def Let_def runT_if runT_bindT runT_awaitT runT_sync option.case calls_mem_env
  by (auto intro!: sf.clean_andThen decrypts_fail_clean reads_parse sf.quiet_andThen intro: sf.quiet_clean sf.quiet_basic)

lemma reads_to_usmc: "sf.quiet (runT (sealedSenderDecryptToUsmc (mem_env K lower) message mem_identity_store))"
  unfolding sealedSenderDecryptToUsmc_def task_simps calls_mem_env
  by (intro sf.quiet_andThen reads_own_key reads_core reads_parse)

text \<open>C13: a sealed message is opened all or nothing. When \<^verbatim>\<open>sealedSenderDecryptMessage\<close>
  throws, every store is as it was, whatever failed: the envelope, the certificate, the check
  against this device, the addresses, or the message inside. When it returns, the sender's
  certificate was validated against the trust root at the given time, the sender is not this
  device, and the result and the new stores are those of opening the content as a message from the
  address the certificate names.\<close>

theorem sealed_decrypt_effect:
  assumes wf: "mem_wf w"
    and run: "runT (sealedSenderDecryptMessage (mem_env K lower) message root time localE164 localUuid localDevice
       mem_session_store mem_identity_store mem_pre_key_store mem_signed_pre_key_store mem_kyber_pre_key_store
       (Some (mem_sender_key_store lower))) w = (r, w')"
  shows "case r of
      Inl e \<Rightarrow> stores_kept w w'
    | Inr res \<Rightarrow> (\<exists>content certificate sender local w1 w2 w3.
        runT (sealedSenderDecryptToUsmc (mem_env K lower) message mem_identity_store) w = (Inr content, w1) \<and>
        MessageContent_senderCertificate (world_calls K) content w1 = (Inr certificate, w2) \<and>
        SenderCertificate_validate (world_calls K) certificate root time w2 = (Inr True, w3) \<and> stores_kept w w3 \<and>
        \<not> own_device certificate localE164 localUuid localDevice \<and>
        ProtocolAddress_new (sd_senderId certificate) (sd_device certificate) = Inr sender \<and>
        ProtocolAddress_new localUuid localDevice = Inr local \<and>
        runT (open_content (mem_env K lower) content sender local mem_session_store mem_identity_store mem_pre_key_store
          mem_signed_pre_key_store mem_kyber_pre_key_store (Some (mem_sender_key_store lower))) w3 =
          (Inr (dr_message res), w') \<and>
        dr_senderUuid res = sd_senderId certificate \<and> dr_senderE164 res = sd_phone certificate \<and>
        dr_deviceId res = sd_device certificate)"
proof (cases r)
  case (Inl e)
  have "sf.clean (runT (sealedSenderDecryptMessage (mem_env K lower) message root time localE164 localUuid localDevice
       mem_session_store mem_identity_store mem_pre_key_store mem_signed_pre_key_store mem_kyber_pre_key_store
       (Some (mem_sender_key_store lower))))"
    unfolding sealedSenderDecryptMessage_def task_simps calls_mem_env
    by (intro sf.clean_andThen reads_to_usmc reads_parse sf.quiet_basic sf.clean_then_total open_content_fails_clean) simp_all
  with wf run Inl show ?thesis by (auto simp: sf.clean_def stays_def)
next
  case (Inr res)
  from run [unfolded Inr sealedSenderDecryptMessage_def task_simps calls_mem_env] obtain content w1 certificate w2 valid w3
      sender local plain where
    1: "runT (sealedSenderDecryptToUsmc (mem_env K lower) message mem_identity_store) w = (Inr content, w1)" and
    2: "MessageContent_senderCertificate (world_calls K) content w1 = (Inr certificate, w2)" and
    3: "SenderCertificate_validate (world_calls K) certificate root time w2 = (Inr valid, w3)" and
    4: "valid" "\<not> own_device certificate localE164 localUuid localDevice"
       "ProtocolAddress_new (sd_senderId certificate) (sd_device certificate) = Inr sender"
       "ProtocolAddress_new localUuid localDevice = Inr local" and
    5: "runT (mem_open_content K lower content sender local) w3 = (Inr plain, w')" and
    6: "res = \<lparr>dr_message = plain, dr_senderUuid = sd_senderId certificate, dr_senderE164 = sd_phone certificate,
          dr_deviceId = sd_device certificate\<rparr>"
    by (auto elim!: andThen_InrE split: if_splits)
  have "stays w w3"
    using sf.quietD [OF reads_to_usmc 1] sf.quietD [OF reads_parse(3) 2] sf.quietD [OF reads_parse(4) 3]
    by (blast intro: sf.frame_trans)
  then have "stores_kept w w3" using wf by (simp add: stays_def)
  with 1 2 3 4 5 6 Inr show ?thesis by auto
qed

text \<open>A core whose answers are a plaintext content from device 3 of \<^verbatim>\<open>b\<close>.\<close>

definition sealed_run :: "jsstring \<Rightarrow> bytes list \<times> bytes list" where
  "sealed_run name =
     (if name = js ''gv_envelope_open'' then ([[1]], [])
      else if name = js ''gv_content_parse'' then ([[2], [3], []], [[8, 0, 0, 0]])
      else if name = js ''gv_sender_cert_parse'' then ([[98], [], [4], [5], [6]], [3 # replicate 55 0])
      else if name = js ''gv_sender_cert_check'' then ([], [[1]])
      else ([[42]], []))"

definition sealed_calls :: "nat core_calls" where
  "sealed_calls = sample_calls\<lparr>run_call := (\<lambda>name steps n. (Inr (sealed_run name), Suc n))\<rparr>"

lemma sealed_calls_run: "run_call (world_calls sealed_calls) name st w =
    (Inr (sealed_run name), w\<lparr>core_state := Suc (core_state w)\<rparr>)"
  by (simp add: world_calls_def sealed_calls_def on_core_run)

lemma sealed_reads:
  "getUint8 [8, 0, 0, 0] 0 = 8" "getUint8 [8, 0, 0, 0] 1 = 0" "getUint8 [8, 0, 0, 0] 2 = 0" "getUint8 [1] 0 = 1"
  "getUint32 (3 # replicate 55 0) 0 = 3" "getUint8 (3 # replicate 55 0) 49 = 0" "utf8_decode [98] = js ''b''"
proof -
  show "getUint8 [8, 0, 0, 0] 0 = 8" "getUint8 [8, 0, 0, 0] 1 = 0" "getUint8 [8, 0, 0, 0] 2 = 0" "getUint8 [1] 0 = 1"
    by (simp_all add: getUint8_def slice_def)
  have "replicate 3 (0 :: byte) = [0, 0, 0]" by (simp add: numeral_3_eq_3)
  then show "getUint32 (3 # replicate 55 0) 0 = 3" "getUint8 (3 # replicate 55 0) 49 = 0"
    by (simp_all add: getUint8_def getUint32_def slice_def drop_Cons' take_Cons')
  show "utf8_decode [98] = js ''b''"
    by (simp add: utf8_decode_def utf16_of_code_point_def utf8_scan.simps)
qed

theorem sealed_decrypt_effect_witness:
  "\<exists>w' certificate w2 w3. runT (sealedSenderDecryptMessage (mem_env sealed_calls id) [1] sample_key 0 None (js ''a'') 1
       mem_session_store mem_identity_store mem_pre_key_store mem_signed_pre_key_store mem_kyber_pre_key_store
       (Some (mem_sender_key_store id))) sample_world =
     (Inr \<lparr>dr_message = [42], dr_senderUuid = js ''b'', dr_senderE164 = None, dr_deviceId = 3\<rparr>, w') \<and>
     SenderCertificate_validate (world_calls sealed_calls) certificate sample_key 0 w2 = (Inr True, w3) \<and>
     \<not> own_device certificate None (js ''a'') 1 \<and> sd_device certificate = 3"
proof -
  obtain w' where run: "runT (sealedSenderDecryptMessage (mem_env sealed_calls id) [1] sample_key 0 None (js ''a'') 1
       mem_session_store mem_identity_store mem_pre_key_store mem_signed_pre_key_store mem_kyber_pre_key_store
       (Some (mem_sender_key_store id))) sample_world =
     (Inr \<lparr>dr_message = [42], dr_senderUuid = js ''b'', dr_senderE164 = None, dr_deviceId = 3\<rparr>, w')"
    by (simp add: sealedSenderDecryptMessage_def sealedSenderDecryptToUsmc_def open_content_def Let_def task_simps andThen_def
        calls_mem_env mem_stores on_mem_run mem_ops core_envelopeOpen_def core_contentParse_def core_senderCertParse_def
        core_senderCertCheck_def core_plainBody_def finish_def first_def flag_def sealed_calls_run sealed_run_def
        MessageContent_deserialize_def MessageContent_make_def MessageContent_senderCertificate_def
        SenderCertificate_deserialize_def SenderCertificate_make_def SenderCertificate_validate_def
        MessageContent_msgType_def MessageContent_contents_def PlaintextContent_deserialize_def PlaintextContent_make_def
        own_device_def ProtocolAddress_new_def to_uint32_def sealed_reads)
  from sealed_decrypt_effect [OF sample_wf run] show ?thesis unfolding run by (simp only: sum.case prod.inject simp_thms decryption_result.simps) metis
qed

end
