(* ===== verification/Extras.thy ===== *)
theory Extras
  imports Sealed
begin

text \<open>
  The rest of \<^verbatim>\<open>sdk/ts/src/api.ts\<close>: fingerprints, usernames, account keys, group
  parameters and the primitives. The classes hold plain bytes whose length the constructors check.
\<close>

subsection \<open>Fingerprints\<close>

datatype displayable_fingerprint = DisplayableFingerprint (formatted: jsstring)
datatype scannable_fingerprint = ScannableFingerprint (encoding: bytes)
datatype fingerprint = Fingerprint (fp_display: displayable_fingerprint) (fp_scan: scannable_fingerprint)

datatype scannable_arg = RawScannable bytes | ScannableObject scannable_fingerprint

fun scannable_bytes :: "scannable_arg \<Rightarrow> bytes" where
  "scannable_bytes (RawScannable b) = b"
| "scannable_bytes (ScannableObject s) = encoding s"

definition ScannableFingerprint_compare ::
    "'s core_calls \<Rightarrow> scannable_fingerprint \<Rightarrow> scannable_arg \<Rightarrow> ('s, bool) op" where
  "ScannableFingerprint_compare K s other = core_safetyMatches K (encoding s) (scannable_bytes other)"

definition Fingerprint_new ::
    "'s core_calls \<Rightarrow> int \<Rightarrow> int \<Rightarrow> bytes \<Rightarrow> public_key \<Rightarrow> bytes \<Rightarrow> public_key \<Rightarrow> ('s, fingerprint) op" where
  "Fingerprint_new K iterations version localIdentifier localKey remoteIdentifier remoteKey =
     andThen (core_safety K (to_uint32 version) (to_uint32 iterations) localIdentifier (pk_bytes localKey)
                remoteIdentifier (pk_bytes remoteKey)) (\<lambda>(display, scannable).
     ret (Fingerprint (DisplayableFingerprint display) (ScannableFingerprint scannable)))"

definition DisplayableFingerprint_toString :: "displayable_fingerprint \<Rightarrow> jsstring" where
  "DisplayableFingerprint_toString d = formatted d"

definition ScannableFingerprint_toBuffer :: "scannable_fingerprint \<Rightarrow> bytes" where
  "ScannableFingerprint_toBuffer s = encoding s"

definition Fingerprint_displayableFingerprint :: "fingerprint \<Rightarrow> displayable_fingerprint" where
  "Fingerprint_displayableFingerprint f = fp_display f"

definition Fingerprint_scannableFingerprint :: "fingerprint \<Rightarrow> scannable_fingerprint" where
  "Fingerprint_scannableFingerprint f = fp_scan f"

subsection \<open>Usernames\<close>

definition usernames_hash :: "'s core_calls \<Rightarrow> jsstring \<Rightarrow> ('s, bytes) op" where
  "usernames_hash K username = core_handleHash K username"

definition usernames_generateProof :: "'s core_calls \<Rightarrow> jsstring \<Rightarrow> bytes option \<Rightarrow> ('s, bytes) op" where
  "usernames_generateProof K username randomness =
     andThen (case randomness of None \<Rightarrow> core_random K 32 | Some r \<Rightarrow> ret r) (core_handleProof K username)"

definition usernames_verifyProof :: "'s core_calls \<Rightarrow> bytes \<Rightarrow> bytes \<Rightarrow> ('s, unit) op" where
  "usernames_verifyProof K proof1 hash =
     andThen (core_handleVerify K proof1 hash) (\<lambda>ok.
     throwIf (\<not> ok) (fault VerificationFailed (js ''username proof does not match hash'')))"

definition default_to :: "int \<Rightarrow> int option \<Rightarrow> int" where
  "default_to d x = (case x of None \<Rightarrow> d | Some v \<Rightarrow> v)"

definition usernames_generateCandidates ::
    "'s core_calls \<Rightarrow> jsstring \<Rightarrow> int option \<Rightarrow> int option \<Rightarrow> ('s, jsstring list) op" where
  "usernames_generateCandidates K nickname minLength maxLength =
     core_handleCandidates K nickname (default_to 3 minLength) (default_to 32 maxLength)"

definition usernames_fromParts ::
    "'s core_calls \<Rightarrow> jsstring \<Rightarrow> jsstring \<Rightarrow> int option \<Rightarrow> int option \<Rightarrow> ('s, jsstring \<times> bytes) op" where
  "usernames_fromParts K nickname discriminator minLength maxLength =
     core_handleFromParts K nickname discriminator (default_to 3 minLength) (default_to 32 maxLength)"

definition usernames_createUsernameLink ::
    "'s core_calls \<Rightarrow> jsstring \<Rightarrow> bytes option \<Rightarrow> ('s, bytes \<times> bytes) op" where
  "usernames_createUsernameLink K username previousEntropy = core_handleLink K username previousEntropy"

definition usernames_decryptUsernameLink :: "'s core_calls \<Rightarrow> bytes \<Rightarrow> bytes \<Rightarrow> ('s, jsstring) op" where
  "usernames_decryptUsernameLink K entropy encryptedUsername = core_handleLinkOpen K entropy encryptedUsername"

subsection \<open>Account keys\<close>

definition BackupKey_SIZE :: nat where "BackupKey_SIZE = 32"

datatype backup_key = BackupKey (bk_bytes: bytes)

definition BackupKey_new :: "bytes \<Rightarrow> js_error + backup_key" where
  "BackupKey_new contents =
     (if length contents \<noteq> BackupKey_SIZE then Inl (fault InvalidArgument (js ''a backup key is 32 bytes''))
      else Inr (BackupKey contents))"

definition BackupKey_generateRandom :: "'s core_calls \<Rightarrow> ('s, backup_key) op" where
  "BackupKey_generateRandom K = andThen (core_backupKeyRandom K) (\<lambda>b. pureOp (BackupKey_new b))"

definition BackupKey_serialize :: "backup_key \<Rightarrow> bytes" where
  "BackupKey_serialize k = bk_bytes k"

definition BackupKey_account :: "'s core_calls \<Rightarrow> backup_key \<Rightarrow> service_id \<Rightarrow> ('s, bytes \<times> bytes) op" where
  "BackupKey_account K k aci =
     andThen (pureOp (getServiceIdString aci)) (\<lambda>text1. core_backupKeyForAccount K (bk_bytes k) text1)"

definition BackupKey_deriveBackupId :: "'s core_calls \<Rightarrow> backup_key \<Rightarrow> service_id \<Rightarrow> ('s, bytes) op" where
  "BackupKey_deriveBackupId K k aci = andThen (BackupKey_account K k aci) (\<lambda>(backupId, signingKey). ret backupId)"

definition BackupKey_deriveEcKey :: "'s core_calls \<Rightarrow> backup_key \<Rightarrow> service_id \<Rightarrow> ('s, private_key) op" where
  "BackupKey_deriveEcKey K k aci =
     andThen (BackupKey_account K k aci) (\<lambda>(backupId, signingKey). ret (PrivateKey_unchecked signingKey))"

definition BackupKey_deriveLocalBackupMetadataKey :: "'s core_calls \<Rightarrow> backup_key \<Rightarrow> ('s, bytes) op" where
  "BackupKey_deriveLocalBackupMetadataKey K k = core_backupKeyLocalMetadata K (bk_bytes k)"

definition BackupKey_deriveMediaId :: "'s core_calls \<Rightarrow> backup_key \<Rightarrow> jsstring \<Rightarrow> ('s, bytes) op" where
  "BackupKey_deriveMediaId K k mediaName =
     andThen (core_backupKeyMedia K (bk_bytes k) mediaName) (\<lambda>(mediaId, mediaKey, thumbnailKey). ret mediaId)"

definition BackupKey_deriveMediaEncryptionKey :: "'s core_calls \<Rightarrow> backup_key \<Rightarrow> bytes \<Rightarrow> ('s, bytes) op" where
  "BackupKey_deriveMediaEncryptionKey K k mediaId =
     andThen (core_backupKeyMediaKeys K (bk_bytes k) mediaId) (\<lambda>(mediaKey, thumbnailKey). ret mediaKey)"

definition BackupKey_deriveThumbnailTransitEncryptionKey ::
    "'s core_calls \<Rightarrow> backup_key \<Rightarrow> bytes \<Rightarrow> ('s, bytes) op" where
  "BackupKey_deriveThumbnailTransitEncryptionKey K k mediaId =
     andThen (core_backupKeyMediaKeys K (bk_bytes k) mediaId) (\<lambda>(mediaKey, thumbnailKey). ret thumbnailKey)"

definition AccountEntropyPool_generate :: "'s core_calls \<Rightarrow> ('s, jsstring) op" where
  "AccountEntropyPool_generate K = core_poolRandom K"

definition AccountEntropyPool_isValid :: "'s core_calls \<Rightarrow> jsstring \<Rightarrow> ('s, bool) op" where
  "AccountEntropyPool_isValid K pool = core_poolValid K pool"

definition AccountEntropyPool_deriveSvrKey :: "'s core_calls \<Rightarrow> jsstring \<Rightarrow> ('s, bytes) op" where
  "AccountEntropyPool_deriveSvrKey K pool =
     andThen (core_poolDerive K pool) (\<lambda>(recoveryKey, backupKey). ret recoveryKey)"

definition AccountEntropyPool_deriveBackupKey :: "'s core_calls \<Rightarrow> jsstring \<Rightarrow> ('s, backup_key) op" where
  "AccountEntropyPool_deriveBackupKey K pool =
     andThen (core_poolDerive K pool) (\<lambda>(recoveryKey, backupKey). pureOp (BackupKey_new backupKey))"

subsection \<open>Group parameters\<close>

definition GroupMasterKey_SIZE :: nat where "GroupMasterKey_SIZE = 32"

datatype group_master_key = GroupMasterKey (gm_bytes: bytes)
datatype group_secret_params = GroupSecretParams (gp_bytes: bytes)

definition GroupMasterKey_new :: "bytes \<Rightarrow> js_error + group_master_key" where
  "GroupMasterKey_new contents =
     (if length contents \<noteq> GroupMasterKey_SIZE then Inl (fault InvalidArgument (js ''a group master key is 32 bytes''))
      else Inr (GroupMasterKey contents))"

definition GroupMasterKey_generate :: "'s core_calls \<Rightarrow> ('s, group_master_key) op" where
  "GroupMasterKey_generate K = andThen (core_circleMasterRandom K) (\<lambda>b. pureOp (GroupMasterKey_new b))"

definition GroupMasterKey_serialize :: "group_master_key \<Rightarrow> bytes" where
  "GroupMasterKey_serialize k = gm_bytes k"

definition GroupSecretParams_new :: "'s core_calls \<Rightarrow> bytes \<Rightarrow> ('s, group_secret_params) op" where
  "GroupSecretParams_new K contents =
     andThen (core_circleParamsInfo K contents) (\<lambda>_. ret (GroupSecretParams contents))"

definition GroupSecretParams_deriveFromMasterKey ::
    "'s core_calls \<Rightarrow> group_master_key \<Rightarrow> ('s, group_secret_params) op" where
  "GroupSecretParams_deriveFromMasterKey K masterKey =
     andThen (core_circleSecretParams K (gm_bytes masterKey)) (GroupSecretParams_new K)"

definition GroupSecretParams_generate :: "'s core_calls \<Rightarrow> ('s, group_secret_params) op" where
  "GroupSecretParams_generate K = andThen (GroupMasterKey_generate K) (GroupSecretParams_deriveFromMasterKey K)"

definition GroupSecretParams_serialize :: "group_secret_params \<Rightarrow> bytes" where
  "GroupSecretParams_serialize p = gp_bytes p"

definition GroupSecretParams_getMasterKey :: "'s core_calls \<Rightarrow> group_secret_params \<Rightarrow> ('s, group_master_key) op" where
  "GroupSecretParams_getMasterKey K p =
     andThen (core_circleParamsInfo K (gp_bytes p)) (\<lambda>(master, identifier, publicParams).
     pureOp (GroupMasterKey_new master))"

definition GroupSecretParams_getGroupIdentifier :: "'s core_calls \<Rightarrow> group_secret_params \<Rightarrow> ('s, bytes) op" where
  "GroupSecretParams_getGroupIdentifier K p =
     andThen (core_circleParamsInfo K (gp_bytes p)) (\<lambda>(master, identifier, publicParams). ret identifier)"

definition GroupSecretParams_getPublicParams :: "'s core_calls \<Rightarrow> group_secret_params \<Rightarrow> ('s, bytes) op" where
  "GroupSecretParams_getPublicParams K p =
     andThen (core_circleParamsInfo K (gp_bytes p)) (\<lambda>(master, identifier, publicParams). ret publicParams)"

subsection \<open>Primitives\<close>

definition hkdf :: "'s core_calls \<Rightarrow> int \<Rightarrow> bytes \<Rightarrow> bytes \<Rightarrow> bytes option \<Rightarrow> ('s, bytes) op" where
  "hkdf K outputLength keyMaterial label salt = core_hkdf K keyMaterial salt label (to_uint32 outputLength)"

datatype aes_key = Aes256GcmSiv (ak_key: bytes)

definition Aes256GcmSiv_new :: "bytes \<Rightarrow> js_error + aes_key" where
  "Aes256GcmSiv_new key =
     (if length key \<noteq> 32 then Inl (fault InvalidKey (js ''a key is 32 bytes'')) else Inr (Aes256GcmSiv key))"

definition Aes256GcmSiv_encrypt :: "'s core_calls \<Rightarrow> aes_key \<Rightarrow> bytes \<Rightarrow> bytes \<Rightarrow> bytes option \<Rightarrow> ('s, bytes) op" where
  "Aes256GcmSiv_encrypt K k message nonce associatedData =
     core_sivSeal K (ak_key k) nonce message (or_empty associatedData)"

definition Aes256GcmSiv_decrypt :: "'s core_calls \<Rightarrow> aes_key \<Rightarrow> bytes \<Rightarrow> bytes \<Rightarrow> bytes option \<Rightarrow> ('s, bytes) op" where
  "Aes256GcmSiv_decrypt K k message nonce associatedData =
     core_sivOpen K (ak_key k) nonce message (or_empty associatedData)"

definition IncrementalMac_calculate :: "'s core_calls \<Rightarrow> bytes \<Rightarrow> int \<Rightarrow> bytes \<Rightarrow> ('s, bytes) op" where
  "IncrementalMac_calculate K key chunkSize data = core_chunkTags K key (to_uint32 chunkSize) data"

definition IncrementalMac_validate :: "'s core_calls \<Rightarrow> bytes \<Rightarrow> int \<Rightarrow> bytes \<Rightarrow> bytes \<Rightarrow> ('s, unit) op" where
  "IncrementalMac_validate K key chunkSize data digest = core_chunkCheck K key (to_uint32 chunkSize) data digest"

definition randomBytes :: "'s core_calls \<Rightarrow> int \<Rightarrow> ('s, bytes) op" where
  "randomBytes K length1 = core_random K (to_uint32 length1)"

definition abiVersion :: "'s core_calls \<Rightarrow> ('s, int) op" where
  "abiVersion K = core_abiVersion K"

end
