(* ===== verification/Web_Types.thy ===== *)
theory Web_Types
  imports Address
begin

text \<open>
  The value classes of \<^verbatim>\<open>sdk/ts/src/wasm-api.ts\<close>, the surface of the web client:
  addresses, keys, the published keys a client uploads, ciphertexts, safety numbers and the group
  classes. Every object holds plain bytes, so \<^verbatim>\<open>free()\<close> does nothing.
\<close>

subsection \<open>WasmProtocolAddress\<close>

datatype wasm_address = WasmProtocolAddress (wa_name: jsstring) (wa_deviceId: int)

definition WasmProtocolAddress_new :: "jsstring \<Rightarrow> int \<Rightarrow> js_error + wasm_address" where
  "WasmProtocolAddress_new name device_id =
     (if length name = 0 then Inl (fault InvalidArgument (js ''empty address name''))
      else Inr (WasmProtocolAddress name (to_uint32 device_id)))"

definition WasmProtocolAddress_toString :: "wasm_address \<Rightarrow> jsstring" where
  "WasmProtocolAddress_toString a = wa_name a @ js ''.'' @ decimal (wa_deviceId a)"

text \<open>What the constructor returns, and that the text of such an address is its own.\<close>

definition wasm_address_ok :: "wasm_address \<Rightarrow> bool" where
  "wasm_address_ok a \<longleftrightarrow> wa_name a \<noteq> [] \<and> 0 \<le> wa_deviceId a \<and> wa_deviceId a < 2 ^ 32"

lemma WasmProtocolAddress_new_ok: "WasmProtocolAddress_new n d = Inr a \<Longrightarrow> wasm_address_ok a"
  using to_uint32_bounds [of d] by (auto simp: WasmProtocolAddress_new_def wasm_address_ok_def split: if_splits)

lemma wasm_address_text_inj:
  "0 \<le> wa_deviceId a \<Longrightarrow> 0 \<le> wa_deviceId b \<Longrightarrow>
   WasmProtocolAddress_toString a = WasmProtocolAddress_toString b \<longleftrightarrow> a = b"
  using name_device_text_inj [of "wa_deviceId a" "wa_deviceId b" "wa_name a" "wa_name b"]
  by (cases a; cases b) (simp add: WasmProtocolAddress_toString_def del: js_Cons)

subsection \<open>Keys\<close>

datatype wasm_public_key = WasmPublicKey (wp_bytes: bytes)
datatype wasm_private_key = WasmPrivateKey (ws_bytes: bytes)

definition WasmPublicKey_deserialize :: "'s core_calls \<Rightarrow> bytes \<Rightarrow> ('s, wasm_public_key) op" where
  "WasmPublicKey_deserialize K data = andThen (core_curveCheck K data) (\<lambda>_. ret (WasmPublicKey data))"

definition WasmPublicKey_unchecked :: "bytes \<Rightarrow> wasm_public_key" where
  "WasmPublicKey_unchecked b = WasmPublicKey b"

definition WasmPublicKey_serialize :: "wasm_public_key \<Rightarrow> bytes" where
  "WasmPublicKey_serialize k = wp_bytes k"

definition WasmPublicKey_verify :: "'s core_calls \<Rightarrow> wasm_public_key \<Rightarrow> bytes \<Rightarrow> bytes \<Rightarrow> ('s, bool) op" where
  "WasmPublicKey_verify K k message signature = core_curveVerify K (wp_bytes k) message signature"

definition WasmPrivateKey_deserialize :: "bytes \<Rightarrow> js_error + wasm_private_key" where
  "WasmPrivateKey_deserialize data =
     (if length data \<noteq> 32 then Inl (fault InvalidKey (js ''a private key is 32 bytes''))
      else Inr (WasmPrivateKey data))"

definition WasmPrivateKey_generate :: "'s core_calls \<Rightarrow> ('s, wasm_private_key) op" where
  "WasmPrivateKey_generate K = andThen (core_curvePair K) (\<lambda>(secret, publicKey). ret (WasmPrivateKey secret))"

definition WasmPrivateKey_unchecked :: "bytes \<Rightarrow> wasm_private_key" where
  "WasmPrivateKey_unchecked b = WasmPrivateKey b"

definition WasmPrivateKey_getPublicKey :: "'s core_calls \<Rightarrow> wasm_private_key \<Rightarrow> ('s, wasm_public_key) op" where
  "WasmPrivateKey_getPublicKey K k =
     andThen (core_curvePublic K (ws_bytes k)) (\<lambda>b. ret (WasmPublicKey_unchecked b))"

definition WasmPrivateKey_serialize :: "wasm_private_key \<Rightarrow> bytes" where
  "WasmPrivateKey_serialize k = ws_bytes k"

definition WasmPrivateKey_sign :: "'s core_calls \<Rightarrow> wasm_private_key \<Rightarrow> bytes \<Rightarrow> ('s, bytes) op" where
  "WasmPrivateKey_sign K k message = core_curveSign K (ws_bytes k) message"

definition WasmPrivateKey_agree :: "'s core_calls \<Rightarrow> wasm_private_key \<Rightarrow> wasm_public_key \<Rightarrow> ('s, bytes) op" where
  "WasmPrivateKey_agree K k other = core_curveAgree K (ws_bytes k) (wp_bytes other)"

datatype wasm_identity_key_pair =
  WasmIdentityKeyPair (wk_public_key: wasm_public_key) (wk_private_key: wasm_private_key)

definition WasmIdentityKeyPair_new :: "wasm_public_key \<Rightarrow> wasm_private_key \<Rightarrow> wasm_identity_key_pair" where
  "WasmIdentityKeyPair_new public_key private_key =
     WasmIdentityKeyPair (WasmPublicKey_unchecked (WasmPublicKey_serialize public_key))
       (WasmPrivateKey_unchecked (WasmPrivateKey_serialize private_key))"

definition WasmIdentityKeyPair_deserialize :: "'s core_calls \<Rightarrow> bytes \<Rightarrow> ('s, wasm_identity_key_pair) op" where
  "WasmIdentityKeyPair_deserialize K data =
     andThen (core_identityParse K data) (\<lambda>(publicKey, secret).
     ret (WasmIdentityKeyPair_new (WasmPublicKey_unchecked publicKey) (WasmPrivateKey_unchecked secret)))"

definition WasmIdentityKeyPair_generate :: "'s core_calls \<Rightarrow> ('s, wasm_identity_key_pair) op" where
  "WasmIdentityKeyPair_generate K =
     andThen (WasmPrivateKey_generate K) (\<lambda>secret.
     andThen (WasmPrivateKey_getPublicKey K secret) (\<lambda>pub. ret (WasmIdentityKeyPair_new pub secret)))"

definition WasmIdentityKeyPair_serialize :: "'s core_calls \<Rightarrow> wasm_identity_key_pair \<Rightarrow> ('s, bytes) op" where
  "WasmIdentityKeyPair_serialize K p = core_identitySerialize K (ws_bytes (wk_private_key p))"

subsection \<open>Published keys\<close>

text \<open>\<^verbatim>\<open>PublishedKey\<close> and \<^verbatim>\<open>SignedPublishedKey\<close>: the id, the public half and
  the record to persist, and for a signed key its signature and time.\<close>

record published_key =
  pk_id :: int
  pk_public :: bytes
  pk_record :: bytes

record signed_published_key = published_key +
  pk_signature :: bytes
  pk_timestamp :: int

definition WasmPreKey_fromRecord :: "'s core_calls \<Rightarrow> bytes \<Rightarrow> ('s, published_key) op" where
  "WasmPreKey_fromRecord K r =
     andThen (core_oneTimeParse K r) (\<lambda>parsed.
     ret \<lparr>pk_id = ot_id parsed, pk_public = ot_publicKey parsed, pk_record = r\<rparr>)"

definition WasmSignedPreKey_fromRecord :: "'s core_calls \<Rightarrow> bytes \<Rightarrow> ('s, signed_published_key) op" where
  "WasmSignedPreKey_fromRecord K r =
     andThen (core_signedParse K r) (\<lambda>parsed.
     ret \<lparr>pk_id = sp_id parsed, pk_public = sp_publicKey parsed, pk_record = r,
          pk_signature = sp_signature parsed, pk_timestamp = sp_stamp parsed\<rparr>)"

definition WasmKyberPreKey_fromRecord :: "'s core_calls \<Rightarrow> bytes \<Rightarrow> ('s, signed_published_key) op" where
  "WasmKyberPreKey_fromRecord K r =
     andThen (core_pqRecordParse K r) (\<lambda>parsed.
     ret \<lparr>pk_id = sp_id parsed, pk_public = sp_publicKey parsed, pk_record = r,
          pk_signature = sp_signature parsed, pk_timestamp = sp_stamp parsed\<rparr>)"

subsection \<open>Results\<close>

datatype wasm_ciphertext = WasmCiphertext (wc_message_type: int) (wc_body: bytes)

definition WasmCiphertext_of :: "int \<Rightarrow> bytes \<Rightarrow> wasm_ciphertext" where
  "WasmCiphertext_of kind body = WasmCiphertext kind body"

datatype wasm_safety_number = WasmSafetyNumber (wn_displayable: jsstring) (wn_scannable: bytes)

definition WasmSafetyNumber_of :: "jsstring \<Rightarrow> bytes \<Rightarrow> wasm_safety_number" where
  "WasmSafetyNumber_of displayable scannable = WasmSafetyNumber displayable scannable"

subsection \<open>Group parameters\<close>

datatype wasm_group_identifier = WasmGroupIdentifier (wg_bytes: bytes)
datatype wasm_group_params = WasmGroupSecretParams (wgp_bytes: bytes) (wgp_identifier: bytes)
datatype wasm_group_master = WasmGroupMasterKey (wgm_bytes: bytes)

definition WasmGroupIdentifier_of :: "bytes \<Rightarrow> wasm_group_identifier" where
  "WasmGroupIdentifier_of b = WasmGroupIdentifier b"

definition WasmGroupIdentifier_serialize :: "wasm_group_identifier \<Rightarrow> bytes" where
  "WasmGroupIdentifier_serialize g = wg_bytes g"

definition WasmGroupMasterKey_from_bytes :: "bytes \<Rightarrow> js_error + wasm_group_master" where
  "WasmGroupMasterKey_from_bytes b =
     (if length b \<noteq> 32 then Inl (fault InvalidArgument (js ''a group master key is 32 bytes''))
      else Inr (WasmGroupMasterKey b))"

definition WasmGroupMasterKey_generate :: "'s core_calls \<Rightarrow> ('s, wasm_group_master) op" where
  "WasmGroupMasterKey_generate K = andThen (core_circleMasterRandom K) (\<lambda>b. ret (WasmGroupMasterKey b))"

definition WasmGroupMasterKey_serialize :: "wasm_group_master \<Rightarrow> bytes" where
  "WasmGroupMasterKey_serialize k = wgm_bytes k"

definition WasmGroupSecretParams_from_bytes :: "'s core_calls \<Rightarrow> bytes \<Rightarrow> ('s, wasm_group_params) op" where
  "WasmGroupSecretParams_from_bytes K b =
     andThen (core_circleParamsInfo K b) (\<lambda>(master, identifier, publicParams).
     ret (WasmGroupSecretParams b identifier))"

definition WasmGroupSecretParams_get_identifier :: "wasm_group_params \<Rightarrow> wasm_group_identifier" where
  "WasmGroupSecretParams_get_identifier p = WasmGroupIdentifier_of (wgp_identifier p)"

definition WasmGroupSecretParams_get_master_key :: "'s core_calls \<Rightarrow> wasm_group_params \<Rightarrow> ('s, wasm_group_master) op" where
  "WasmGroupSecretParams_get_master_key K p =
     andThen (core_circleParamsInfo K (wgp_bytes p)) (\<lambda>(master, identifier, publicParams).
     pureOp (WasmGroupMasterKey_from_bytes master))"

definition WasmGroupSecretParams_get_public_params :: "'s core_calls \<Rightarrow> wasm_group_params \<Rightarrow> ('s, bytes) op" where
  "WasmGroupSecretParams_get_public_params K p =
     andThen (core_circleParamsInfo K (wgp_bytes p)) (\<lambda>(master, identifier, publicParams). ret publicParams)"

definition WasmGroupSecretParams_serialize :: "wasm_group_params \<Rightarrow> bytes" where
  "WasmGroupSecretParams_serialize p = wgp_bytes p"

definition WasmGroupMasterKey_derive_secret_params :: "'s core_calls \<Rightarrow> wasm_group_master \<Rightarrow> ('s, wasm_group_params) op" where
  "WasmGroupMasterKey_derive_secret_params K k =
     andThen (core_circleSecretParams K (wgm_bytes k)) (WasmGroupSecretParams_from_bytes K)"

definition WasmGroupMasterKey_derive_identifier :: "'s core_calls \<Rightarrow> wasm_group_master \<Rightarrow> ('s, wasm_group_identifier) op" where
  "WasmGroupMasterKey_derive_identifier K k =
     andThen (WasmGroupMasterKey_derive_secret_params K k) (\<lambda>p. ret (WasmGroupSecretParams_get_identifier p))"

end
