(* ===== verification/Web_Stores.thy ===== *)
theory Web_Stores
  imports Web_Types
begin

text \<open>
  The in-memory stores of \<^verbatim>\<open>sdk/ts/src/wasm-api.ts\<close>. Each method is an \<open>op\<close> on the
  contents of its store; a client keeps any number of stores of each class, which \<open>web\<close> holds by
  reference together with the state of the platform (the core, the clock, the random source).
\<close>

subsection \<open>WasmInMemIdentityKeyStore\<close>

record web_identity_store =
  wi_identity :: wasm_identity_key_pair
  wi_registrationId :: int
  wi_known :: "(jsstring, bytes) js_map"

definition WasmInMemIdentityKeyStore_new :: "wasm_identity_key_pair \<Rightarrow> int \<Rightarrow> web_identity_store" where
  "WasmInMemIdentityKeyStore_new identity_key_pair registration_id =
     \<lparr>wi_identity = identity_key_pair, wi_registrationId = to_uint32 registration_id, wi_known = []\<rparr>"

definition wi_export_identity :: "wasm_address \<Rightarrow> (web_identity_store, bytes option) op" where
  "wi_export_identity address = gets (\<lambda>s. map_get (wi_known s) (WasmProtocolAddress_toString address))"

definition wi_pin :: "wasm_address \<Rightarrow> bytes \<Rightarrow> (web_identity_store, unit) op" where
  "wi_pin address identity =
     modify (\<lambda>s. s\<lparr>wi_known := map_set (WasmProtocolAddress_toString address) identity (wi_known s)\<rparr>)"

definition wi_isTrusted :: "wasm_address \<Rightarrow> bytes \<Rightarrow> (web_identity_store, bool) op" where
  "wi_isTrusted address identity =
     gets (\<lambda>s. case map_get (wi_known s) (WasmProtocolAddress_toString address) of
                 None \<Rightarrow> True | Some known \<Rightarrow> bytesEqual known identity)"

definition wi_save :: "wasm_address \<Rightarrow> bytes \<Rightarrow> (web_identity_store, bool) op" where
  "wi_save address identity =
     andThen (gets (\<lambda>s. map_get (wi_known s) (WasmProtocolAddress_toString address))) (\<lambda>known.
     andThen (wi_pin address identity) (\<lambda>_.
     ret (case known of None \<Rightarrow> False | Some k \<Rightarrow> \<not> bytesEqual k identity)))"

subsection \<open>RecordStore and the pre-key stores\<close>

type_synonym record_store = "(int, bytes) js_map"

definition RecordStore_get :: "int \<Rightarrow> (record_store, bytes option) op" where
  "RecordStore_get i = gets (\<lambda>s. map_get s (to_uint32 i))"

definition RecordStore_put :: "int \<Rightarrow> bytes \<Rightarrow> (record_store, unit) op" where
  "RecordStore_put i b = modify (map_set (to_uint32 i) b)"

definition RecordStore_drop :: "int \<Rightarrow> (record_store, unit) op" where
  "RecordStore_drop i = modify (map_delete (to_uint32 i))"

definition RecordStore_ids :: "(record_store, int list) op" where
  "RecordStore_ids = gets map_keys"

record kyber_store =
  ks_records :: record_store
  ks_used :: "int list"

definition ks_lift :: "(record_store, 'a) op \<Rightarrow> (kyber_store, 'a) op" where
  "ks_lift m = zoom ks_records (\<lambda>r s. s\<lparr>ks_records := r\<rparr>) m"

definition ks_remove :: "int \<Rightarrow> (kyber_store, unit) op" where
  "ks_remove i =
     andThen (ks_lift (RecordStore_drop i)) (\<lambda>_.
     modify (\<lambda>s. s\<lparr>ks_used := removeAll (to_uint32 i) (ks_used s)\<rparr>))"

definition ks_markUsed :: "int \<Rightarrow> (kyber_store, unit) op" where
  "ks_markUsed i = modify (\<lambda>s. s\<lparr>ks_used := set_add (to_uint32 i) (ks_used s)\<rparr>)"

definition ks_been_used :: "int \<Rightarrow> (kyber_store, bool) op" where
  "ks_been_used i = gets (\<lambda>s. to_uint32 i \<in> set (ks_used s))"

subsection \<open>The session and sender-key stores\<close>

type_synonym text_store = "(jsstring, bytes) js_map"

definition ss_load :: "wasm_address \<Rightarrow> (text_store, bytes) op" where
  "ss_load address = gets (\<lambda>s. or_empty (map_get s (WasmProtocolAddress_toString address)))"

definition ss_store :: "wasm_address \<Rightarrow> bytes \<Rightarrow> (text_store, unit) op" where
  "ss_store address r = modify (map_set (WasmProtocolAddress_toString address) r)"

definition ss_export :: "wasm_address \<Rightarrow> (text_store, bytes option) op" where
  "ss_export address = gets (\<lambda>s. map_get s (WasmProtocolAddress_toString address))"

definition ss_remove :: "wasm_address \<Rightarrow> (text_store, unit) op" where
  "ss_remove address = modify (map_delete (WasmProtocolAddress_toString address))"

definition sender_key :: "(jsstring \<Rightarrow> jsstring) \<Rightarrow> wasm_address \<Rightarrow> jsstring \<Rightarrow> jsstring" where
  "sender_key lower address distributionId =
     WasmProtocolAddress_toString address @ js ''|'' @ lower distributionId"

definition sks_load :: "(jsstring \<Rightarrow> jsstring) \<Rightarrow> wasm_address \<Rightarrow> jsstring \<Rightarrow> (text_store, bytes) op" where
  "sks_load lower address d = gets (\<lambda>s. or_empty (map_get s (sender_key lower address d)))"

definition sks_store :: "(jsstring \<Rightarrow> jsstring) \<Rightarrow> wasm_address \<Rightarrow> jsstring \<Rightarrow> bytes \<Rightarrow> (text_store, unit) op" where
  "sks_store lower address d r = modify (map_set (sender_key lower address d) r)"

definition sks_export :: "(jsstring \<Rightarrow> jsstring) \<Rightarrow> wasm_address \<Rightarrow> jsstring \<Rightarrow> (text_store, bytes option) op" where
  "sks_export lower address d = gets (\<lambda>s. map_get s (sender_key lower address d))"

subsection \<open>The client's heap of stores\<close>

record 'c web =
  host :: 'c
  next_ref :: nat
  identity_stores :: "nat \<Rightarrow> web_identity_store"
  pre_key_stores :: "nat \<Rightarrow> record_store"
  signed_stores :: "nat \<Rightarrow> record_store"
  kyber_stores :: "nat \<Rightarrow> kyber_store"
  session_stores :: "nat \<Rightarrow> text_store"
  sender_stores :: "nat \<Rightarrow> text_store"

text \<open>The platform: the core's calls, \<^verbatim>\<open>Date.now()\<close> and
  \<^verbatim>\<open>toLowerCase\<close>.\<close>

record 'c platform =
  platform_calls :: "'c core_calls"
  date_now :: "('c, int) op"
  lower_case :: "jsstring \<Rightarrow> jsstring"

definition on_host :: "('c, 'a) op \<Rightarrow> ('c web, 'a) op" where
  "on_host m = zoom host (\<lambda>c w. w\<lparr>host := c\<rparr>) m"

definition at_identity :: "nat \<Rightarrow> (web_identity_store, 'a) op \<Rightarrow> ('c web, 'a) op" where
  "at_identity r m = zoom (\<lambda>w. identity_stores w r) (\<lambda>s w. w\<lparr>identity_stores := (identity_stores w)(r := s)\<rparr>) m"

definition at_pre_keys :: "nat \<Rightarrow> (record_store, 'a) op \<Rightarrow> ('c web, 'a) op" where
  "at_pre_keys r m = zoom (\<lambda>w. pre_key_stores w r) (\<lambda>s w. w\<lparr>pre_key_stores := (pre_key_stores w)(r := s)\<rparr>) m"

definition at_signed :: "nat \<Rightarrow> (record_store, 'a) op \<Rightarrow> ('c web, 'a) op" where
  "at_signed r m = zoom (\<lambda>w. signed_stores w r) (\<lambda>s w. w\<lparr>signed_stores := (signed_stores w)(r := s)\<rparr>) m"

definition at_kyber :: "nat \<Rightarrow> (kyber_store, 'a) op \<Rightarrow> ('c web, 'a) op" where
  "at_kyber r m = zoom (\<lambda>w. kyber_stores w r) (\<lambda>s w. w\<lparr>kyber_stores := (kyber_stores w)(r := s)\<rparr>) m"

definition at_sessions :: "nat \<Rightarrow> (text_store, 'a) op \<Rightarrow> ('c web, 'a) op" where
  "at_sessions r m = zoom (\<lambda>w. session_stores w r) (\<lambda>s w. w\<lparr>session_stores := (session_stores w)(r := s)\<rparr>) m"

definition at_senders :: "nat \<Rightarrow> (text_store, 'a) op \<Rightarrow> ('c web, 'a) op" where
  "at_senders r m = zoom (\<lambda>w. sender_stores w r) (\<lambda>s w. w\<lparr>sender_stores := (sender_stores w)(r := s)\<rparr>) m"

text \<open>\<^verbatim>\<open>BigInt(Math.floor(Date.now() / 1000))\<close>.\<close>

definition web_nowSecs :: "'c platform \<Rightarrow> ('c, int) op" where
  "web_nowSecs P = andThen (date_now P) (\<lambda>ms. ret (ms div 1000))"

subsection \<open>The exported methods\<close>

text \<open>\<^verbatim>\<open>new WasmInMemIdentityKeyStore(...)\<close> and the other stores, which start empty.\<close>

definition new_identity_store :: "wasm_identity_key_pair \<Rightarrow> int \<Rightarrow> ('c web, nat) op" where
  "new_identity_store p i = (\<lambda>w. (Inr (next_ref w), w\<lparr>next_ref := Suc (next_ref w),
     identity_stores := (identity_stores w)(next_ref w := WasmInMemIdentityKeyStore_new p i)\<rparr>))"

definition export_identity :: "nat \<Rightarrow> wasm_address \<Rightarrow> ('c web, bytes option) task" where
  "export_identity IS address = sync (at_identity IS (wi_export_identity address))"

definition import_identity :: "'c platform \<Rightarrow> nat \<Rightarrow> wasm_address \<Rightarrow> bytes \<Rightarrow> ('c web, unit) task" where
  "import_identity P IS address identity_bytes =
     sync (andThen (on_host (core_curveCheck (platform_calls P) identity_bytes)) (\<lambda>_.
           at_identity IS (wi_pin address identity_bytes)))"

definition export_pre_key :: "nat \<Rightarrow> int \<Rightarrow> ('c web, bytes option) task" where
  "export_pre_key PS i = sync (at_pre_keys PS (RecordStore_get i))"

definition import_pre_key :: "'c platform \<Rightarrow> nat \<Rightarrow> int \<Rightarrow> bytes \<Rightarrow> ('c web, unit) task" where
  "import_pre_key P PS i record_bytes =
     sync (andThen (on_host (core_oneTimeParse (platform_calls P) record_bytes)) (\<lambda>_.
           at_pre_keys PS (RecordStore_put i record_bytes)))"

definition remove_pre_key :: "nat \<Rightarrow> int \<Rightarrow> ('c web, unit) task" where
  "remove_pre_key PS i = sync (at_pre_keys PS (RecordStore_drop i))"

definition export_signed_pre_key :: "nat \<Rightarrow> int \<Rightarrow> ('c web, bytes option) task" where
  "export_signed_pre_key SPS i = sync (at_signed SPS (RecordStore_get i))"

definition import_signed_pre_key :: "'c platform \<Rightarrow> nat \<Rightarrow> int \<Rightarrow> bytes \<Rightarrow> ('c web, unit) task" where
  "import_signed_pre_key P SPS i record_bytes =
     sync (andThen (on_host (core_signedParse (platform_calls P) record_bytes)) (\<lambda>_.
           at_signed SPS (RecordStore_put i record_bytes)))"

definition remove_signed_pre_key :: "nat \<Rightarrow> int \<Rightarrow> ('c web, unit) task" where
  "remove_signed_pre_key SPS i = sync (at_signed SPS (RecordStore_drop i))"

definition export_kyber_pre_key :: "nat \<Rightarrow> int \<Rightarrow> ('c web, bytes option) task" where
  "export_kyber_pre_key KPS i = sync (at_kyber KPS (ks_lift (RecordStore_get i)))"

definition import_kyber_pre_key :: "'c platform \<Rightarrow> nat \<Rightarrow> int \<Rightarrow> bytes \<Rightarrow> ('c web, unit) task" where
  "import_kyber_pre_key P KPS i record_bytes =
     sync (andThen (on_host (core_pqRecordParse (platform_calls P) record_bytes)) (\<lambda>_.
           at_kyber KPS (ks_lift (RecordStore_put i record_bytes))))"

definition remove_kyber_pre_key :: "nat \<Rightarrow> int \<Rightarrow> ('c web, unit) task" where
  "remove_kyber_pre_key KPS i = sync (at_kyber KPS (ks_remove i))"

definition has_kyber_pre_key_been_used :: "nat \<Rightarrow> int \<Rightarrow> ('c web, bool) task" where
  "has_kyber_pre_key_been_used KPS i = sync (at_kyber KPS (ks_been_used i))"

definition has_session :: "'c platform \<Rightarrow> nat \<Rightarrow> wasm_address \<Rightarrow> ('c web, bool) task" where
  "has_session P SS address =
     sync (andThen (at_sessions SS (ss_export address)) (\<lambda>r. case r of
       None \<Rightarrow> ret False
     | Some b \<Rightarrow> andThen (on_host (web_nowSecs P)) (\<lambda>t.
                 andThen (on_host (core_sessionInfo (platform_calls P) b t)) (\<lambda>info. ret (usable info)))))"

definition export_session :: "nat \<Rightarrow> wasm_address \<Rightarrow> ('c web, bytes option) task" where
  "export_session SS address = sync (at_sessions SS (ss_export address))"

definition import_session :: "'c platform \<Rightarrow> nat \<Rightarrow> wasm_address \<Rightarrow> bytes \<Rightarrow> ('c web, unit) task" where
  "import_session P SS address session_bytes =
     sync (andThen (on_host (core_sessionInfo (platform_calls P) session_bytes 0)) (\<lambda>_.
           at_sessions SS (ss_store address session_bytes)))"

definition archive_session :: "'c platform \<Rightarrow> nat \<Rightarrow> wasm_address \<Rightarrow> ('c web, unit) task" where
  "archive_session P SS address =
     sync (andThen (at_sessions SS (ss_export address)) (\<lambda>r. case r of
       None \<Rightarrow> ret ()
     | Some b \<Rightarrow> andThen (on_host (core_sessionShelve (platform_calls P) b)) (\<lambda>b'.
                 at_sessions SS (ss_store address b'))))"

definition remove_session :: "nat \<Rightarrow> wasm_address \<Rightarrow> ('c web, unit) task" where
  "remove_session SS address = sync (at_sessions SS (ss_remove address))"

definition export_sender_key :: "'c platform \<Rightarrow> nat \<Rightarrow> wasm_address \<Rightarrow> jsstring \<Rightarrow> ('c web, bytes option) task" where
  "export_sender_key P KS address d = sync (at_senders KS (sks_export (lower_case P) address d))"

definition import_sender_key :: "'c platform \<Rightarrow> nat \<Rightarrow> wasm_address \<Rightarrow> jsstring \<Rightarrow> bytes \<Rightarrow> ('c web, unit) task" where
  "import_sender_key P KS address d record_bytes =
     sync (at_senders KS (sks_store (lower_case P) address d record_bytes))"

end
