(* ===== verification/Accessors.thy ===== *)
theory Accessors
  imports Extras Web_Stores
begin

text \<open>
  The accessors of the value classes in \<^verbatim>\<open>sdk/ts/src/api.ts\<close> and
  \<^verbatim>\<open>wasm-api.ts\<close> that only answer from a field, and the conversion the time stamps
  go through: \<^verbatim>\<open>Number(n)\<close> of a \<^verbatim>\<open>bigint\<close> is the nearest IEEE double, so a
  stamp is exact below \<open>2 ^ 53\<close> and within 1024 of the recorded one for every 64-bit value.
\<close>

subsection \<open>Number of a bigint\<close>

text \<open>How many low bits of \<open>n\<close> a 53-bit significand drops.\<close>

function excess :: "int \<Rightarrow> nat" where
  "excess n = (if n < 2 ^ 53 then 0 else Suc (excess (n div 2)))"
  by pat_completeness auto
termination
  by (relation "measure nat") auto

declare excess.simps [simp del]

text \<open>Rounding to the nearest multiple of the last kept bit, ties to the even one.\<close>

definition round_even :: "int \<Rightarrow> int \<Rightarrow> int" where
  "round_even m n =
     (let q = n div m; r = n mod m in if 2 * r > m \<or> 2 * r = m \<and> odd q then (q + 1) * m else q * m)"

definition Number :: "int \<Rightarrow> int" where
  "Number n = round_even (2 ^ excess n) n"

lemma round_even_close: "0 < m \<Longrightarrow> 2 * \<bar>round_even m n - n\<bar> \<le> m"
proof -
  assume m: "0 < m"
  define q r where "q = n div m" and "r = n mod m"
  have n: "n = q * m + r" "0 \<le> r" "r < m" using m by (simp_all add: q_def r_def)
  have "round_even m n = (if 2 * r > m \<or> 2 * r = m \<and> odd q then q * m + m else q * m)"
    by (simp add: round_even_def Let_def q_def r_def algebra_simps)
  with n show ?thesis by (simp split: if_splits)
qed

lemma excess_bound: "n < 2 ^ (53 + k) \<Longrightarrow> excess n \<le> k"
proof (induction k arbitrary: n)
  case 0
  then show ?case by (subst excess.simps) simp
next
  case (Suc k)
  then have "n < 2 * 2 ^ (53 + k)" by (simp only: power_Suc add_Suc_right)
  then have "n div 2 < 2 ^ (53 + k)" by linarith
  from Suc.IH [OF this] show ?case by (subst excess.simps) simp
qed

lemma Number_exact: "n < 2 ^ 53 \<Longrightarrow> Number n = n"
  by (simp add: Number_def round_even_def excess.simps)

lemma Number_close:
  assumes "n < 2 ^ 64"
  shows "\<bar>Number n - n\<bar> \<le> 1024"
proof -
  have "excess n \<le> 11" using excess_bound [of n 11] assms by simp
  then have "(2 :: int) ^ excess n \<le> 2 ^ 11" by (rule power_increasing) simp
  moreover have "2 * \<bar>Number n - n\<bar> \<le> 2 ^ excess n" unfolding Number_def by (rule round_even_close) simp
  ultimately show ?thesis by simp
qed

subsection \<open>Accessors\<close>

definition KEMPublicKey_unchecked :: "bytes \<Rightarrow> kem_public_key" where
  "KEMPublicKey_unchecked x = KEMPublicKey x"

definition KEMSecretKey_unchecked :: "bytes \<Rightarrow> kem_secret_key" where
  "KEMSecretKey_unchecked x = KEMSecretKey x"

definition KEMKeyPair_getPublicKey :: "kem_key_pair \<Rightarrow> kem_public_key" where
  "KEMKeyPair_getPublicKey x = kem_publicKey x"

definition KEMKeyPair_getSecretKey :: "kem_key_pair \<Rightarrow> kem_secret_key" where
  "KEMKeyPair_getSecretKey x = kem_secretKey x"

definition ServiceId_toString :: "service_id \<Rightarrow> js_error + jsstring" where
  "ServiceId_toString x = getServiceIdString x"

definition PreKeyRecord_serialize :: "pre_key_record \<Rightarrow> bytes" where
  "PreKeyRecord_serialize x = pr_bytes x"

definition PreKeyRecord_id :: "pre_key_record \<Rightarrow> int" where
  "PreKeyRecord_id x = pr_id x"

definition SignedPreKeyRecord_serialize :: "signed_record \<Rightarrow> bytes" where
  "SignedPreKeyRecord_serialize x = sr_bytes x"

definition SignedPreKeyRecord_id :: "signed_record \<Rightarrow> int" where
  "SignedPreKeyRecord_id x = sr_id x"

definition SignedPreKeyRecord_timestamp :: "signed_record \<Rightarrow> int" where
  "SignedPreKeyRecord_timestamp x = Number (sr_stamp x)"

definition SignedPreKeyRecord_signature :: "signed_record \<Rightarrow> bytes" where
  "SignedPreKeyRecord_signature x = sr_signature x"

definition KyberPreKeyRecord_serialize :: "signed_record \<Rightarrow> bytes" where
  "KyberPreKeyRecord_serialize x = sr_bytes x"

definition KyberPreKeyRecord_id :: "signed_record \<Rightarrow> int" where
  "KyberPreKeyRecord_id x = sr_id x"

definition KyberPreKeyRecord_timestamp :: "signed_record \<Rightarrow> int" where
  "KyberPreKeyRecord_timestamp x = Number (sr_stamp x)"

definition KyberPreKeyRecord_signature :: "signed_record \<Rightarrow> bytes" where
  "KyberPreKeyRecord_signature x = sr_signature x"

definition CiphertextMessage_serialize :: "ciphertext_message \<Rightarrow> bytes" where
  "CiphertextMessage_serialize x = cm_bytes x"

definition CiphertextMessage_type :: "ciphertext_message \<Rightarrow> int" where
  "CiphertextMessage_type x = cm_type x"

definition WhisperMessage_serialize :: "whisper_message \<Rightarrow> bytes" where
  "WhisperMessage_serialize x = wm_bytes x"

definition WhisperMessage_body :: "whisper_message \<Rightarrow> bytes" where
  "WhisperMessage_body x = wm_body x"

definition PreKeyMessage_serialize :: "pre_key_message \<Rightarrow> bytes" where
  "PreKeyMessage_serialize x = pm_bytes x"

definition SenderKeyMessage_serialize :: "sender_key_message \<Rightarrow> bytes" where
  "SenderKeyMessage_serialize x = km_bytes x"

definition SenderKeyMessage_messageVersion :: "sender_key_message \<Rightarrow> int" where
  "SenderKeyMessage_messageVersion x = km_version x"

definition SenderKeyMessage_distributionId :: "sender_key_message \<Rightarrow> jsstring" where
  "SenderKeyMessage_distributionId x = km_distributionId x"

definition SenderKeyMessage_chainId :: "sender_key_message \<Rightarrow> int" where
  "SenderKeyMessage_chainId x = km_chainId x"

definition SenderKeyMessage_iteration :: "sender_key_message \<Rightarrow> int" where
  "SenderKeyMessage_iteration x = km_step x"

definition SenderKeyMessage_ciphertext :: "sender_key_message \<Rightarrow> bytes" where
  "SenderKeyMessage_ciphertext x = km_body x"

definition SenderKeyDistributionMessage_serialize :: "distribution_message \<Rightarrow> bytes" where
  "SenderKeyDistributionMessage_serialize x = dm_bytes x"

definition SenderKeyDistributionMessage_messageVersion :: "distribution_message \<Rightarrow> int" where
  "SenderKeyDistributionMessage_messageVersion x = dm_version x"

definition SenderKeyDistributionMessage_distributionId :: "distribution_message \<Rightarrow> jsstring" where
  "SenderKeyDistributionMessage_distributionId x = dm_distributionId x"

definition SenderKeyDistributionMessage_chainId :: "distribution_message \<Rightarrow> int" where
  "SenderKeyDistributionMessage_chainId x = dm_chainId x"

definition SenderKeyDistributionMessage_iteration :: "distribution_message \<Rightarrow> int" where
  "SenderKeyDistributionMessage_iteration x = dm_step x"

definition SenderKeyDistributionMessage_chainKey :: "distribution_message \<Rightarrow> bytes" where
  "SenderKeyDistributionMessage_chainKey x = dm_seed x"

definition DecryptionErrorMessage_serialize :: "decryption_error_message \<Rightarrow> bytes" where
  "DecryptionErrorMessage_serialize x = de_bytes x"

definition DecryptionErrorMessage_timestamp :: "decryption_error_message \<Rightarrow> int" where
  "DecryptionErrorMessage_timestamp x = Number (re_stampMs (de_parts x))"

definition DecryptionErrorMessage_deviceId :: "decryption_error_message \<Rightarrow> int" where
  "DecryptionErrorMessage_deviceId x = re_device (de_parts x)"

definition PlaintextContent_serialize :: "plaintext_content \<Rightarrow> bytes" where
  "PlaintextContent_serialize x = pc_bytes x"

definition PlaintextContent_body :: "plaintext_content \<Rightarrow> bytes" where
  "PlaintextContent_body x = pc_body x"

definition SenderCertificate_expiration :: "sender_certificate \<Rightarrow> int" where
  "SenderCertificate_expiration x = Number (sd_expiresMs x)"

definition WasmProtocolAddress_name :: "wasm_address \<Rightarrow> jsstring" where
  "WasmProtocolAddress_name x = wa_name x"

definition WasmProtocolAddress_deviceId :: "wasm_address \<Rightarrow> int" where
  "WasmProtocolAddress_deviceId x = wa_deviceId x"

definition WasmIdentityKeyPair_public_key :: "wasm_identity_key_pair \<Rightarrow> wasm_public_key" where
  "WasmIdentityKeyPair_public_key x = wk_public_key x"

definition WasmIdentityKeyPair_private_key :: "wasm_identity_key_pair \<Rightarrow> wasm_private_key" where
  "WasmIdentityKeyPair_private_key x = wk_private_key x"

definition WasmInMemIdentityKeyStore_identity_key_pair :: "web_identity_store \<Rightarrow> wasm_identity_key_pair" where
  "WasmInMemIdentityKeyStore_identity_key_pair x = wi_identity x"

definition WasmInMemIdentityKeyStore_registration_id :: "web_identity_store \<Rightarrow> int" where
  "WasmInMemIdentityKeyStore_registration_id x = wi_registrationId x"

definition PublishedKey_id :: "'a published_key_scheme \<Rightarrow> int" where
  "PublishedKey_id x = pk_id x"

definition PublishedKey_public_key :: "'a published_key_scheme \<Rightarrow> bytes" where
  "PublishedKey_public_key x = pk_public x"

definition PublishedKey_record :: "'a published_key_scheme \<Rightarrow> bytes" where
  "PublishedKey_record x = pk_record x"

definition SignedPublishedKey_signature :: "signed_published_key \<Rightarrow> bytes" where
  "SignedPublishedKey_signature x = pk_signature x"

definition SignedPublishedKey_timestamp :: "signed_published_key \<Rightarrow> int" where
  "SignedPublishedKey_timestamp x = pk_timestamp x"

definition WasmCiphertext_message_type :: "wasm_ciphertext \<Rightarrow> int" where
  "WasmCiphertext_message_type x = wc_message_type x"

definition WasmCiphertext_body :: "wasm_ciphertext \<Rightarrow> bytes" where
  "WasmCiphertext_body x = wc_body x"

definition WasmSafetyNumber_displayable :: "wasm_safety_number \<Rightarrow> jsstring" where
  "WasmSafetyNumber_displayable x = wn_displayable x"

definition WasmSafetyNumber_scannable :: "wasm_safety_number \<Rightarrow> bytes" where
  "WasmSafetyNumber_scannable x = wn_scannable x"

end
