(* ===== verification/Loader.thy ===== *)
theory Loader
  imports Memory Frames
begin

text \<open>
  The loader of \<^verbatim>\<open>sdk/ts/src/core.ts\<close>: the module variable \<^verbatim>\<open>exports\<close>,
  \<^verbatim>\<open>fillRandom\<close>, \<^verbatim>\<open>loadSource\<close>, \<^verbatim>\<open>init\<close>, \<^verbatim>\<open>initSync\<close>,
  \<^verbatim>\<open>isReady\<close> and \<^verbatim>\<open>loaded\<close>.

  The runtime (fetch, the file system of node, WebAssembly, \<^verbatim>\<open>getRandomValues\<close>) is a
  parameter: a \<open>runtime\<close> record over the types of URLs, compiled modules and responses. An instance is
  the state of its memory; \<open>instances\<close> are all the instances ever created, and \<open>exports\<close> is the
  index of the adopted one. The last section is on calls of \<^verbatim>\<open>init\<close> that run together: each
  creates an instance of its own.
\<close>

subsection \<open>Randomness for the core\<close>

text \<open>\<^verbatim>\<open>crypto.getRandomValues\<close> on a view of \<open>n\<close> bytes; it throws above 65536.\<close>

type_synonym 'e entropy = "nat \<Rightarrow> ('e, bytes) op"

definition on_fst :: "('a, 'x) op \<Rightarrow> ('a \<times> 'b, 'x) op" where
  "on_fst m = zoom fst (\<lambda>a p. (a, snd p)) m"

definition on_snd :: "('b, 'x) op \<Rightarrow> ('a \<times> 'b, 'x) op" where
  "on_snd m = zoom snd (\<lambda>b p. (fst p, b)) m"

text \<open>The loop over chunks of the view.\<close>

function fill_chunks :: "'e entropy \<Rightarrow> nat \<Rightarrow> nat \<Rightarrow> nat \<Rightarrow> ('e \<times> 'w machine, unit) op" where
  "fill_chunks rnd ptr len at =
     (if at < len
      then andThen (on_fst (rnd (min len (at + 65536) - at))) (\<lambda>bs.
           andThen (on_snd (modify (poke (ptr + at) bs))) (\<lambda>_.
           fill_chunks rnd ptr len (at + 65536)))
      else ret ())"
  by pat_completeness auto
termination
  by (relation "measure (\<lambda>(rnd, ptr, len, at). len - at)") auto

declare fill_chunks.simps [simp del]

definition fillRandom :: "'e entropy \<Rightarrow> nat \<Rightarrow> nat \<Rightarrow> ('e \<times> 'w machine, unit) op" where
  "fillRandom rnd ptr len =
     andThen (gets (\<lambda>s. memory_size (snd s))) (\<lambda>n.
     if ptr + len \<le> n then fill_chunks rnd ptr len 0 else throw RangeError)"

subsection \<open>The loaded instance\<close>

record 'w loader =
  exports :: "nat option"
  instances :: "'w machine list"

definition isReady :: "'w loader \<Rightarrow> bool" where
  "isReady s \<longleftrightarrow> exports s \<noteq> None"

definition loaded :: "('w loader, nat) op" where
  "loaded = andThen (gets exports) (\<lambda>x. case x of
     None \<Rightarrow> throw (fault InvalidState (js ''the core is not loaded: await init() first''))
   | Some i \<Rightarrow> ret i)"

text \<open>An operation of the memory seam: every one starts from \<^verbatim>\<open>loaded()\<close>.\<close>

definition with_core :: "('w machine, 'a) op \<Rightarrow> ('w loader, 'a) op" where
  "with_core m =
     andThen loaded (\<lambda>i.
     zoom (\<lambda>s. instances s ! i) (\<lambda>c s. s\<lparr>instances := (instances s)[i := c]\<rparr>) m)"

text \<open>The import \<^verbatim>\<open>gv_random_bytes\<close>: it fills the memory of \<^verbatim>\<open>exports\<close>, which is
  \<^verbatim>\<open>null\<close> until an instance is adopted.\<close>

definition gv_random_bytes :: "'e entropy \<Rightarrow> nat \<Rightarrow> nat \<Rightarrow> ('e \<times> 'w loader, unit) op" where
  "gv_random_bytes rnd ptr len = (\<lambda>(e, s).
     (case exports s of
        None \<Rightarrow> (Inl TypeError, (e, s))
      | Some i \<Rightarrow> (case fillRandom rnd ptr len (e, instances s ! i) of
          (r, (e', m')) \<Rightarrow> (r, (e', s\<lparr>instances := (instances s)[i := m']\<rparr>)))))"

text \<open>\<^verbatim>\<open>adopt\<close>: the instance becomes the loaded one, whatever was loaded before.\<close>

definition adopt :: "nat \<Rightarrow> ('w loader, nat) op" where
  "adopt i = andThen (modify (\<lambda>s. s\<lparr>exports := Some i\<rparr>)) (\<lambda>_. ret i)"

subsection \<open>Loading\<close>

datatype ('u, 'm, 'r) input =
    NoInput | ModuleInput 'm | BytesInput bytes | ResponseInput 'r | UrlInput 'u | TextInput jsstring | RequestInput 'u

datatype ('m, 'r) source = ModuleSource 'm | BytesSource bytes | ResponseSource 'r

record ('w, 'u, 'm, 'r) runtime =
  default_location :: 'u
  parse_url :: "jsstring \<Rightarrow> js_error + 'u"
  is_file :: "'u \<Rightarrow> bool"
  on_node :: bool
  import_node :: "jsstring \<Rightarrow> ('w loader, unit) task"
  read_file :: "'u \<Rightarrow> ('w loader, bytes) task"
  fetch :: "('u, 'm, 'r) input \<Rightarrow> ('w loader, 'r) task"
  instantiate_module :: "'m \<Rightarrow> ('w loader, nat) task"
  instantiate_bytes :: "bytes \<Rightarrow> ('w loader, nat) task"
  instantiate_streaming :: "('r \<Rightarrow> ('w loader, nat) task) option"
  array_buffer :: "'r \<Rightarrow> ('w loader, bytes) task"
  compile_module :: "bytes \<Rightarrow> js_error + 'm"
  new_instance :: "'m \<Rightarrow> ('w loader, nat) op"

text \<open>The URL of an input that has one: \<^verbatim>\<open>null\<close> for a request.\<close>

definition url_of :: "('w, 'u, 'm, 'r) runtime \<Rightarrow> ('u, 'm, 'r) input \<Rightarrow> js_error + 'u option" where
  "url_of R input = (case input of
     UrlInput u \<Rightarrow> Inr (Some u)
   | TextInput t \<Rightarrow> (case parse_url R t of Inl e \<Rightarrow> Inl e | Inr u \<Rightarrow> Inr (Some u))
   | _ \<Rightarrow> Inr None)"

definition loadSource ::
    "('w, 'u, 'm, 'r) runtime \<Rightarrow> ('u, 'm, 'r) input \<Rightarrow> ('w loader, ('m, 'r) source) task" where
  "loadSource R given =
     (let input = (case given of NoInput \<Rightarrow> UrlInput (default_location R) | _ \<Rightarrow> given) in
      case input of
        ModuleInput m \<Rightarrow> sync (ret (ModuleSource m))
      | BytesInput b \<Rightarrow> sync (ret (BytesSource b))
      | ResponseInput r \<Rightarrow> sync (ret (ResponseSource r))
      | _ \<Rightarrow>
          bindT (sync (pureOp (url_of R input))) (\<lambda>url.
          case (case url of None \<Rightarrow> None | Some u \<Rightarrow> if is_file R u \<and> on_node R then Some u else None) of
            Some u \<Rightarrow>
              bindT (awaitT (import_node R (js ''node:fs/promises''))) (\<lambda>_.
              bindT (awaitT (import_node R (js ''node:url''))) (\<lambda>_.
              bindT (awaitT (read_file R u)) (\<lambda>b. sync (ret (BytesSource b)))))
          | None \<Rightarrow> bindT (awaitT (fetch R input)) (\<lambda>r. sync (ret (ResponseSource r)))))"

text \<open>The argument: \<^verbatim>\<open>{ module_or_path }\<close> or the input itself, each possibly a promise.\<close>

datatype 't init_arg = Wrapped 't | Plain 't

fun unwrap :: "'t init_arg \<Rightarrow> 't" where
  "unwrap (Wrapped t) = t"
| "unwrap (Plain t) = t"

definition init ::
    "('w, 'u, 'm, 'r) runtime \<Rightarrow> ('w loader, ('u, 'm, 'r) input) task init_arg \<Rightarrow> ('w loader, nat) task" where
  "init R arg =
     bindT (sync (gets exports)) (\<lambda>x. case x of
       Some i \<Rightarrow> sync (ret i)
     | None \<Rightarrow>
         bindT (awaitT (unwrap arg)) (\<lambda>unwrapped.
         bindT (awaitT (loadSource R unwrapped)) (\<lambda>source.
         bindT (case source of
             ModuleSource m \<Rightarrow> awaitT (instantiate_module R m)
           | ResponseSource r \<Rightarrow>
               (case instantiate_streaming R of
                  Some f \<Rightarrow> awaitT (f r)
                | None \<Rightarrow> bindT (awaitT (array_buffer R r)) (\<lambda>b. awaitT (instantiate_bytes R b)))
           | BytesSource b \<Rightarrow> awaitT (instantiate_bytes R b)) (\<lambda>instance.
         sync (adopt instance)))))"

datatype 'm sync_input = SyncModule 'm | SyncBytes bytes

definition initSync :: "('w, 'u, 'm, 'r) runtime \<Rightarrow> 'm sync_input init_arg \<Rightarrow> ('w loader, nat) op" where
  "initSync R arg =
     andThen (gets exports) (\<lambda>x. case x of
       Some i \<Rightarrow> ret i
     | None \<Rightarrow>
         andThen (pureOp (case unwrap arg of SyncModule m \<Rightarrow> Inr m | SyncBytes b \<Rightarrow> compile_module R b)) (\<lambda>m.
         andThen (new_instance R m) adopt))"

subsection \<open>Randomness covers its range\<close>

text \<open>What is documented of \<^verbatim>\<open>getRandomValues\<close>: a request of at most 65536 bytes is filled.\<close>

definition entropy_ok :: "'e entropy \<Rightarrow> bool" where
  "entropy_ok rnd \<longleftrightarrow> (\<forall>n e. n \<le> 65536 \<longrightarrow> (\<exists>bs e'. rnd n e = (Inr bs, e') \<and> length bs = n))"

lemma poke_poke: "poke (p + length bs) cs (poke p bs m) = poke p (bs @ cs) m"
  by (rule machine.equality) (auto simp: poke_def fun_eq_iff nth_append)

lemma poke_Nil [simp]: "poke p [] m = m"
  by (rule machine.equality) (auto simp: poke_def fun_eq_iff)

lemma fill_chunks_run:
  assumes "entropy_ok rnd"
  shows "\<exists>bs e'. fill_chunks rnd ptr len at (e, m) = (Inr (), (e', poke (ptr + at) bs m)) \<and> length bs = len - at"
  using assms
proof (induction rnd ptr len at arbitrary: e m rule: fill_chunks.induct)
  case (1 rnd ptr len at)
  show ?case
  proof (cases "at < len")
    case False
    then show ?thesis by (simp add: fill_chunks.simps [of rnd ptr len at] exI [of _ "[]"])
  next
    case True
    define n where "n = min len (at + 65536) - at"
    have "n \<le> 65536" by (simp add: n_def)
    with "1.prems" obtain bs e1 where bs: "rnd n e = (Inr bs, e1)" "length bs = n"
      unfolding entropy_ok_def by blast
    obtain cs e2 where cs: "fill_chunks rnd ptr len (at + 65536) (e1, poke (ptr + at) bs m) =
        (Inr (), (e2, poke (ptr + (at + 65536)) cs (poke (ptr + at) bs m)))" "length cs = len - (at + 65536)"
      using "1.IH" [OF True "1.prems"] by blast
    have "poke (ptr + (at + 65536)) cs (poke (ptr + at) bs m) = poke (ptr + at) (bs @ cs) m"
    proof (cases "cs = []")
      case False
      then have "at + 65536 < len" using cs(2) by (cases cs) auto
      then have "length bs = 65536" using bs(2) by (simp add: n_def)
      then show ?thesis using poke_poke [of "ptr + at" bs cs m] by (simp add: add.assoc)
    qed simp
    moreover have "length (bs @ cs) = len - at" using True bs(2) cs(2) by (simp add: n_def)
    moreover have "fill_chunks rnd ptr len at (e, m) = fill_chunks rnd ptr len (at + 65536) (e1, poke (ptr + at) bs m)"
      using True bs(1) by (simp add: fill_chunks.simps [of rnd ptr len at] andThen_def on_fst_def on_snd_def zoom_def n_def)
    ultimately show ?thesis using cs(1) by metis
  qed
qed

text \<open>C32: \<^verbatim>\<open>fillRandom\<close> asks \<^verbatim>\<open>getRandomValues\<close> for at most 65536 bytes
  at a time and still fills exactly the \<open>len\<close> bytes from \<open>ptr\<close> on, for any length: it never runs
  into the limit, and no other byte of the memory changes.\<close>

theorem fill_random_covers:
  assumes "entropy_ok rnd" "ptr + len \<le> memory_size m"
  shows "\<exists>bs e'. fillRandom rnd ptr len (e, m) = (Inr (), (e', poke ptr bs m)) \<and> length bs = len"
  using fill_chunks_run [OF assms(1), of ptr len 0 e m] assms(2)
  by (simp add: fillRandom_def andThen_def)

definition counting :: "nat entropy" where
  "counting n e = (if n \<le> 65536 then (Inr (replicate n (of_nat e)), Suc e) else (Inl RuntimeError, e))"

theorem fill_random_covers_witness:
  "\<exists>bs e'. fillRandom counting 16 100000 (0, \<lparr>buffer = (\<lambda>a. 0), memory_size = 131072, inner = ()\<rparr>) =
     (Inr (), (e', poke 16 bs \<lparr>buffer = (\<lambda>a. 0), memory_size = 131072, inner = ()\<rparr>)) \<and> length bs = 100000"
proof (rule fill_random_covers)
  show "entropy_ok counting" by (simp add: entropy_ok_def counting_def)
qed simp

subsection \<open>Loading once\<close>

text \<open>What is relied on of the runtime, for a call with nothing in between: fetching and reading change
  no instance, and instantiation creates one instance or fails.\<close>

definition still :: "('w loader, 'a) op \<Rightarrow> bool" where
  "still m \<longleftrightarrow> (\<forall>s. snd (m s) = s)"

definition creates_one :: "('w loader, nat) op \<Rightarrow> bool" where
  "creates_one m \<longleftrightarrow> (\<forall>s. exports (snd (m s)) = exports s \<and>
     (case fst (m s) of
        Inl e \<Rightarrow> instances (snd (m s)) = instances s
      | Inr i \<Rightarrow> i = length (instances s) \<and> (\<exists>c. instances (snd (m s)) = instances s @ [c])))"

definition runtime_ok :: "('w, 'u, 'm, 'r) runtime \<Rightarrow> bool" where
  "runtime_ok R \<longleftrightarrow> (\<forall>n. still (runT (import_node R n))) \<and> (\<forall>u. still (runT (read_file R u))) \<and>
     (\<forall>i. still (runT (fetch R i))) \<and> (\<forall>r. still (runT (array_buffer R r))) \<and>
     (\<forall>m. creates_one (runT (instantiate_module R m))) \<and> (\<forall>b. creates_one (runT (instantiate_bytes R b))) \<and>
     (\<forall>f. instantiate_streaming R = Some f \<longrightarrow> (\<forall>r. creates_one (runT (f r)))) \<and>
     (\<forall>m. creates_one (new_instance R m))"

lemma still_basic: "still (ret x)" "still (throw e)" "still (pureOp q)"
  by (simp_all add: still_def)

lemma still_run: "still m \<Longrightarrow> andThen m k s = (case fst (m s) of Inl e \<Rightarrow> (Inl e, s) | Inr x \<Rightarrow> k x s)"
  by (simp add: andThen_apply still_def split: sum.split)

lemma still_andThen: "still m \<Longrightarrow> (\<And>x. still (k x)) \<Longrightarrow> still (andThen m k)"
  unfolding still_def [of "andThen m k"] by (simp add: still_run) (simp add: still_def split: sum.split)

lemma still_option: "still m \<Longrightarrow> (\<And>x. still (k x)) \<Longrightarrow> still (case v of None \<Rightarrow> m | Some x \<Rightarrow> k x)"
  by (cases v) auto

lemma creates_still_andThen:
  assumes "still m" "\<And>x. creates_one (k x)"
  shows "creates_one (andThen m k)"
  unfolding creates_one_def [of "andThen m k"]
proof
  fix s
  show "exports (snd (andThen m k s)) = exports s \<and> (case fst (andThen m k s) of
        Inl e \<Rightarrow> instances (snd (andThen m k s)) = instances s
      | Inr i \<Rightarrow> i = length (instances s) \<and> (\<exists>c. instances (snd (andThen m k s)) = instances s @ [c]))"
    using assms(2) by (cases "fst (m s)") (simp_all add: still_run [OF assms(1)] creates_one_def cong: sum.case_cong)
qed

lemma loadSource_still:
  assumes "runtime_ok R"
  shows "still (runT (loadSource R i))"
  using assms
  by (auto simp: loadSource_def Let_def task_simps runtime_ok_def split: input.split option.split
      intro!: still_andThen still_basic)

lemma init_creates:
  assumes "runtime_ok R"
  shows "creates_one (runT (case source of
             ModuleSource m \<Rightarrow> awaitT (instantiate_module R m)
           | ResponseSource r \<Rightarrow>
               (case instantiate_streaming R of
                  Some f \<Rightarrow> awaitT (f r)
                | None \<Rightarrow> bindT (awaitT (array_buffer R r)) (\<lambda>b. awaitT (instantiate_bytes R b)))
           | BytesSource b \<Rightarrow> awaitT (instantiate_bytes R b)))"
  using assms
  by (cases source; cases "instantiate_streaming R")
    (simp_all add: runtime_ok_def task_simps creates_still_andThen)

text \<open>C16: \<^verbatim>\<open>init\<close> on a loaded core returns the loaded instance in one step and changes
  nothing. On a core that is not loaded it either throws, and the core stays unloaded with no instance
  created, or returns the one instance it created, which is then the loaded one: \<^verbatim>\<open>loaded()\<close>
  returns it.\<close>

theorem init_effect:
  assumes R: "runtime_ok R" and arg: "still (runT (unwrap arg))" and run: "runT (init R arg) s = (r, s')"
  shows "case exports s of
      Some i \<Rightarrow> r = Inr i \<and> s' = s \<and> exec (init R arg) s = (Done (Inr i), s)
    | None \<Rightarrow> (case r of
        Inl e \<Rightarrow> \<not> isReady s' \<and> instances s' = instances s
      | Inr i \<Rightarrow> i = length (instances s) \<and> (\<exists>c. instances s' = instances s @ [c]) \<and> isReady s' \<and> loaded s' = (Inr i, s'))"
proof (cases "exports s")
  case (Some i)
  with run show ?thesis by (simp add: init_def task_simps andThen_def exec_bindT)
next
  case None
  have "\<exists>m. creates_one m \<and> runT (init R arg) s = andThen m adopt s"
  proof (intro exI conjI)
    let ?inst = "\<lambda>source. runT (case source of
             ModuleSource m \<Rightarrow> awaitT (instantiate_module R m)
           | ResponseSource r \<Rightarrow>
               (case instantiate_streaming R of
                  Some f \<Rightarrow> awaitT (f r)
                | None \<Rightarrow> bindT (awaitT (array_buffer R r)) (\<lambda>b. awaitT (instantiate_bytes R b)))
           | BytesSource b \<Rightarrow> awaitT (instantiate_bytes R b))"
    let ?m = "andThen (runT (unwrap arg)) (\<lambda>u. andThen (runT (loadSource R u)) ?inst)"
    show "creates_one ?m"
      by (intro creates_still_andThen arg loadSource_still R init_creates)
    show "runT (init R arg) s = andThen ?m adopt s"
      using None by (simp add: init_def task_simps andThen_assoc andThen_apply)
  qed
  then obtain m where m: "creates_one m" "andThen m adopt s = (r, s')" using run by auto
  then show ?thesis
    using None by (cases "fst (m s)")
      (auto simp: creates_one_def andThen_apply adopt_def isReady_def loaded_def split: sum.splits dest: spec [of _ s])
qed

text \<open>A runtime that instantiates modules into empty memories.\<close>

definition fresh_instance :: "(unit loader, nat) op" where
  "fresh_instance = (\<lambda>s. (Inr (length (instances s)),
     s\<lparr>instances := instances s @ [\<lparr>buffer = (\<lambda>a. 0), memory_size = 65536, inner = ()\<rparr>]\<rparr>))"

definition sample_runtime :: "(unit, unit, unit, unit) runtime" where
  "sample_runtime = \<lparr>default_location = (), parse_url = (\<lambda>t. Inr ()), is_file = (\<lambda>u. False), on_node = False,
     import_node = (\<lambda>n. sync (ret ())), read_file = (\<lambda>u. sync (ret [])), fetch = (\<lambda>i. sync (ret ())),
     instantiate_module = (\<lambda>m. sync fresh_instance), instantiate_bytes = (\<lambda>b. sync fresh_instance),
     instantiate_streaming = None, array_buffer = (\<lambda>r. sync (ret [])), compile_module = (\<lambda>b. Inr ()),
     new_instance = (\<lambda>m. fresh_instance)\<rparr>"

definition empty_loader :: "unit loader" where
  "empty_loader = \<lparr>exports = None, instances = []\<rparr>"

definition load_sample :: "(unit loader, nat) task" where
  "load_sample = init sample_runtime (Plain (sync (ret (ModuleInput ()))))"

lemma sample_runtime_ok: "runtime_ok sample_runtime"
  by (simp add: runtime_ok_def sample_runtime_def task_simps still_def creates_one_def fresh_instance_def)

theorem init_effect_witness:
  "\<exists>s'. runT (init sample_runtime (Plain (sync (ret (ModuleInput ()))))) empty_loader = (Inr 0, s') \<and>
     isReady s' \<and> loaded s' = (Inr 0, s')"
proof -
  obtain s' where run: "runT (init sample_runtime (Plain (sync (ret (ModuleInput ()))))) empty_loader = (Inr 0, s')"
    by (simp add: init_def task_simps andThen_def empty_loader_def loadSource_def Let_def sample_runtime_def
        fresh_instance_def adopt_def)
  have "still (runT (unwrap (Plain (sync (ret (ModuleInput ()))))))" by (simp add: still_def task_simps)
  from init_effect [OF sample_runtime_ok this run] show ?thesis
    unfolding run by (simp add: empty_loader_def)
qed

subsection \<open>Loading twice at once\<close>

text \<open>
  The same reliance segment by segment, for calls that run together: fetching and reading move
  nothing, and instantiating creates one instance in one of its segments and then returns it, or
  fails. \<open>ad\<close> tells whether the segment that returns also adopts the instance: \<^verbatim>\<open>init\<close>
  does, the runtime does not.
\<close>

definition created :: "'w loader \<Rightarrow> 'w loader \<Rightarrow> bool" where
  "created s s' \<longleftrightarrow> (\<exists>c. s' = s\<lparr>instances := instances s @ [c]\<rparr>)"

definition finished :: "bool \<Rightarrow> nat \<Rightarrow> 'w loader \<Rightarrow> 'w loader" where
  "finished ad k s = (if ad then s\<lparr>exports := Some k\<rparr> else s)"

inductive made :: "bool \<Rightarrow> nat \<Rightarrow> ('w loader, nat) task \<Rightarrow> bool" for ad k where
  segment: "(\<And>s r s'. exec t s = (Done r, s') \<Longrightarrow> (\<exists>e. r = Inl e) \<and> s' = s \<or> r = Inr k \<and> s' = finished ad k s) \<Longrightarrow>
   (\<And>s u s'. exec t s = (Await u, s') \<Longrightarrow> s' = s \<and> made ad k u) \<Longrightarrow> made ad k t"

inductive makes :: "bool \<Rightarrow> ('w loader, nat) task \<Rightarrow> bool" for ad where
  segment: "(\<And>s r s'. exec t s = (Done r, s') \<Longrightarrow> (\<exists>e. r = Inl e) \<and> s' = s \<or>
      (\<exists>s1. created s s1 \<and> r = Inr (length (instances s)) \<and> s' = finished ad (length (instances s)) s1)) \<Longrightarrow>
   (\<And>s u s'. exec t s = (Await u, s') \<Longrightarrow> s' = s \<and> makes ad u \<or> created s s' \<and> made ad (length (instances s)) u) \<Longrightarrow>
   makes ad t"

abbreviation quiet_task :: "('w loader, 'a) task \<Rightarrow> bool" where
  "quiet_task t \<equiv> segments (\<lambda>s s'. s' = s) t"

definition runtime_steps_ok :: "('w, 'u, 'm, 'r) runtime \<Rightarrow> bool" where
  "runtime_steps_ok R \<longleftrightarrow> (\<forall>n. quiet_task (import_node R n)) \<and> (\<forall>u. quiet_task (read_file R u)) \<and>
     (\<forall>i. quiet_task (fetch R i)) \<and> (\<forall>r. quiet_task (array_buffer R r)) \<and>
     (\<forall>m. makes False (instantiate_module R m)) \<and> (\<forall>b. makes False (instantiate_bytes R b)) \<and>
     (\<forall>f. instantiate_streaming R = Some f \<longrightarrow> (\<forall>r. makes False (f r)))"

interpretation st: frame "\<lambda>s s'. s' = s"
  by unfold_locales simp_all

inductive_cases madeE: "made ad k t"
inductive_cases makesE: "makes ad t"

lemma made_done: "made ad k t \<Longrightarrow> exec t s = (Done r, s') \<Longrightarrow> (\<exists>e. r = Inl e) \<and> s' = s \<or> r = Inr k \<and> s' = finished ad k s"
  by (erule madeE) blast

lemma made_await: "made ad k t \<Longrightarrow> exec t s = (Await u, s') \<Longrightarrow> s' = s \<and> made ad k u"
  by (erule madeE) blast

lemma makes_done:
  "makes ad t \<Longrightarrow> exec t s = (Done r, s') \<Longrightarrow> (\<exists>e. r = Inl e) \<and> s' = s \<or>
     (\<exists>s1. created s s1 \<and> r = Inr (length (instances s)) \<and> s' = finished ad (length (instances s)) s1)"
  by (erule makesE) blast

lemma makes_await:
  "makes ad t \<Longrightarrow> exec t s = (Await u, s') \<Longrightarrow> s' = s \<and> makes ad u \<or> created s s' \<and> made ad (length (instances s)) u"
  by (erule makesE) blast

lemma resumed_makes:
  "makes ad (resumeWith (Inl e))" "made ad k (resumeWith (Inl e))" "made False k (resumeWith (Inr k))"
  by (rule makes.segment made.segment, simp_all add: finished_def)+

text \<open>What a segment of \<^verbatim>\<open>await p\<close> is, and of what follows a call.\<close>

lemma awaitT_cases:
  assumes "exec (awaitT t) s = (oc, s')"
  obtains (ended) r where "exec t s = (Done r, s')" "oc = Await (resumeWith r)"
    | (waits) u where "exec t s = (Await u, s')" "oc = Await (awaitT u)"
  using assms by (auto simp: exec_awaitT split: prod.splits outcome.splits)

lemma bindT_cases:
  assumes "exec (bindT t k) s = (oc, s')"
  obtains (fails) e where "exec t s = (Done (Inl e), s')" "oc = Done (Inl e)"
    | (goes) x s1 where "exec t s = (Done (Inr x), s1)" "exec (k x) s1 = (oc, s')"
    | (waits) u where "exec t s = (Await u, s')" "oc = Await (bindT u k)"
  using assms by (auto simp: exec_bindT split: prod.splits outcome.splits sum.splits)

lemma adopt_run: "adopt i s = (Inr i, finished True i s)"
  by (simp add: adopt_def andThen_apply finished_def)

lemma made_awaitT: "made False k t \<Longrightarrow> made False k (awaitT t)"
proof (induction rule: made.induct)
  case (segment t)
  show ?case
  proof (rule made.segment, goal_cases)
    case (1 s r s')
    then show ?case by (cases rule: awaitT_cases) simp_all
  next
    case (2 s u s')
    then show ?case
    proof (cases rule: awaitT_cases)
      case (ended r)
      with segment(1) [OF ended(1)] show ?thesis by (auto intro: resumed_makes simp: finished_def)
    next
      case (waits v)
      with segment(2) [OF waits(1)] show ?thesis by simp
    qed
  qed
qed

lemma makes_awaitT: "makes False t \<Longrightarrow> makes False (awaitT t)"
proof (induction rule: makes.induct)
  case (segment t)
  show ?case
  proof (rule makes.segment, goal_cases)
    case (1 s r s')
    then show ?case by (cases rule: awaitT_cases) simp_all
  next
    case (2 s u s')
    then show ?case
    proof (cases rule: awaitT_cases)
      case (ended r)
      with segment(1) [OF ended(1)] show ?thesis by (auto intro: resumed_makes simp: finished_def)
    next
      case (waits v)
      with segment(2) [OF waits(1)] show ?thesis by (auto intro: made_awaitT)
    qed
  qed
qed

lemma made_adopts: "made False k t \<Longrightarrow> made True k (bindT t (\<lambda>i. sync (adopt i)))"
proof (induction rule: made.induct)
  case (segment t)
  show ?case
  proof (rule made.segment, goal_cases)
    case (1 s r s')
    then show ?case
      by (cases rule: bindT_cases) (auto dest!: segment(1) simp: adopt_run finished_def [of False])
  next
    case (2 s u s')
    then show ?case by (cases rule: bindT_cases) (auto dest!: segment(2))
  qed
qed

lemma makes_adopts: "makes False t \<Longrightarrow> makes True (bindT t (\<lambda>i. sync (adopt i)))"
proof (induction rule: makes.induct)
  case (segment t)
  show ?case
  proof (rule makes.segment, goal_cases)
    case (1 s r s')
    then show ?case
      by (cases rule: bindT_cases) (auto dest!: segment(1) simp: adopt_run finished_def [of False])
  next
    case (2 s u s')
    then show ?case by (cases rule: bindT_cases) (auto dest!: segment(2) intro: made_adopts)
  qed
qed

lemma quiet_then_makes: "quiet_task t \<Longrightarrow> (\<And>x. makes ad (k x)) \<Longrightarrow> makes ad (bindT t k)"
proof (induction t)
  case (Task f)
  show ?case
  proof (rule makes.segment, goal_cases)
    case (1 s r s')
    then show ?case
    proof (cases rule: bindT_cases)
      case (goes x s1)
      with segmentsD(1) [OF Task.prems(1) goes(1)] makes_done [OF Task.prems(2) goes(2)] show ?thesis by simp
    qed (use segmentsD(1) [OF Task.prems(1)] in auto)
  next
    case (2 s u s')
    then show ?case
    proof (cases rule: bindT_cases)
      case (goes x s1)
      with segmentsD(1) [OF Task.prems(1) goes(1)] makes_await [OF Task.prems(2) goes(2)] show ?thesis by simp
    next
      case (waits v)
      have f: "f s = (Await v, s')" using waits(1) by simp
      have "s' = s" "quiet_task v" using segmentsD [OF Task.prems(1) waits(1)] by simp_all
      moreover have "makes ad (bindT v k)"
        by (rule Task.IH [of "f s" "Await v"])
          (use f calculation(2) Task.prems(2) in \<open>auto intro: range_eqI [where x = s]\<close>)
      ultimately show ?thesis using waits(2) by simp
    qed simp
  qed
qed

lemma loadSource_quiet:
  assumes "runtime_steps_ok R"
  shows "quiet_task (loadSource R i)"
  using assms
  by (auto simp: loadSource_def Let_def runtime_steps_ok_def split: input.split option.split
      intro!: st.segments_intros st.quiet_basic)

lemma instantiating_makes:
  assumes "runtime_steps_ok R"
  shows "makes False (case source of
             ModuleSource m \<Rightarrow> awaitT (instantiate_module R m)
           | ResponseSource r \<Rightarrow>
               (case instantiate_streaming R of
                  Some f \<Rightarrow> awaitT (f r)
                | None \<Rightarrow> bindT (awaitT (array_buffer R r)) (\<lambda>b. awaitT (instantiate_bytes R b)))
           | BytesSource b \<Rightarrow> awaitT (instantiate_bytes R b))"
  using assms
  by (cases source; cases "instantiate_streaming R")
    (auto simp: runtime_steps_ok_def intro!: makes_awaitT quiet_then_makes st.segments_awaitT)

text \<open>The first segment of \<^verbatim>\<open>init\<close> on a core that is not loaded suspends, and moves nothing.\<close>

lemma init_starts:
  assumes R: "runtime_steps_ok R" and arg: "quiet_task (unwrap arg)" and s: "exports s = None"
  shows "\<exists>u. exec (init R arg) s = (Await u, s) \<and> makes True u"
proof -
  let ?k = "\<lambda>unwrapped. bindT (awaitT (loadSource R unwrapped)) (\<lambda>source.
         bindT (case source of
             ModuleSource m \<Rightarrow> awaitT (instantiate_module R m)
           | ResponseSource r \<Rightarrow>
               (case instantiate_streaming R of
                  Some f \<Rightarrow> awaitT (f r)
                | None \<Rightarrow> bindT (awaitT (array_buffer R r)) (\<lambda>b. awaitT (instantiate_bytes R b)))
           | BytesSource b \<Rightarrow> awaitT (instantiate_bytes R b)) (\<lambda>instance.
         sync (adopt instance)))"
  let ?t = "bindT (awaitT (unwrap arg)) ?k"
  have "makes True ?t"
    by (intro quiet_then_makes st.segments_awaitT arg loadSource_quiet R makes_adopts instantiating_makes)
  moreover have "exec (init R arg) s = exec ?t s" using s by (simp add: init_def exec_bindT)
  moreover obtain u where u: "exec ?t s = (Await u, s)"
  proof -
    obtain oc s1 where e: "exec (awaitT (unwrap arg)) s = (oc, s1)" by fastforce
    then have "s1 = s" using segmentsD(1) [OF st.segments_awaitT [OF arg]] by blast
    moreover from e obtain v where "oc = Await v" by (cases rule: awaitT_cases) auto
    ultimately have "exec ?t s = (Await (bindT v ?k), s)" using e by (simp add: exec_bindT)
    then show thesis by (rule that)
  qed
  moreover have "\<not> created s s" by (auto simp: created_def dest: arg_cong [of _ _ "\<lambda>s. length (instances s)"])
  ultimately show ?thesis by (auto dest: makes_await)
qed

text \<open>Which instance a call of the pool has created, if any: no two calls the same one.\<close>

definition settled :: "nat option \<Rightarrow> (nat, ('w loader, nat) task) outcome \<Rightarrow> bool" where
  "settled own oc \<longleftrightarrow> (case oc of
     Done r \<Rightarrow> (\<exists>e. r = Inl e) \<or> (\<exists>k. own = Some k \<and> r = Inr k)
   | Await t \<Rightarrow> (case own of None \<Rightarrow> makes True t | Some k \<Rightarrow> made True k t))"

definition loading ::
    "nat \<Rightarrow> (nat \<Rightarrow> nat option) \<Rightarrow> (nat, ('w loader, nat) task) outcome list \<Rightarrow> 'w loader \<Rightarrow> bool" where
  "loading n0 own pool s \<longleftrightarrow> n0 \<le> length (instances s) \<and>
     (\<forall>i<length pool. settled (own i) (pool ! i)) \<and>
     (\<forall>i k. own i = Some k \<longrightarrow> n0 \<le> k \<and> k < length (instances s)) \<and>
     (\<forall>i j k. own i = Some k \<longrightarrow> own j = Some k \<longrightarrow> i = j) \<and>
     (case exports s of None \<Rightarrow> \<forall>i<length pool. \<forall>k. pool ! i \<noteq> Done (Inr k)
      | Some k \<Rightarrow> \<exists>i<length pool. pool ! i = Done (Inr k))"

text \<open>The state after a segment of a call: what it owns then, and what the others see.\<close>

lemma loading_update:
  assumes l: "loading n0 own pool s" and i: "i < length pool" "pool ! i = Await t"
    and len: "length (instances s) \<le> length (instances s')" and oc: "settled o' oc"
    and own: "o' = own i \<or> own i = None \<and> o' = Some (length (instances s)) \<and> length (instances s) < length (instances s')"
    and exp: "(\<nexists>k. oc = Done (Inr k)) \<and> exports s' = exports s \<or> (\<exists>k. oc = Done (Inr k) \<and> exports s' = Some k)"
  shows "loading n0 (own(i := o')) (pool[i := oc]) s'"
  unfolding loading_def
proof (intro conjI)
  have fresh: "own j \<noteq> Some (length (instances s))" for j using l by (auto simp: loading_def)
  show "n0 \<le> length (instances s')" using l len by (simp add: loading_def)
  show "\<forall>j<length (pool[i := oc]). settled ((own(i := o')) j) (pool[i := oc] ! j)"
    using l oc by (simp add: loading_def nth_list_update)
  show "\<forall>j k. (own(i := o')) j = Some k \<longrightarrow> n0 \<le> k \<and> k < length (instances s')"
  proof (intro allI impI)
    fix j k assume k: "(own(i := o')) j = Some k"
    have old: "own j = Some k \<Longrightarrow> n0 \<le> k \<and> k < length (instances s)" for j using l by (simp add: loading_def)
    have "n0 \<le> length (instances s)" using l by (simp add: loading_def)
    with k own old [of j] len show "n0 \<le> k \<and> k < length (instances s')" by (cases "j = i") auto
  qed
  show "\<forall>j j' k. (own(i := o')) j = Some k \<longrightarrow> (own(i := o')) j' = Some k \<longrightarrow> j = j'"
  proof (intro allI impI)
    fix j j' k assume k: "(own(i := o')) j = Some k" "(own(i := o')) j' = Some k"
    have old: "own j = Some k \<Longrightarrow> own j' = Some k \<Longrightarrow> j = j'" for j j' using l unfolding loading_def by blast
    show "j = j'"
      using k own fresh old [of j j'] old [of i j'] old [of j i] by (cases "j = i"; cases "j' = i") auto
  qed
  show "case exports s' of None \<Rightarrow> \<forall>j<length (pool[i := oc]). \<forall>k. pool[i := oc] ! j \<noteq> Done (Inr k)
      | Some k \<Rightarrow> \<exists>j<length (pool[i := oc]). pool[i := oc] ! j = Done (Inr k)"
  proof (cases "\<exists>k. oc = Done (Inr k)")
    case True
    with exp i(1) show ?thesis by (auto intro!: exI [of _ i])
  next
    case False
    with exp have e: "exports s' = exports s" by blast
    show ?thesis
    proof (cases "exports s")
      case None
      with e False l i(1) show ?thesis by (auto simp: loading_def nth_list_update split: if_splits)
    next
      case (Some k)
      with l obtain j where "j < length pool" "pool ! j = Done (Inr k)" by (auto simp: loading_def)
      with Some e i show ?thesis by (auto intro!: exI [of _ j] simp: nth_list_update)
    qed
  qed
qed

lemma loading_segment:
  assumes l: "loading n0 own pool s" and i: "i < length pool" "pool ! i = Await t" and e: "exec t s = (oc, s')"
  shows "\<exists>own'. loading n0 own' (pool[i := oc]) s'"
proof -
  have st: "settled (own i) (Await t)" using l i by (auto simp: loading_def)
  have grown: "created s s1 \<Longrightarrow> length (instances (finished ad k s1)) = Suc (length (instances s)) \<and>
      exports (finished False k s1) = exports s \<and> exports (finished True k s1) = Some k" for s1 ad k
    by (auto simp: created_def finished_def)
  show ?thesis
  proof (cases "own i")
    case None
    with st have m: "makes True t" by (simp add: settled_def)
    show ?thesis
    proof (cases oc)
      case (Done r)
      from makes_done [OF m, of s r s'] e Done consider (failed) x where "r = Inl x" "s' = s"
        | (made) s1 where "created s s1" "r = Inr (length (instances s))" "s' = finished True (length (instances s)) s1" by blast
      then show ?thesis
      proof cases
        case failed
        then show ?thesis using loading_update [OF l i, of s' "own i" oc] Done by (auto simp: settled_def)
      next
        case made
        then show ?thesis
          using loading_update [OF l i, of s' "Some (length (instances s))" oc] Done None grown [OF made(1)]
          by (auto simp: settled_def)
      qed
    next
      case (Await u)
      from makes_await [OF m, of s u s'] e Await consider (waits) "makes True u" "s' = s"
        | (made) "created s s'" "made True (length (instances s)) u" by blast
      then show ?thesis
      proof cases
        case waits
        then show ?thesis using loading_update [OF l i, of s' "own i" oc] Await None by (auto simp: settled_def)
      next
        case made
        then show ?thesis
          using loading_update [OF l i, of s' "Some (length (instances s))" oc] Await None
          by (auto simp: settled_def created_def)
      qed
    qed
  next
    case (Some k)
    with st have m: "made True k t" by (simp add: settled_def)
    show ?thesis
    proof (cases oc)
      case (Done r)
      with made_done [OF m, of s r s'] e show ?thesis
        using loading_update [OF l i, of s' "own i" oc] Some by (auto simp: settled_def finished_def)
    next
      case (Await u)
      with made_await [OF m, of s u s'] e show ?thesis
        using loading_update [OF l i, of s' "own i" oc] Some by (auto simp: settled_def)
    qed
  qed
qed

lemma loading_schedule:
  "loading n0 own pool s \<Longrightarrow> run_schedule sched pool s = (pool', s') \<Longrightarrow>
   length pool' = length pool \<and> (\<exists>own'. loading n0 own' pool' s')"
proof (induction sched arbitrary: own pool s)
  case (Cons i sched)
  show ?case
  proof (cases "i < length pool \<and> (\<exists>t. pool ! i = Await t)")
    case True
    then obtain t where t: "i < length pool" "pool ! i = Await t" by blast
    obtain oc s1 where e: "exec t s = (oc, s1)" by (cases "exec t s")
    from loading_segment [OF Cons.prems(1) t e] obtain own' where "loading n0 own' (pool[i := oc]) s1" by blast
    from Cons.IH [OF this] Cons.prems(2) t e show ?thesis by simp
  next
    case False
    then have "run_schedule sched pool s = (pool', s')"
      using Cons.prems(2) by (cases "pool ! i") (auto split: if_splits)
    with Cons.IH Cons.prems(1) show ?thesis by blast
  qed
qed auto

text \<open>C33: \<^verbatim>\<open>init\<close> is not safe to call again while a first call is in flight: the check of
  \<^verbatim>\<open>exports\<close> comes before the first \<^verbatim>\<open>await\<close>. Let any number of calls start on a
  core that is not loaded; however they are scheduled after that, and over any runtime, every call
  that returns has created an instance of its own, no two the same, and when all is done the loaded
  core is the one of a single call: the others hold memories no operation of the package uses.\<close>

theorem concurrent_init:
  assumes "runtime_steps_ok R" "\<forall>arg\<in>set args. quiet_task (unwrap arg)" "exports s = None"
    and "run_schedule ([0..<length args] @ sched) (map (\<lambda>arg. Await (init R arg)) args) s = (pool, s')"
  shows "(\<forall>i<length args. \<forall>k. pool ! i = Done (Inr k) \<longrightarrow> length (instances s) \<le> k \<and> k < length (instances s')) \<and>
    (\<forall>i<length args. \<forall>j<length args. \<forall>k. pool ! i = Done (Inr k) \<longrightarrow> pool ! j = Done (Inr k) \<longrightarrow> i = j) \<and>
    (case exports s' of None \<Rightarrow> \<forall>i<length args. \<forall>k. pool ! i \<noteq> Done (Inr k)
     | Some k \<Rightarrow> \<exists>i<length args. pool ! i = Done (Inr k) \<and> loaded s' = (Inr k, s'))"
proof -
  have "\<exists>u. i < length args \<longrightarrow> exec (init R (args ! i)) s = (Await u, s) \<and> makes True u" for i
    using init_starts [OF assms(1) _ assms(3)] assms(2) by (metis nth_mem)
  then obtain u where u: "i < length args \<Longrightarrow> exec (init R (args ! i)) s = (Await (u i), s) \<and> makes True (u i)" for i
    by metis
  let ?us = "map u [0..<length args]"
  have run: "run_schedule sched (map Await ?us) s = (pool, s')"
    using start_all [of "map (init R) args" s ?us sched] u assms(4) by (simp add: comp_def)
  have "loading (length (instances s)) (\<lambda>i. None) (map Await ?us) s"
    using u assms(3) by (simp add: loading_def settled_def)
  from loading_schedule [OF this run] obtain own where
    l: "length pool = length args" "loading (length (instances s)) own pool s'" by auto
  have own: "own i = Some k" if "i < length args" "pool ! i = Done (Inr k)" for i k
    using l that by (auto simp: loading_def settled_def dest!: spec [of _ i])
  show ?thesis
  proof (intro conjI allI impI)
    fix i k assume i: "i < length args" "pool ! i = Done (Inr k)"
    from l(2) own [OF i] show "length (instances s) \<le> k" "k < length (instances s')" by (auto simp: loading_def)
    fix j assume j: "j < length args" "pool ! j = Done (Inr k)"
    from l(2) own [OF i] own [OF j] show "i = j" unfolding loading_def by blast
  next
    show "case exports s' of None \<Rightarrow> \<forall>i<length args. \<forall>k. pool ! i \<noteq> Done (Inr k)
     | Some k \<Rightarrow> \<exists>i<length args. pool ! i = Done (Inr k) \<and> loaded s' = (Inr k, s')"
      using l by (auto simp: loading_def loaded_def andThen_apply split: option.splits)
  qed
qed

lemma sample_steps_ok: "runtime_steps_ok sample_runtime"
proof -
  have "makes False (sync fresh_instance)"
    by (rule makes.segment) (auto simp: fresh_instance_def finished_def created_def)
  then show ?thesis by (simp add: runtime_steps_ok_def sample_runtime_def st.quiet_basic)
qed

theorem concurrent_init_witness:
  "\<exists>s' i j k. run_schedule [0, 1, 0, 0, 0, 1, 1, 1] [Await load_sample, Await load_sample] empty_loader =
      ([Done (Inr i), Done (Inr j)], s') \<and> i \<noteq> j \<and> length (instances s') = 2 \<and> loaded s' = (Inr k, s') \<and> k \<in> {i, j}"
proof -
  obtain s' where run: "run_schedule [0, 1, 0, 0, 0, 1, 1, 1] [Await load_sample, Await load_sample] empty_loader =
      ([Done (Inr 0), Done (Inr 1)], s')" and two: "length (instances s') = 2" "exports s' \<noteq> None"
    by (simp add: load_sample_def init_def exec_bindT exec_awaitT andThen_def empty_loader_def loadSource_def Let_def
      sample_runtime_def fresh_instance_def adopt_def)
  define arg where "arg = Plain (sync (ret (ModuleInput ())) :: (unit loader, (unit, unit, unit) input) task)"
  have "\<forall>arg'\<in>set [arg, arg]. quiet_task (unwrap arg')" by (simp add: arg_def st.quiet_basic)
  moreover have "run_schedule ([0..<length [arg, arg]] @ [0, 0, 0, 1, 1, 1]) (map (\<lambda>arg. Await (init sample_runtime arg)) [arg, arg])
      empty_loader = ([Done (Inr 0), Done (Inr 1)], s')"
    using run by (simp add: load_sample_def arg_def upt_rec del: run_schedule.simps)
  ultimately have "case exports s' of None \<Rightarrow> True | Some k \<Rightarrow> k \<in> {0, 1} \<and> loaded s' = (Inr k, s')"
    using concurrent_init [OF sample_steps_ok, of "[arg, arg]" empty_loader "[0, 0, 0, 1, 1, 1]"]
    by (auto simp: empty_loader_def less_Suc_eq split: option.splits)
  with run two show ?thesis by (auto split: option.splits)
qed

end
