(* ===== verification/Web_Api.thy ===== *)
theory Web_Api
  imports Web_Stores Loader
begin

text \<open>
  The operations of \<^verbatim>\<open>sdk/ts/src/wasm-api.ts\<close>: sessions, key generation, safety
  numbers, groups and the helpers. The stores are synchronous, so most of these
  \<^verbatim>\<open>async\<close> functions have no \<^verbatim>\<open>await\<close> and run in one segment;
  \<^verbatim>\<open>decryptMessage\<close> of a first message and the key generators suspend.
\<close>

subsection \<open>Sessions\<close>

definition web_binding :: "wasm_address \<Rightarrow> wasm_address \<Rightarrow> binding" where
  "web_binding sender recipient =
     \<lparr>b_sender = Some (wa_name sender), b_senderDevice = wa_deviceId sender,
      b_recipient = Some (wa_name recipient), b_recipientDevice = wa_deviceId recipient\<rparr>"

definition web_untrusted :: "wasm_address \<Rightarrow> js_error" where
  "web_untrusted address = fault UntrustedIdentity (js ''untrusted identity for '' @ WasmProtocolAddress_toString address)"

definition web_no_session :: "wasm_address \<Rightarrow> js_error" where
  "web_no_session address = fault SessionNotFound (js ''no session for '' @ WasmProtocolAddress_toString address)"

text \<open>\<^verbatim>\<open>if (!identities.isTrusted(address, identity)) throw untrusted(address)\<close>.\<close>

definition require_trusted :: "nat \<Rightarrow> wasm_address \<Rightarrow> bytes \<Rightarrow> ('c web, unit) op" where
  "require_trusted IS address identity =
     andThen (at_identity IS (wi_isTrusted address identity)) (\<lambda>ok. throwIf (\<not> ok) (web_untrusted address))"

definition session_info_now :: "'c platform \<Rightarrow> bytes \<Rightarrow> ('c, session_info) op" where
  "session_info_now P r = andThen (web_nowSecs P) (\<lambda>t. core_sessionInfo (platform_calls P) r t)"

definition web_commit :: "'c platform \<Rightarrow> bytes \<Rightarrow> wasm_address \<Rightarrow> nat \<Rightarrow> nat \<Rightarrow> ('c web, unit) op" where
  "web_commit P r sender SS IS =
     andThen (on_host (session_info_now P r)) (\<lambda>info.
     andThen (require_trusted IS sender (remoteIdentity info)) (\<lambda>_.
     andThen (at_identity IS (wi_save sender (remoteIdentity info))) (\<lambda>_.
     at_sessions SS (ss_store sender r))))"

text \<open>The secret and registration id of the store's owner.\<close>

definition own_secret :: "nat \<Rightarrow> ('c web, bytes) op" where
  "own_secret IS = at_identity IS (gets (\<lambda>s. ws_bytes (wk_private_key (wi_identity s))))"

definition own_registration :: "nat \<Rightarrow> ('c web, int) op" where
  "own_registration IS = at_identity IS (gets wi_registrationId)"

definition processPreKeyBundle ::
    "'c platform \<Rightarrow> wasm_address \<Rightarrow> wasm_address \<Rightarrow> int \<Rightarrow> wasm_public_key \<Rightarrow> int \<Rightarrow> wasm_public_key \<Rightarrow> bytes \<Rightarrow>
      int option \<Rightarrow> bytes option \<Rightarrow> int \<Rightarrow> bytes \<Rightarrow> bytes \<Rightarrow> nat \<Rightarrow> nat \<Rightarrow> ('c web, unit) task" where
  "processPreKeyBundle P recipient local_address registration_id identity_key signed_prekey_id signed_prekey
     signed_prekey_signature prekey_id prekey kyber_prekey_id kyber_prekey kyber_prekey_signature SS IS =
   (let identity = WasmPublicKey_serialize identity_key in sync (
     andThen (require_trusted IS recipient identity) (\<lambda>_.
     andThen (own_secret IS) (\<lambda>secret.
     andThen (own_registration IS) (\<lambda>registrationId.
     andThen (at_sessions SS (ss_load recipient)) (\<lambda>existing.
     andThen (on_host (web_nowSecs P)) (\<lambda>t.
     andThen (on_host (core_sessionStart (platform_calls P) secret registrationId existing
        \<lparr>p_registrationId = registration_id, p_device = wa_deviceId recipient, p_oneTimeId = prekey_id,
         p_oneTime = prekey, p_signedId = signed_prekey_id, p_signedKey = WasmPublicKey_serialize signed_prekey,
         p_signedSignature = signed_prekey_signature, p_identity = identity, p_pqId = kyber_prekey_id,
         p_pqKey = kyber_prekey, p_pqSignature = kyber_prekey_signature\<rparr> t)) (\<lambda>r.
     andThen (at_identity IS (wi_save recipient identity)) (\<lambda>_.
     at_sessions SS (ss_store recipient r))))))))))"

definition encryptMessage ::
    "'c platform \<Rightarrow> bytes \<Rightarrow> wasm_address \<Rightarrow> wasm_address \<Rightarrow> nat \<Rightarrow> nat \<Rightarrow> ('c web, wasm_ciphertext) task" where
  "encryptMessage P plaintext recipient local_address SS IS = sync (
     andThen (at_sessions SS (ss_load recipient)) (\<lambda>existing.
     andThen (throwIf (existing = []) (web_no_session recipient)) (\<lambda>_.
     andThen (on_host (web_nowSecs P)) (\<lambda>t.
     andThen (on_host (core_sessionSeal (platform_calls P) existing plaintext t (web_binding local_address recipient))) (\<lambda>s.
     andThen (on_host (session_info_now P (sl_record s))) (\<lambda>info.
     andThen (require_trusted IS recipient (remoteIdentity info)) (\<lambda>_.
     andThen (at_sessions SS (ss_store recipient (sl_record s))) (\<lambda>_.
     ret (WasmCiphertext_of (sl_kind s) (sl_sealed s))))))))))"

text \<open>\<^verbatim>\<open>const r = await store.export...(id); if (!r) throw fault('invalidKeyId', ...)\<close>.\<close>

definition fetch_key :: "('c web, bytes option) task \<Rightarrow> jsstring \<Rightarrow> int \<Rightarrow> ('c web, bytes) task" where
  "fetch_key t what i =
     bindT (awaitT t) (\<lambda>r. sync (case r of
       None \<Rightarrow> throw (fault InvalidKeyId (js ''no '' @ what @ js '' '' @ decimal i))
     | Some b \<Rightarrow> ret b))"

definition fetch_optional ::
    "(int \<Rightarrow> ('c web, bytes option) task) \<Rightarrow> jsstring \<Rightarrow> int option \<Rightarrow> ('c web, bytes) task" where
  "fetch_optional t what i = (case i of None \<Rightarrow> sync (ret []) | Some j \<Rightarrow> fetch_key (t j) what j)"

text \<open>What follows the commit of a first message.\<close>

definition consume_keys :: "consumed \<Rightarrow> int option \<Rightarrow> nat \<Rightarrow> nat \<Rightarrow> ('c web, unit) task" where
  "consume_keys consumed1 pqId PS KPS =
     (if c_used consumed1
      then bindT (case c_oneTimeId consumed1 of None \<Rightarrow> sync (ret ()) | Some i \<Rightarrow> awaitT (remove_pre_key PS i)) (\<lambda>_.
           case pqId of None \<Rightarrow> sync (ret ()) | Some i \<Rightarrow> sync (at_kyber KPS (ks_markUsed i)))
      else sync (ret ()))"

text \<open>The branch of a first message.\<close>

definition decrypt_first ::
    "'c platform \<Rightarrow> bytes \<Rightarrow> bytes \<Rightarrow> wasm_address \<Rightarrow> binding \<Rightarrow> nat \<Rightarrow> nat \<Rightarrow> nat \<Rightarrow> nat \<Rightarrow> nat \<Rightarrow> ('c web, bytes) task" where
  "decrypt_first P existing ciphertext sender b SS IS PS SPS KPS =
     bindT (sync (on_host (core_openerParse (platform_calls P) ciphertext))) (\<lambda>(info, body).
     bindT (sync (require_trusted IS sender (o_identity info))) (\<lambda>_.
     bindT (fetch_key (export_signed_pre_key SPS (o_signedId info)) (js ''signed prekey'') (o_signedId info)) (\<lambda>signed.
     bindT (fetch_optional (export_pre_key PS) (js ''prekey'') (o_oneTimeId info)) (\<lambda>oneTime.
     bindT (fetch_optional (export_kyber_pre_key KPS) (js ''kyber prekey'') (o_pqId info)) (\<lambda>pq.
     bindT (sync (own_secret IS)) (\<lambda>secret.
     bindT (sync (own_registration IS)) (\<lambda>registrationId.
     bindT (sync (on_host (core_sessionOpenFirst (platform_calls P) secret registrationId existing ciphertext
              signed oneTime pq b))) (\<lambda>opened.
     bindT (sync (web_commit P (op_record opened) sender SS IS)) (\<lambda>_.
     bindT (consume_keys (op_consumed opened) (o_pqId info) PS KPS) (\<lambda>_.
     sync (ret (op_plain opened))))))))))))"

definition decrypt_whisper ::
    "'c platform \<Rightarrow> bytes \<Rightarrow> bytes \<Rightarrow> wasm_address \<Rightarrow> binding \<Rightarrow> nat \<Rightarrow> nat \<Rightarrow> ('c web, bytes) op" where
  "decrypt_whisper P existing ciphertext sender b SS IS =
     andThen (throwIf (existing = []) (web_no_session sender)) (\<lambda>_.
     andThen (on_host (core_sessionOpen (platform_calls P) existing ciphertext b)) (\<lambda>(plain, r).
     andThen (web_commit P r sender SS IS) (\<lambda>_.
     ret plain)))"

definition decryptMessage ::
    "'c platform \<Rightarrow> bytes \<Rightarrow> int \<Rightarrow> wasm_address \<Rightarrow> wasm_address \<Rightarrow> nat \<Rightarrow> nat \<Rightarrow> nat \<Rightarrow> nat \<Rightarrow> nat \<Rightarrow> ('c web, bytes) task" where
  "decryptMessage P ciphertext message_type sender local_address SS IS PS SPS KPS =
     bindT (sync (at_sessions SS (ss_load sender))) (\<lambda>existing.
     if message_type = MessageType PreKey
     then decrypt_first P existing ciphertext sender (web_binding sender local_address) SS IS PS SPS KPS
     else if message_type = MessageType Whisper
     then sync (decrypt_whisper P existing ciphertext sender (web_binding sender local_address) SS IS)
     else sync (throw (fault InvalidMessage (js ''unknown message type '' @ decimal message_type))))"

subsection \<open>Key generation\<close>

text \<open>The body of the loop of \<^verbatim>\<open>generatePreKeys\<close>, and the loop from index
  \<^verbatim>\<open>i\<close> with the number of rounds left.\<close>

definition one_pre_key :: "'c platform \<Rightarrow> int \<Rightarrow> nat \<Rightarrow> ('c web, published_key) task" where
  "one_pre_key P pid PS =
     bindT (sync (on_host (andThen (core_curvePair (platform_calls P)) (\<lambda>(secret, publicKey).
                           core_oneTimeRecord (platform_calls P) pid secret)))) (\<lambda>r.
     bindT (awaitT (import_pre_key P PS pid r)) (\<lambda>_.
     sync (on_host (WasmPreKey_fromRecord (platform_calls P) r))))"

fun pre_keys_loop :: "'c platform \<Rightarrow> int \<Rightarrow> nat \<Rightarrow> nat \<Rightarrow> nat \<Rightarrow> ('c web, published_key list) task" where
  "pre_keys_loop P start_id i 0 PS = sync (ret [])"
| "pre_keys_loop P start_id i (Suc n) PS =
     bindT (one_pre_key P (to_uint32 (start_id + int i)) PS) (\<lambda>k.
     bindT (pre_keys_loop P start_id (Suc i) n PS) (\<lambda>ks.
     sync (ret (k # ks))))"

definition generatePreKeys :: "'c platform \<Rightarrow> int \<Rightarrow> int \<Rightarrow> nat \<Rightarrow> ('c web, published_key list) task" where
  "generatePreKeys P start_id count1 PS = pre_keys_loop P start_id 0 (nat count1) PS"

definition generateSignedPreKey ::
    "'c platform \<Rightarrow> int \<Rightarrow> wasm_identity_key_pair \<Rightarrow> nat \<Rightarrow> ('c web, signed_published_key) task" where
  "generateSignedPreKey P key_id p SPS =
     bindT (sync (on_host (core_curvePair (platform_calls P)))) (\<lambda>(secret, publicKey).
     bindT (sync (on_host (core_curveSign (platform_calls P) (ws_bytes (wk_private_key p)) publicKey))) (\<lambda>signature.
     bindT (sync (on_host (date_now P))) (\<lambda>now.
     bindT (sync (on_host (core_signedRecord (platform_calls P) (to_uint32 key_id) now secret signature))) (\<lambda>r.
     bindT (awaitT (import_signed_pre_key P SPS key_id r)) (\<lambda>_.
     sync (on_host (WasmSignedPreKey_fromRecord (platform_calls P) r)))))))"

definition generateKyberPreKey ::
    "'c platform \<Rightarrow> int \<Rightarrow> wasm_identity_key_pair \<Rightarrow> nat \<Rightarrow> ('c web, signed_published_key) task" where
  "generateKyberPreKey P key_id p KPS =
     bindT (sync (on_host (core_pqPair (platform_calls P) PQ_ROUND_THREE))) (\<lambda>(publicKey, secret).
     bindT (sync (on_host (core_curveSign (platform_calls P) (ws_bytes (wk_private_key p)) publicKey))) (\<lambda>signature.
     bindT (sync (on_host (date_now P))) (\<lambda>now.
     bindT (sync (on_host (core_pqRecord (platform_calls P) (to_uint32 key_id) now publicKey secret signature))) (\<lambda>r.
     bindT (awaitT (import_kyber_pre_key P KPS key_id r)) (\<lambda>_.
     sync (on_host (WasmKyberPreKey_fromRecord (platform_calls P) r)))))))"

subsection \<open>Safety numbers\<close>

definition SAFETY_NUMBER_VERSION :: int where "SAFETY_NUMBER_VERSION = 2"
definition SAFETY_NUMBER_ITERATIONS :: int where "SAFETY_NUMBER_ITERATIONS = 5200"

definition generateSafetyNumber ::
    "'s core_calls \<Rightarrow> jsstring \<Rightarrow> wasm_public_key \<Rightarrow> jsstring \<Rightarrow> wasm_public_key \<Rightarrow> ('s, wasm_safety_number) op" where
  "generateSafetyNumber K local_uuid local_identity_key contact_uuid contact_identity_key =
     andThen (core_safety K SAFETY_NUMBER_VERSION SAFETY_NUMBER_ITERATIONS (utf8_encode local_uuid)
                (wp_bytes local_identity_key) (utf8_encode contact_uuid) (wp_bytes contact_identity_key))
       (\<lambda>(display, scannable). ret (WasmSafetyNumber_of display scannable))"

definition verifySafetyNumber ::
    "'s core_calls \<Rightarrow> bytes \<Rightarrow> jsstring \<Rightarrow> wasm_public_key \<Rightarrow> jsstring \<Rightarrow> wasm_public_key \<Rightarrow> ('s, bool) op" where
  "verifySafetyNumber K scanned local_uuid local_identity_key contact_uuid contact_identity_key =
     andThen (generateSafetyNumber K local_uuid local_identity_key contact_uuid contact_identity_key) (\<lambda>ours.
     core_safetyMatches K (wn_scannable ours) scanned)"

subsection \<open>Groups\<close>

definition web_no_sender_key :: "wasm_address \<Rightarrow> jsstring \<Rightarrow> js_error" where
  "web_no_sender_key address d =
     fault SessionNotFound (js ''no sender key for '' @ WasmProtocolAddress_toString address @ js '' in '' @ d)"

definition createSenderKeyDistribution ::
    "'c platform \<Rightarrow> wasm_address \<Rightarrow> jsstring \<Rightarrow> nat \<Rightarrow> ('c web, bytes) task" where
  "createSenderKeyDistribution P local_address d KS = sync (
     andThen (at_senders KS (sks_load (lower_case P) local_address d)) (\<lambda>existing.
     andThen (pureOp (uuidToBytes d)) (\<lambda>circleId.
     andThen (on_host (core_circleAnnounce (platform_calls P) existing circleId)) (\<lambda>(r, announce).
     andThen (at_senders KS (sks_store (lower_case P) local_address d r)) (\<lambda>_.
     ret announce)))))"

definition processSenderKeyDistribution ::
    "'c platform \<Rightarrow> wasm_address \<Rightarrow> bytes \<Rightarrow> nat \<Rightarrow> ('c web, unit) task" where
  "processSenderKeyDistribution P sender_address distribution_message KS = sync (
     andThen (on_host (core_announceParse (platform_calls P) distribution_message)) (\<lambda>info.
     andThen (pureOp (bytesToUuid (an_circleId info))) (\<lambda>d.
     andThen (at_senders KS (sks_load (lower_case P) sender_address d)) (\<lambda>existing.
     andThen (on_host (core_circleAdmit (platform_calls P) existing distribution_message)) (\<lambda>r.
     at_senders KS (sks_store (lower_case P) sender_address d r))))))"

definition encryptGroupMessage ::
    "'c platform \<Rightarrow> wasm_address \<Rightarrow> jsstring \<Rightarrow> bytes \<Rightarrow> nat \<Rightarrow> ('c web, bytes) task" where
  "encryptGroupMessage P local_address d plaintext KS = sync (
     andThen (at_senders KS (sks_load (lower_case P) local_address d)) (\<lambda>existing.
     andThen (throwIf (existing = []) (web_no_sender_key local_address d)) (\<lambda>_.
     andThen (pureOp (uuidToBytes d)) (\<lambda>circleId.
     andThen (on_host (core_circleSeal (platform_calls P) existing circleId plaintext)) (\<lambda>(note1, r).
     andThen (at_senders KS (sks_store (lower_case P) local_address d r)) (\<lambda>_.
     ret note1))))))"

definition decryptGroupMessage :: "'c platform \<Rightarrow> wasm_address \<Rightarrow> bytes \<Rightarrow> nat \<Rightarrow> ('c web, bytes) task" where
  "decryptGroupMessage P sender_address ciphertext KS = sync (
     andThen (on_host (core_noteParse (platform_calls P) ciphertext)) (\<lambda>(info, body).
     andThen (pureOp (bytesToUuid (no_circleId info))) (\<lambda>d.
     andThen (at_senders KS (sks_load (lower_case P) sender_address d)) (\<lambda>existing.
     andThen (throwIf (existing = []) (web_no_sender_key sender_address d)) (\<lambda>_.
     andThen (on_host (core_circleOpen (platform_calls P) existing ciphertext)) (\<lambda>(plain, r).
     andThen (at_senders KS (sks_store (lower_case P) sender_address d r)) (\<lambda>_.
     ret plain)))))))"

subsection \<open>Helpers\<close>

definition generate_attachment_key :: "'s core_calls \<Rightarrow> ('s, bytes) op" where
  "generate_attachment_key K = core_random K 64"

definition generate_random_bytes :: "'s core_calls \<Rightarrow> int \<Rightarrow> ('s, bytes) op" where
  "generate_random_bytes K length1 = core_random K (to_uint32 length1)"

text \<open>The version and variant bits; an index past the end of a typed array is ignored.\<close>

definition stamp_uuid :: "bytes \<Rightarrow> bytes" where
  "stamp_uuid b = (let b' = b[6 := or (and (b ! 6) 15) 64] in b'[8 := or (and (b' ! 8) 63) 128])"

definition generate_uuid :: "'s core_calls \<Rightarrow> ('s, bytes) op" where
  "generate_uuid K = andThen (core_random K 16) (\<lambda>b. ret (stamp_uuid b))"

definition uuid_from_string :: "jsstring \<Rightarrow> js_error + bytes" where
  "uuid_from_string s = uuidToBytes s"

definition uuid_to_string :: "bytes \<Rightarrow> js_error + jsstring" where
  "uuid_to_string b = bytesToUuid b"

definition web_init :: "('w loader, unit) op" where
  "web_init = andThen (gets isReady) (\<lambda>ready. throwIf (\<not> ready)
     (fault InvalidState (js ''the core is not loaded: await the default export first'')))"

definition message_type_pre_key :: int where "message_type_pre_key = MessageType PreKey"
definition message_type_sender_key :: int where "message_type_sender_key = MessageType SenderKey"
definition message_type_whisper :: int where "message_type_whisper = MessageType Whisper"

end
