(* ===== verification/Web_Facts.thy ===== *)
theory Web_Facts
  imports Web_Api Frames
begin

text \<open>
  The effects of the session operations of the web client on the whole heap of stores: a call that
  throws changes nothing but the platform, and one that returns changes exactly the entries named
  here, of the stores it was given. The last section is on a first message in flight: what its segments may
  do whatever other calls do between them.
\<close>

subsection \<open>Views and updates of the heap\<close>

definition web_session :: "'c web \<Rightarrow> nat \<Rightarrow> wasm_address \<Rightarrow> bytes option" where
  "web_session w SS a = map_get (session_stores w SS) (WasmProtocolAddress_toString a)"

definition web_known :: "'c web \<Rightarrow> nat \<Rightarrow> wasm_address \<Rightarrow> bytes option" where
  "web_known w IS a = map_get (wi_known (identity_stores w IS)) (WasmProtocolAddress_toString a)"

definition trusts :: "'c web \<Rightarrow> nat \<Rightarrow> wasm_address \<Rightarrow> bytes \<Rightarrow> bool" where
  "trusts w IS a k \<longleftrightarrow> (case web_known w IS a of None \<Rightarrow> True | Some known \<Rightarrow> known = k)"

definition with_session :: "nat \<Rightarrow> wasm_address \<Rightarrow> bytes \<Rightarrow> 'c web \<Rightarrow> 'c web" where
  "with_session SS a r w = w\<lparr>session_stores := (session_stores w)
     (SS := map_set (WasmProtocolAddress_toString a) r (session_stores w SS))\<rparr>"

definition with_known :: "nat \<Rightarrow> wasm_address \<Rightarrow> bytes \<Rightarrow> 'c web \<Rightarrow> 'c web" where
  "with_known IS a k w = w\<lparr>identity_stores := (identity_stores w)(IS := (identity_stores w IS)
     \<lparr>wi_known := map_set (WasmProtocolAddress_toString a) k (wi_known (identity_stores w IS))\<rparr>)\<rparr>"

definition without_pre_key :: "nat \<Rightarrow> int \<Rightarrow> 'c web \<Rightarrow> 'c web" where
  "without_pre_key PS i w = w\<lparr>pre_key_stores := (pre_key_stores w)
     (PS := map_delete (to_uint32 i) (pre_key_stores w PS))\<rparr>"

definition with_kyber_used :: "nat \<Rightarrow> int \<Rightarrow> 'c web \<Rightarrow> 'c web" where
  "with_kyber_used KPS i w = w\<lparr>kyber_stores := (kyber_stores w)(KPS := (kyber_stores w KPS)
     \<lparr>ks_used := set_add (to_uint32 i) (ks_used (kyber_stores w KPS))\<rparr>)\<rparr>"

lemma web_views:
  "web_session (with_session SS a r w) SS' a' =
     (if SS' = SS \<and> WasmProtocolAddress_toString a' = WasmProtocolAddress_toString a then Some r else web_session w SS' a')"
  "web_session (with_known IS a k w) SS' a' = web_session w SS' a'"
  "web_known (with_known IS a k w) IS' a' =
     (if IS' = IS \<and> WasmProtocolAddress_toString a' = WasmProtocolAddress_toString a then Some k else web_known w IS' a')"
  "web_known (with_session SS a r w) IS' a' = web_known w IS' a'"
  "web_session (w\<lparr>host := c\<rparr>) SS' a' = web_session w SS' a'" "web_known (w\<lparr>host := c\<rparr>) IS' a' = web_known w IS' a'"
  "web_known (without_pre_key PS i w) IS' a' = web_known w IS' a'" "web_known (with_kyber_used KPS i w) IS' a' = web_known w IS' a'"
  by (auto simp: web_session_def web_known_def with_session_def with_known_def without_pre_key_def with_kyber_used_def)

lemma web_fields:
  "pre_key_stores (with_session SS a r w) = pre_key_stores w" "pre_key_stores (with_known IS a k w) = pre_key_stores w"
  "signed_stores (with_session SS a r w) = signed_stores w" "signed_stores (with_known IS a k w) = signed_stores w"
  "kyber_stores (with_session SS a r w) = kyber_stores w" "kyber_stores (with_known IS a k w) = kyber_stores w"
  "signed_stores (without_pre_key PS i w) = signed_stores w" "kyber_stores (without_pre_key PS i w) = kyber_stores w"
  "pre_key_stores (without_pre_key PS i w) = (pre_key_stores w)(PS := map_delete (to_uint32 i) (pre_key_stores w PS))"
  "pre_key_stores (with_kyber_used KPS i w) = pre_key_stores w" "signed_stores (with_kyber_used KPS i w) = signed_stores w"
  "ks_records (kyber_stores (with_kyber_used KPS i w) q) = ks_records (kyber_stores w q)"
  "web_session (without_pre_key PS i w) = web_session w" "web_session (with_kyber_used KPS i w) = web_session w"
  by (simp_all add: fun_eq_iff with_session_def with_known_def without_pre_key_def with_kyber_used_def web_session_def)

lemma trusts_host [simp]: "trusts (w\<lparr>host := c\<rparr>) = trusts w"
  by (simp add: fun_eq_iff trusts_def web_views)

subsection \<open>Single operations\<close>

lemma on_host_run [op_simps]: "on_host m w = (fst (m (host w)), w\<lparr>host := snd (m (host w))\<rparr>)"
  by (simp add: on_host_def zoom_apply)

lemma on_host_eq: "on_host m w = (r, w') \<longleftrightarrow> (\<exists>c. m (host w) = (r, c) \<and> w' = w\<lparr>host := c\<rparr>)"
  by (cases "m (host w)") (auto simp: on_host_run)

lemma at_gets [simp]:
  "at_identity r (gets f) w = (Inr (f (identity_stores w r)), w)"
  "at_pre_keys r (gets g) w = (Inr (g (pre_key_stores w r)), w)"
  "at_signed r (gets g) w = (Inr (g (signed_stores w r)), w)"
  "at_kyber r (gets h) w = (Inr (h (kyber_stores w r)), w)"
  "at_sessions r (gets s) w = (Inr (s (session_stores w r)), w)"
  "at_senders r (gets s) w = (Inr (s (sender_stores w r)), w)"
  by (simp_all add: at_identity_def at_pre_keys_def at_signed_def at_kyber_def at_sessions_def at_senders_def zoom_apply)

lemma store_reads:
  "at_sessions SS (ss_load a) w = (Inr (or_empty (web_session w SS a)), w)"
  "at_sessions SS (ss_export a) w = (Inr (web_session w SS a), w)"
  "own_secret IS w = (Inr (ws_bytes (wk_private_key (wi_identity (identity_stores w IS)))), w)"
  "own_registration IS w = (Inr (wi_registrationId (identity_stores w IS)), w)"
  "at_pre_keys PS (RecordStore_get i) w = (Inr (map_get (pre_key_stores w PS) (to_uint32 i)), w)"
  "at_signed SPS (RecordStore_get i) w = (Inr (map_get (signed_stores w SPS) (to_uint32 i)), w)"
  "at_kyber KPS (ks_lift (RecordStore_get i)) w = (Inr (map_get (ks_records (kyber_stores w KPS)) (to_uint32 i)), w)"
  by (simp_all add: ss_load_def ss_export_def own_secret_def own_registration_def RecordStore_get_def web_session_def)
    (simp add: at_kyber_def ks_lift_def zoom_apply)

lemma require_trusted_run:
  "require_trusted IS a k w = (if trusts w IS a k then Inr () else Inl (web_untrusted a), w)"
  by (auto simp: require_trusted_def wi_isTrusted_def andThen_apply trusts_def web_known_def bytesEqual_iff
      split: option.splits)

lemma store_writes:
  "at_sessions SS (ss_store a r) w = (Inr (), with_session SS a r w)"
  "at_identity IS (wi_pin a k) w = (Inr (), with_known IS a k w)"
  "at_pre_keys PS (RecordStore_drop i) w = (Inr (), without_pre_key PS i w)"
  "at_kyber KPS (ks_markUsed i) w = (Inr (), with_kyber_used KPS i w)"
  by (simp_all add: at_sessions_def at_identity_def at_pre_keys_def at_kyber_def ss_store_def wi_pin_def
      RecordStore_drop_def ks_markUsed_def zoom_apply with_session_def with_known_def without_pre_key_def with_kyber_used_def)

lemma wi_save_eq:
  "at_identity IS (wi_save a k) w =
     (Inr (case web_known w IS a of None \<Rightarrow> False | Some known \<Rightarrow> known \<noteq> k), with_known IS a k w)"
  by (auto simp: at_identity_def wi_save_def wi_pin_def zoom_apply andThen_apply with_known_def web_known_def
      bytesEqual_iff split: option.splits)

lemma wi_save_run: "\<exists>b. at_identity IS (wi_save a k) w = (Inr b, with_known IS a k w)"
  by (simp add: wi_save_eq)

lemma wi_save_state: "at_identity IS (wi_save a k) w = (r, w') \<Longrightarrow> w' = with_known IS a k w"
  using wi_save_run [of IS a k w] by auto

text \<open>A trusted identity that is saved again leaves every pinned identity as it was.\<close>

lemma trusted_save_pins:
  "trusts w IS a k \<Longrightarrow> web_known w IS' a' = Some known \<Longrightarrow> web_known (with_known IS a k w) IS' a' = Some known"
  unfolding web_views by (auto simp: trusts_def web_known_def)

subsection \<open>Calls that throw\<close>

definition platform_only :: "'c web \<Rightarrow> 'c web \<Rightarrow> bool" where
  "platform_only w w' \<longleftrightarrow> (\<exists>c. w' = w\<lparr>host := c\<rparr>)"

interpretation pf: frame platform_only
proof
  show "platform_only w w" for w :: "'c web"
    unfolding platform_only_def by (intro exI [of _ "host w"]) simp
qed (auto simp: platform_only_def)

lemma pf_ops:
  "pf.quiet (on_host m)" "pf.quiet (require_trusted IS a k)" "pf.quiet (at_sessions SS (ss_load a))"
  "pf.quiet (at_sessions SS (ss_export a))" "pf.quiet (own_secret IS)" "pf.quiet (own_registration IS)"
  "pf.quiet (at_pre_keys PS (RecordStore_get i))" "pf.quiet (at_signed SPS (RecordStore_get i))"
  "pf.quiet (at_kyber KPS (ks_lift (RecordStore_get i)))"
  by (auto simp: pf.quiet_def on_host_run store_reads require_trusted_run pf.frame_refl) (auto simp: platform_only_def)

lemma never_throws:
  "pf.clean (at_sessions SS (ss_store a r))"
  "pf.clean (andThen (at_identity IS (wi_save a k)) (\<lambda>_. at_sessions SS (ss_store a r)))"
proof -
  show "pf.clean (at_sessions SS (ss_store a r))" by (rule pf.clean_total) (simp add: store_writes)
  show "pf.clean (andThen (at_identity IS (wi_save a k)) (\<lambda>_. at_sessions SS (ss_store a r)))"
  proof (rule pf.clean_total)
    show "\<exists>y w'. andThen (at_identity IS (wi_save a k)) (\<lambda>_. at_sessions SS (ss_store a r)) w = (Inr y, w')" for w
      using wi_save_run [of IS a k w] by (auto simp: store_writes andThen_apply)
  qed
qed

lemma commit_clean: "pf.clean (web_commit P r a SS IS)"
  unfolding web_commit_def by (rule pf.clean_andThen pf_ops never_throws)+

text \<open>What \<^verbatim>\<open>commit\<close> does when it returns.\<close>

lemma commit_done:
  assumes "web_commit P r a SS IS w = (Inr u, w')"
  shows "\<exists>info c. session_info_now P r (host w) = (Inr info, c) \<and> trusts w IS a (remoteIdentity info) \<and>
    w' = with_session SS a r (with_known IS a (remoteIdentity info) (w\<lparr>host := c\<rparr>))"
proof -
  from assms obtain info w1 where 1: "on_host (session_info_now P r) w = (Inr info, w1)"
    "andThen (require_trusted IS a (remoteIdentity info)) (\<lambda>_.
       andThen (at_identity IS (wi_save a (remoteIdentity info))) (\<lambda>_. at_sessions SS (ss_store a r))) w1 = (Inr u, w')"
    unfolding web_commit_def by (rule andThen_InrE)
  obtain b where "at_identity IS (wi_save a (remoteIdentity info)) w1 = (Inr b, with_known IS a (remoteIdentity info) w1)"
    using wi_save_run by blast
  with 1 show ?thesis
    by (auto simp: on_host_eq require_trusted_run andThen_apply store_writes split: if_splits)
qed

subsection \<open>encryptMessage\<close>

lemma encrypt_clean: "pf.clean (runT (encryptMessage P m a local SS IS))"
  unfolding encryptMessage_def runT_sync
  by (rule pf.clean_andThen pf_ops pf.quiet_basic pf.clean_then_total [OF never_throws(1)] | simp)+

text \<open>What sealing a message with the record \<open>b\<close> gives, at some time and state of the core.\<close>

definition message_sealed ::
    "'c platform \<Rightarrow> wasm_address \<Rightarrow> bytes \<Rightarrow> wasm_address \<Rightarrow> bytes \<Rightarrow> sealed_parts \<Rightarrow> bool" where
  "message_sealed P a m local b s \<longleftrightarrow>
     (\<exists>t c c'. core_sessionSeal (platform_calls P) b m t (web_binding local a) c = (Inr s, c'))"

lemma encrypt_run:
  "case runT (encryptMessage P m a local SS IS) w of
      (Inl e, w') \<Rightarrow> (\<exists>c. w' = w\<lparr>host := c\<rparr>) \<and> (web_session w SS a = None \<longrightarrow> e = web_no_session a)
    | (Inr ct, w') \<Rightarrow> (\<exists>existing t c0 s c1 info c2. web_session w SS a = Some existing \<and> existing \<noteq> [] \<and>
        web_nowSecs P (host w) = (Inr t, c0) \<and>
        core_sessionSeal (platform_calls P) existing m t (web_binding local a) c0 = (Inr s, c1) \<and>
        session_info_now P (sl_record s) c1 = (Inr info, c2) \<and> trusts w IS a (remoteIdentity info) \<and>
        ct = WasmCiphertext (sl_kind s) (sl_sealed s) \<and>
        w' = with_session SS a (sl_record s) (w\<lparr>host := c2\<rparr>))"
proof -
  obtain r w' where run: "runT (encryptMessage P m a local SS IS) w = (r, w')"
    by (cases "runT (encryptMessage P m a local SS IS) w")
  show ?thesis
  proof (cases r)
    case (Inl e)
    have "e = web_no_session a" if "web_session w SS a = None"
      using run that Inl by (simp add: encryptMessage_def runT_sync andThen_apply store_reads or_empty_def)
    moreover have "platform_only w w'" using pf.cleanD [OF encrypt_clean] run Inl by blast
    ultimately show ?thesis using run Inl by (simp add: platform_only_def)
  next
    case (Inr ct)
    from run Inr show ?thesis
      unfolding encryptMessage_def runT_sync
      by (auto elim!: andThen_InrE simp: on_host_eq store_reads require_trusted_run store_writes or_empty_def
          WasmCiphertext_of_def split: if_splits option.splits)
  qed
qed

text \<open>C11: \<^verbatim>\<open>encryptMessage\<close> never suspends. When it throws (no session, a refused
  record, an identity that is not the pinned one) no store changes. When it returns, it has sealed
  the stored record of the recipient at the present time, checked the identity in the new record
  against the pinned one, and stored the new record for the recipient, and nothing else in any store
  of the client has changed.\<close>

theorem encryptMessage_effect:
  "atomic (encryptMessage P m a local SS IS) \<and>
   (case runT (encryptMessage P m a local SS IS) w of
      (Inl e, w') \<Rightarrow> (\<exists>c. w' = w\<lparr>host := c\<rparr>) \<and> (web_session w SS a = None \<longrightarrow> e = web_no_session a)
    | (Inr ct, w') \<Rightarrow> (\<exists>existing t c0 s c1 info c2. web_session w SS a = Some existing \<and> existing \<noteq> [] \<and>
        web_nowSecs P (host w) = (Inr t, c0) \<and>
        core_sessionSeal (platform_calls P) existing m t (web_binding local a) c0 = (Inr s, c1) \<and>
        session_info_now P (sl_record s) c1 = (Inr info, c2) \<and> trusts w IS a (remoteIdentity info) \<and>
        ct = WasmCiphertext (sl_kind s) (sl_sealed s) \<and>
        w' = with_session SS a (sl_record s) (w\<lparr>host := c2\<rparr>)))"
proof
  show "atomic (encryptMessage P m a local SS IS)" by (simp add: encryptMessage_def)
qed (rule encrypt_run)

subsection \<open>decryptMessage\<close>

text \<open>A key a message may name: none, or the record under its id.\<close>

definition key_fetched :: "int option \<Rightarrow> record_store \<Rightarrow> bytes \<Rightarrow> bool" where
  "key_fetched i m b \<longleftrightarrow> (case i of None \<Rightarrow> b = [] | Some j \<Rightarrow> map_get m (to_uint32 j) = Some b)"

text \<open>What a first message consumes: the one-time key the core names and the mark of the kyber key
  the message names, both only when the core has used them.\<close>

definition consume :: "consumed \<Rightarrow> int option \<Rightarrow> nat \<Rightarrow> nat \<Rightarrow> 'c web \<Rightarrow> 'c web" where
  "consume c pqId PS KPS w =
     (if c_used c
      then (case pqId of None \<Rightarrow> id | Some i \<Rightarrow> with_kyber_used KPS i)
             ((case c_oneTimeId c of None \<Rightarrow> id | Some i \<Rightarrow> without_pre_key PS i) w)
      else w)"

lemma consume_keys_run:
  "runT (consume_keys c pqId PS KPS) w = (Inr (), consume c pqId PS KPS w)"
  by (auto simp: consume_def consume_keys_def task_simps remove_pre_key_def andThen_apply store_writes split: option.split)

lemma fetch_run:
  "runT (fetch_key t what i) =
     andThen (runT t) (\<lambda>r. case r of None \<Rightarrow> throw (fault InvalidKeyId (js ''no '' @ what @ js '' '' @ decimal i)) | Some b \<Rightarrow> ret b)"
  by (simp add: fetch_key_def task_simps)

lemma fetch_signed_eq:
  "runT (fetch_key (export_signed_pre_key SPS i) what i) w = (Inr b, w') \<longleftrightarrow>
     map_get (signed_stores w SPS) (to_uint32 i) = Some b \<and> w' = w"
  by (auto simp: fetch_run export_signed_pre_key_def task_simps andThen_apply store_reads split: option.split)

lemma fetch_one_time_eq:
  "runT (fetch_optional (export_pre_key PS) what i) w = (Inr b, w') \<longleftrightarrow>
     key_fetched i (pre_key_stores w PS) b \<and> w' = w"
  by (auto simp: fetch_optional_def fetch_run export_pre_key_def task_simps andThen_apply store_reads key_fetched_def split: option.splits)

lemma fetch_kyber_eq:
  "runT (fetch_optional (export_kyber_pre_key KPS) what i) w = (Inr b, w') \<longleftrightarrow>
     key_fetched i (ks_records (kyber_stores w KPS)) b \<and> w' = w"
  by (auto simp: fetch_optional_def fetch_run export_kyber_pre_key_def task_simps andThen_apply store_reads key_fetched_def split: option.splits)

lemma fetch_quiet:
  "pf.quiet (runT (fetch_key (export_signed_pre_key SPS i) what i))"
  "pf.quiet (runT (fetch_optional (export_pre_key PS) what o1))"
  "pf.quiet (runT (fetch_optional (export_kyber_pre_key KPS) what o2))"
  unfolding fetch_optional_def runT_case fetch_run export_signed_pre_key_def export_pre_key_def export_kyber_pre_key_def task_simps
  by (rule pf.quiet_intros pf_ops)+

text \<open>The state after a first message is opened.\<close>

definition first_opened ::
    "'c platform \<Rightarrow> 'c web \<Rightarrow> bytes \<Rightarrow> wasm_address \<Rightarrow> wasm_address \<Rightarrow> nat \<Rightarrow> nat \<Rightarrow> nat \<Rightarrow> nat \<Rightarrow> nat \<Rightarrow> bytes \<Rightarrow> 'c web \<Rightarrow> bool" where
  "first_opened P w ciphertext a local SS IS PS SPS KPS plain w' \<longleftrightarrow>
     (\<exists>info body c0 sgd oneTime pq opened c1 si c2.
        core_openerParse (platform_calls P) ciphertext (host w) = (Inr (info, body), c0) \<and>
        trusts w IS a (o_identity info) \<and>
        map_get (signed_stores w SPS) (to_uint32 (o_signedId info)) = Some sgd \<and>
        key_fetched (o_oneTimeId info) (pre_key_stores w PS) oneTime \<and>
        key_fetched (o_pqId info) (ks_records (kyber_stores w KPS)) pq \<and>
        core_sessionOpenFirst (platform_calls P) (ws_bytes (wk_private_key (wi_identity (identity_stores w IS))))
          (wi_registrationId (identity_stores w IS)) (or_empty (web_session w SS a)) ciphertext sgd oneTime pq
          (web_binding a local) c0 = (Inr opened, c1) \<and>
        session_info_now P (op_record opened) c1 = (Inr si, c2) \<and> trusts w IS a (remoteIdentity si) \<and>
        plain = op_plain opened \<and>
        w' = consume (op_consumed opened) (o_pqId info) PS KPS
          (with_session SS a (op_record opened) (with_known IS a (remoteIdentity si) (w\<lparr>host := c2\<rparr>))))"

text \<open>The state after a later message is opened.\<close>

definition whisper_opened ::
    "'c platform \<Rightarrow> 'c web \<Rightarrow> bytes \<Rightarrow> wasm_address \<Rightarrow> wasm_address \<Rightarrow> nat \<Rightarrow> nat \<Rightarrow> bytes \<Rightarrow> 'c web \<Rightarrow> bool" where
  "whisper_opened P w ciphertext a local SS IS plain w' \<longleftrightarrow>
     (\<exists>existing r c1 si c2. web_session w SS a = Some existing \<and> existing \<noteq> [] \<and>
        core_sessionOpen (platform_calls P) existing ciphertext (web_binding a local) (host w) = (Inr (plain, r), c1) \<and>
        session_info_now P r c1 = (Inr si, c2) \<and> trusts w IS a (remoteIdentity si) \<and>
        w' = with_session SS a r (with_known IS a (remoteIdentity si) (w\<lparr>host := c2\<rparr>)))"

lemma decrypt_first_clean: "pf.clean (runT (decrypt_first P existing ciphertext a b SS IS PS SPS KPS))"
  unfolding decrypt_first_def runT_bindT runT_sync runT_case
  by (rule pf.clean_andThen pf_ops pf.quiet_basic fetch_quiet pf.clean_split pf.clean_then_total [OF commit_clean])+
    (auto simp: andThen_apply consume_keys_run)

lemma decrypt_first_done:
  "runT (decrypt_first P (or_empty (web_session w SS a)) ciphertext a (web_binding a local) SS IS PS SPS KPS) w = (Inr plain, w') \<Longrightarrow>
   first_opened P w ciphertext a local SS IS PS SPS KPS plain w'"
  unfolding decrypt_first_def first_opened_def task_simps
  by (auto elim!: andThen_InrE dest!: commit_done simp: on_host_eq store_reads require_trusted_run
      fetch_signed_eq fetch_one_time_eq fetch_kyber_eq consume_keys_run split: if_splits)
    (rule exI conjI | assumption | rule refl)+

lemma decrypt_whisper_clean: "pf.clean (decrypt_whisper P existing ciphertext a b SS IS)"
  unfolding decrypt_whisper_def
  by (rule pf.clean_andThen pf_ops pf.quiet_basic pf.clean_split pf.clean_then_total [OF commit_clean] | simp)+

lemma decrypt_whisper_done:
  "decrypt_whisper P (or_empty (web_session w SS a)) ciphertext a (web_binding a local) SS IS w = (Inr plain, w') \<Longrightarrow>
   whisper_opened P w ciphertext a local SS IS plain w'"
  unfolding decrypt_whisper_def whisper_opened_def
  by (auto elim!: andThen_InrE dest!: commit_done simp: on_host_eq or_empty_def split: if_splits option.splits)

text \<open>C10: \<^verbatim>\<open>decryptMessage\<close>, run on its own, opens all or nothing. When it throws
  (an unknown type, an untrusted identity, a missing key, a message the core refuses) no store
  changes. A first message needs its named keys in the stores and a trusted identity, and leaves the
  new record, the identity, the one-time key removed and the kyber key marked if the core used them;
  a later message needs a stored session; in both cases the identity it pins is one that was trusted
  already, and nothing else in any store changes.\<close>

theorem decryptMessage_effect:
  "case runT (decryptMessage P ciphertext kind a local SS IS PS SPS KPS) w of
     (Inl e, w') \<Rightarrow> \<exists>c. w' = w\<lparr>host := c\<rparr>
   | (Inr plain, w') \<Rightarrow>
       kind = MessageType PreKey \<and> first_opened P w ciphertext a local SS IS PS SPS KPS plain w' \<or>
       kind = MessageType Whisper \<and> whisper_opened P w ciphertext a local SS IS plain w'"
proof -
  define existing where "existing = or_empty (web_session w SS a)"
  have start: "runT (decryptMessage P ciphertext kind a local SS IS PS SPS KPS) w =
      (if kind = MessageType PreKey then runT (decrypt_first P existing ciphertext a (web_binding a local) SS IS PS SPS KPS) w
       else if kind = MessageType Whisper then decrypt_whisper P existing ciphertext a (web_binding a local) SS IS w
       else (Inl (fault InvalidMessage (js ''unknown message type '' @ decimal kind)), w))"
    by (simp add: decryptMessage_def task_simps andThen_apply store_reads existing_def del: MessageType.simps)
  have same: "\<exists>c. w = w\<lparr>host := c\<rparr>" by (rule exI [of _ "host w"]) simp
  show ?thesis
    unfolding start
    using pf.cleanD [OF decrypt_first_clean, of P existing ciphertext a "web_binding a local" SS IS PS SPS KPS w]
      pf.cleanD [OF decrypt_whisper_clean, of P existing ciphertext a "web_binding a local" SS IS w]
      decrypt_first_done [of P w SS a ciphertext local IS PS SPS KPS] decrypt_whisper_done [of P w SS a ciphertext local IS]
      same
    by (auto simp: platform_only_def simp flip: existing_def simp del: MessageType.simps
        split: prod.splits sum.splits)
qed

subsection \<open>processPreKeyBundle\<close>

lemma bundle_clean:
  "pf.clean (runT (processPreKeyBundle P a local reg idk sid sk ssig pid pk kid kk ksig SS IS))"
  unfolding processPreKeyBundle_def Let_def runT_sync
  by (rule pf.clean_andThen pf_ops never_throws)+

text \<open>The state after a bundle is processed.\<close>

definition bundle_processed :: "'c platform \<Rightarrow> 'c web \<Rightarrow> wasm_address \<Rightarrow> nat \<Rightarrow> nat \<Rightarrow> published \<Rightarrow> 'c web \<Rightarrow> bool" where
  "bundle_processed P w a SS IS published w' \<longleftrightarrow> trusts w IS a (p_identity published) \<and>
     (\<exists>t c0 r c1. web_nowSecs P (host w) = (Inr t, c0) \<and>
        core_sessionStart (platform_calls P) (ws_bytes (wk_private_key (wi_identity (identity_stores w IS))))
          (wi_registrationId (identity_stores w IS)) (or_empty (web_session w SS a)) published t c0 = (Inr r, c1) \<and>
        w' = with_session SS a r (with_known IS a (p_identity published) (w\<lparr>host := c1\<rparr>)))"

lemma bundle_done:
  "runT (processPreKeyBundle P a local reg idk sid sk ssig pid pk kid kk ksig SS IS) w = (Inr u, w') \<Longrightarrow>
   bundle_processed P w a SS IS
     \<lparr>p_registrationId = reg, p_device = wa_deviceId a, p_oneTimeId = pid, p_oneTime = pk, p_signedId = sid,
      p_signedKey = wp_bytes sk, p_signedSignature = ssig, p_identity = wp_bytes idk, p_pqId = kid, p_pqKey = kk,
      p_pqSignature = ksig\<rparr> w'"
  unfolding processPreKeyBundle_def Let_def runT_sync bundle_processed_def
  by (auto elim!: andThen_InrE simp: on_host_eq require_trusted_run store_reads store_writes
      WasmPublicKey_serialize_def split: if_splits)
    (auto dest: wi_save_state)

text \<open>C12: \<^verbatim>\<open>processPreKeyBundle\<close> never suspends. A bundle with another identity than the
  pinned one throws \<^verbatim>\<open>UntrustedIdentity\<close> before the core is called at all; when the core
  refuses the bundle nothing changes but the platform; otherwise the identity of the bundle is pinned
  and the record the core started is stored, and nothing else.\<close>

theorem processPreKeyBundle_effect:
  "atomic (processPreKeyBundle P a local reg idk sid sk ssig pid pk kid kk ksig SS IS) \<and>
   (case runT (processPreKeyBundle P a local reg idk sid sk ssig pid pk kid kk ksig SS IS) w of
      (Inl e, w') \<Rightarrow> if trusts w IS a (wp_bytes idk) then \<exists>c. w' = w\<lparr>host := c\<rparr> else e = web_untrusted a \<and> w' = w
    | (Inr u, w') \<Rightarrow> bundle_processed P w a SS IS
        \<lparr>p_registrationId = reg, p_device = wa_deviceId a, p_oneTimeId = pid, p_oneTime = pk, p_signedId = sid,
         p_signedKey = wp_bytes sk, p_signedSignature = ssig, p_identity = wp_bytes idk, p_pqId = kid, p_pqKey = kk,
         p_pqSignature = ksig\<rparr> w')"
  (is "?atomic \<and> ?effect")
proof
  show ?atomic by (simp add: processPreKeyBundle_def Let_def)
  obtain r w' where run: "runT (processPreKeyBundle P a local reg idk sid sk ssig pid pk kid kk ksig SS IS) w = (r, w')"
    by (cases "runT (processPreKeyBundle P a local reg idk sid sk ssig pid pk kid kk ksig SS IS) w")
  show ?effect
  proof (cases r)
    case (Inl e)
    with pf.cleanD [OF bundle_clean] run have "\<exists>c. w' = w\<lparr>host := c\<rparr>" by (auto simp: platform_only_def)
    moreover have "e = web_untrusted a \<and> w' = w" if "\<not> trusts w IS a (wp_bytes idk)"
      using run Inl that
      by (simp add: processPreKeyBundle_def Let_def runT_sync andThen_apply require_trusted_run WasmPublicKey_serialize_def)
    ultimately show ?thesis using run Inl by simp
  next
    case (Inr u)
    with bundle_done run show ?thesis by fastforce
  qed
qed

subsection \<open>A first message in flight\<close>

text \<open>What opening a first message with the record \<open>existing\<close> gives, with some keys.\<close>

definition opened_from ::
    "'c platform \<Rightarrow> wasm_address \<Rightarrow> bytes \<Rightarrow> wasm_address \<Rightarrow> bytes \<Rightarrow> opened_parts \<Rightarrow> bool" where
  "opened_from P a ciphertext local existing opened \<longleftrightarrow> (\<exists>secret i sgd oneTime pq c c'.
     core_sessionOpenFirst (platform_calls P) secret i existing ciphertext sgd oneTime pq (web_binding a local) c = (Inr opened, c'))"

text \<open>No session changes but that of \<open>a\<close>, and it becomes a record opened from \<open>existing\<close>.\<close>

definition reopens ::
    "'c platform \<Rightarrow> wasm_address \<Rightarrow> bytes \<Rightarrow> wasm_address \<Rightarrow> bytes \<Rightarrow> nat \<Rightarrow> 'c web \<Rightarrow> 'c web \<Rightarrow> bool" where
  "reopens P a ciphertext local existing SS w w' \<longleftrightarrow>
     (\<forall>SS' a'. SS' \<noteq> SS \<or> WasmProtocolAddress_toString a' \<noteq> WasmProtocolAddress_toString a \<longrightarrow>
        web_session w' SS' a' = web_session w SS' a') \<and>
     (web_session w' SS a = web_session w SS a \<or>
        (\<exists>opened. opened_from P a ciphertext local existing opened \<and> web_session w' SS a = Some (op_record opened)))"

interpretation ro: frame "reopens P a ciphertext local existing SS" for P a ciphertext local existing SS
  by unfold_locales (auto simp: reopens_def)

lemma same_sessions: "web_session w' = web_session w \<Longrightarrow> reopens P a ciphertext local existing SS w w'"
  by (simp add: reopens_def)

lemma session_keepers:
  "web_session (with_known IS k x w) = web_session w" "web_session (w\<lparr>host := c\<rparr>) = web_session w"
  "web_session (consume cs pqId PS KPS w) = web_session w"
  by (auto simp: fun_eq_iff web_views consume_def web_fields split: option.split)

lemma ro_ops:
  "ro.quiet P a ciphertext local existing SS (on_host m)" "ro.quiet P a ciphertext local existing SS (require_trusted IS a' k)"
  "ro.quiet P a ciphertext local existing SS (own_secret IS)" "ro.quiet P a ciphertext local existing SS (own_registration IS)"
  "ro.quiet P a ciphertext local existing SS (at_pre_keys PS (RecordStore_get i))"
  "ro.quiet P a ciphertext local existing SS (at_signed SPS (RecordStore_get i))"
  "ro.quiet P a ciphertext local existing SS (at_kyber KPS (ks_lift (RecordStore_get i)))"
  "ro.quiet P a ciphertext local existing SS (at_identity IS (wi_save a' k))"
  "ro.quiet P a ciphertext local existing SS (at_pre_keys PS (RecordStore_drop i))"
  "ro.quiet P a ciphertext local existing SS (at_kyber KPS (ks_markUsed i))"
  by (auto simp: ro.quiet_def on_host_run store_reads require_trusted_run store_writes wi_save_eq session_keepers web_fields
      ro.frame_refl intro!: same_sessions)

lemma ro_commit:
  assumes "opened_from P a ciphertext local existing opened"
  shows "ro.quiet P a ciphertext local existing SS (web_commit P (op_record opened) a SS IS)"
proof -
  have "ro.quiet P a ciphertext local existing SS (at_sessions SS (ss_store a (op_record opened)))"
    using assms by (auto simp: ro.quiet_def store_writes reopens_def web_views)
  then show ?thesis unfolding web_commit_def by (intro ro.quiet_intros ro_ops)
qed

lemma ro_fetches:
  "segments (reopens P a ciphertext local existing SS) (fetch_key (export_signed_pre_key SPS i) what i)"
  "segments (reopens P a ciphertext local existing SS) (fetch_optional (export_pre_key PS) what o1)"
  "segments (reopens P a ciphertext local existing SS) (fetch_optional (export_kyber_pre_key KPS) what o2)"
  unfolding fetch_optional_def fetch_key_def export_signed_pre_key_def export_pre_key_def export_kyber_pre_key_def
  by (intro ro.segments_intros ro.segments_sync [THEN iffD2] ro.quiet_intros ro_ops)+

lemma ro_consume: "segments (reopens P a ciphertext local existing SS) (consume_keys c pqId PS KPS)"
  unfolding consume_keys_def remove_pre_key_def
  by (intro ro.segments_intros ro.segments_sync [THEN iffD2] ro.quiet_intros ro_ops)

lemma decrypt_first_segments:
  "segments (reopens P a ciphertext local existing SS)
     (decrypt_first P existing ciphertext a (web_binding a local) SS IS PS SPS KPS)"
proof -
  let ?R = "reopens P a ciphertext local existing SS"
  have open1: "segments ?R (bindT (sync (on_host (core_sessionOpenFirst (platform_calls P) secret registrationId existing ciphertext
              signed oneTime pq (web_binding a local)))) (\<lambda>opened.
     bindT (sync (web_commit P (op_record opened) a SS IS)) (\<lambda>_.
     bindT (consume_keys (op_consumed opened) pqId PS KPS) (\<lambda>_. sync (ret (op_plain opened))))))"
    for secret registrationId signed oneTime pq pqId
  proof (rule ro.segments_bind_sync [OF ro_ops(1)])
    fix s opened s'
    assume "on_host (core_sessionOpenFirst (platform_calls P) secret registrationId existing ciphertext
      signed oneTime pq (web_binding a local)) s = (Inr opened, s')"
    then have "opened_from P a ciphertext local existing opened" unfolding on_host_eq opened_from_def by blast
    from ro_commit [OF this] show "segments ?R (bindT (sync (web_commit P (op_record opened) a SS IS)) (\<lambda>_.
     bindT (consume_keys (op_consumed opened) pqId PS KPS) (\<lambda>_. sync (ret (op_plain opened)))))"
      by (intro ro.segments_intros ro_consume ro.segments_sync [THEN iffD2] ro.quiet_intros)
  qed
  show ?thesis
    unfolding decrypt_first_def
    by (intro ro.segments_bindT ro.segments_split ro.segments_sync [THEN iffD2] ro_fetches open1 ro_ops)
qed

text \<open>The call once it is suspended at its first \<^verbatim>\<open>await\<close>.\<close>

definition waiting_first ::
    "'c platform \<Rightarrow> wasm_address \<Rightarrow> bytes \<Rightarrow> wasm_address \<Rightarrow> bytes \<Rightarrow> nat \<Rightarrow> nat \<Rightarrow> nat \<Rightarrow> nat \<Rightarrow>
      js_error + bytes option \<Rightarrow> js_error \<Rightarrow> jsstring \<Rightarrow> int option \<Rightarrow> jsstring \<Rightarrow> int option \<Rightarrow> ('c web, bytes) task" where
  "waiting_first P a ciphertext local existing SS IS PS KPS x e what1 o1 what2 o2 =
     bindT (bindT (resumeWith x) (\<lambda>r. sync (case r of None \<Rightarrow> throw e | Some b \<Rightarrow> ret b))) (\<lambda>signed.
     bindT (fetch_optional (export_pre_key PS) what1 o1) (\<lambda>oneTime.
     bindT (fetch_optional (export_kyber_pre_key KPS) what2 o2) (\<lambda>pq.
     bindT (sync (own_secret IS)) (\<lambda>secret.
     bindT (sync (own_registration IS)) (\<lambda>registrationId.
     bindT (sync (on_host (core_sessionOpenFirst (platform_calls P) secret registrationId existing ciphertext
              signed oneTime pq (web_binding a local)))) (\<lambda>opened.
     bindT (sync (web_commit P (op_record opened) a SS IS)) (\<lambda>_.
     bindT (consume_keys (op_consumed opened) o2 PS KPS) (\<lambda>_.
     sync (ret (op_plain opened))))))))))"

lemma fetch_signed_exec:
  "exec (fetch_key (export_signed_pre_key SPS i) what i) w =
     (Await (bindT (resumeWith (Inr (map_get (signed_stores w SPS) (to_uint32 i))))
        (\<lambda>r. sync (case r of None \<Rightarrow> throw (fault InvalidKeyId (js ''no '' @ what @ js '' '' @ decimal i)) | Some b \<Rightarrow> ret b))), w)"
  by (simp add: fetch_key_def export_signed_pre_key_def exec_bindT exec_awaitT store_reads)

lemma first_message_starts:
  assumes "exec (decrypt_first P existing ciphertext a (web_binding a local) SS IS PS SPS KPS) w = (Await t, w1)"
  shows "\<exists>c x e what1 o1 what2 o2. w1 = w\<lparr>host := c\<rparr> \<and>
    t = waiting_first P a ciphertext local existing SS IS PS KPS x e what1 o1 what2 o2"
proof -
  obtain p c where parse: "core_openerParse (platform_calls P) ciphertext (host w) = (p, c)" by fastforce
  show ?thesis
  proof (cases p)
    case (Inl x)
    with assms parse show ?thesis by (simp add: decrypt_first_def exec_bindT on_host_run)
  next
    case (Inr ib)
    with assms parse show ?thesis
      by (cases ib; cases "trusts w IS a (o_identity (fst ib))")
        (auto simp: decrypt_first_def exec_bindT on_host_run require_trusted_run fetch_signed_exec waiting_first_def simp del: js_Cons,
         (rule exI)+, rule refl)
  qed
qed

lemma first_message_rest:
  assumes "runT (waiting_first P a ciphertext local existing SS IS PS KPS x e what1 o1 what2 o2) v = (Inr plain, w')"
  shows "\<exists>opened. opened_from P a ciphertext local existing opened \<and> plain = op_plain opened \<and>
    web_session w' SS a = Some (op_record opened)"
proof -
  from assms obtain secret i sgd oneTime pq opened c c' v1 v2 where
    o1: "core_sessionOpenFirst (platform_calls P) secret i existing ciphertext sgd oneTime pq (web_binding a local) c = (Inr opened, c')"
    and commit: "web_commit P (op_record opened) a SS IS v1 = (Inr (), v2)"
    and rest: "plain = op_plain opened" "w' = consume (op_consumed opened) o2 PS KPS v2"
    by (auto elim!: andThen_InrE simp: waiting_first_def task_simps on_host_eq store_reads consume_keys_run)
  from commit_done [OF commit] have "web_session v2 SS a = Some (op_record opened)" by (auto simp: web_views)
  moreover have "opened_from P a ciphertext local existing opened" using o1 unfolding opened_from_def by blast
  ultimately show ?thesis using rest by (auto simp: session_keepers)
qed

text \<open>C27: \<^verbatim>\<open>decryptMessage\<close> of a first message is not isolated from other calls: it reads the
  session before its first \<^verbatim>\<open>await\<close> and stores the opened record after the last key came back.
  Once it is suspended, whatever the other calls do, any of its later segments leaves every session
  as it finds it, but for the sender's, which it may replace by a record opened from the one read at
  the start; and if it returns, from whatever state it is resumed, that is what is stored. So the
  advance of a message sealed for the sender meanwhile, which was stored, is overwritten and lost.\<close>

theorem concurrent_decrypt:
  assumes "exec (decryptMessage P ciphertext (MessageType PreKey) a local SS IS PS SPS KPS) w = (Await t, w1)"
  shows "segments (reopens P a ciphertext local (or_empty (web_session w SS a)) SS) t \<and>
    (\<forall>v plain w'. runT t v = (Inr plain, w') \<longrightarrow> (\<exists>opened.
       opened_from P a ciphertext local (or_empty (web_session w SS a)) opened \<and> plain = op_plain opened \<and>
       web_session w' SS a = Some (op_record opened))) \<and>
    (\<forall>m own ct w2 plain w'. runT (encryptMessage P m a own SS IS) w1 = (Inr ct, w2) \<longrightarrow> runT t w2 = (Inr plain, w') \<longrightarrow>
       (\<exists>b s opened. web_session w SS a = Some b \<and> message_sealed P a m own b s \<and> web_session w2 SS a = Some (sl_record s) \<and>
          opened_from P a ciphertext local b opened \<and> web_session w' SS a = Some (op_record opened)))"
proof -
  define existing where "existing = or_empty (web_session w SS a)"
  have start: "exec (decrypt_first P existing ciphertext a (web_binding a local) SS IS PS SPS KPS) w = (Await t, w1)"
    using assms by (simp add: decryptMessage_def exec_bindT store_reads existing_def)
  have seg: "segments (reopens P a ciphertext local existing SS) t"
    using segmentsD(2) [OF decrypt_first_segments start] by simp
  from first_message_starts [OF start] obtain c x e what1 o1 what2 o2 where w1: "w1 = w\<lparr>host := c\<rparr>"
    and t: "t = waiting_first P a ciphertext local existing SS IS PS KPS x e what1 o1 what2 o2" by blast
  have rest: "\<exists>opened. opened_from P a ciphertext local existing opened \<and> plain = op_plain opened \<and>
      web_session w' SS a = Some (op_record opened)" if "runT t v = (Inr plain, w')" for v plain w'
    using first_message_rest that unfolding t by blast
  have kept: "web_session w1 = web_session w" by (simp add: w1 session_keepers)
  have lost: "\<exists>b s opened. web_session w SS a = Some b \<and> message_sealed P a m own b s \<and> web_session w2 SS a = Some (sl_record s) \<and>
      opened_from P a ciphertext local b opened \<and> web_session w' SS a = Some (op_record opened)"
    if enc: "runT (encryptMessage P m a own SS IS) w1 = (Inr ct, w2)" and run: "runT t w2 = (Inr plain, w')" for m own ct w2 plain w'
  proof -
    from encrypt_run [where P = P and m = m and a = a and local = own and SS = SS and IS = IS and w = w1] enc
    obtain b s where s: "web_session w1 SS a = Some b" "message_sealed P a m own b s" "web_session w2 SS a = Some (sl_record s)"
      by (auto simp: message_sealed_def web_views) blast
    with kept rest [OF run] show ?thesis by (auto simp: existing_def or_empty_def)
  qed
  show ?thesis using seg rest lost unfolding existing_def by blast
qed

end
