(* ===== verification/Web_Loop.thy ===== *)
theory Web_Loop
  imports Web_Facts
begin

text \<open>
  The event loop of the web client as a step relation: at any moment the client starts a call, a
  call in flight runs its next segment, a store is created, or the platform moves on by itself. The
  invariants hold in every state such a run reaches, whatever is interleaved with what. Calls that seal a
  message never suspend, and the records they seal with form a chain.
\<close>

subsection \<open>Calls and steps\<close>

definition voidT :: "('s, 'a) task \<Rightarrow> ('s, unit) task" where
  "voidT t = bindT t (\<lambda>_. sync (ret ()))"

text \<open>Every exported \<^verbatim>\<open>async\<close> operation on the stores; \<open>pin\<close> allows
  \<^verbatim>\<open>import_identity\<close>, by which the host itself sets an identity.\<close>

inductive web_call :: "'c platform \<Rightarrow> bool \<Rightarrow> ('c web, unit) task \<Rightarrow> bool" for P pin where
  start_session: "web_call P pin (processPreKeyBundle P a local reg idk sid sk ssig pid pk kid kk ksig SS IS)"
| encrypt: "web_call P pin (voidT (encryptMessage P m a local SS IS))"
| decrypt: "web_call P pin (voidT (decryptMessage P m kind a local SS IS PS SPS KPS))"
| pre_keys: "web_call P pin (voidT (generatePreKeys P i n PS))"
| signed_key: "web_call P pin (voidT (generateSignedPreKey P i p SPS))"
| kyber_key: "web_call P pin (voidT (generateKyberPreKey P i p KPS))"
| create_circle: "web_call P pin (voidT (createSenderKeyDistribution P a d KS))"
| join_circle: "web_call P pin (processSenderKeyDistribution P a m KS)"
| encrypt_circle: "web_call P pin (voidT (encryptGroupMessage P a d m KS))"
| decrypt_circle: "web_call P pin (voidT (decryptGroupMessage P a m KS))"
| export_identity: "web_call P pin (voidT (export_identity IS a))"
| import_identity: "pin \<Longrightarrow> web_call P pin (import_identity P IS a b)"
| export_pre_key: "web_call P pin (voidT (export_pre_key PS i))"
| import_pre_key: "web_call P pin (import_pre_key P PS i b)"
| remove_pre_key: "web_call P pin (remove_pre_key PS i)"
| export_signed: "web_call P pin (voidT (export_signed_pre_key SPS i))"
| import_signed: "web_call P pin (import_signed_pre_key P SPS i b)"
| remove_signed: "web_call P pin (remove_signed_pre_key SPS i)"
| export_kyber: "web_call P pin (voidT (export_kyber_pre_key KPS i))"
| import_kyber: "web_call P pin (import_kyber_pre_key P KPS i b)"
| remove_kyber: "web_call P pin (remove_kyber_pre_key KPS i)"
| kyber_used: "web_call P pin (voidT (has_kyber_pre_key_been_used KPS i))"
| has_session: "web_call P pin (voidT (has_session P SS a))"
| export_session: "web_call P pin (voidT (export_session SS a))"
| import_session: "web_call P pin (import_session P SS a b)"
| archive_session: "web_call P pin (archive_session P SS a)"
| remove_session: "web_call P pin (remove_session SS a)"
| export_sender: "web_call P pin (voidT (export_sender_key P KS a d))"
| import_sender: "web_call P pin (import_sender_key P KS a d b)"

type_synonym 'c config = "(unit, ('c web, unit) task) outcome list \<times> 'c web"

inductive web_step :: "'c platform \<Rightarrow> bool \<Rightarrow> 'c config \<Rightarrow> 'c config \<Rightarrow> bool" for P pin where
  start: "web_call P pin t \<Longrightarrow> web_step P pin (pool, w) (pool @ [Await t], w)"
| resume: "i < length pool \<Longrightarrow> pool ! i = Await t \<Longrightarrow> exec t w = (oc, w') \<Longrightarrow>
    web_step P pin (pool, w) (pool[i := oc], w')"
| create: "new_identity_store p r w = (Inr n, w') \<Longrightarrow> web_step P pin (pool, w) (pool, w')"
| platform: "web_step P pin (pool, w) (pool, w\<lparr>host := c\<rparr>)"

text \<open>A relation every segment of every call keeps is kept by every run.\<close>

context frame
begin

lemma segments_voidT: "segments R t \<Longrightarrow> segments R (voidT t)"
  unfolding voidT_def by (rule segments_bindT) (simp_all add: quiet_basic)

end

lemma web_step_frame:
  assumes fr: "frame R"
    and calls: "\<And>t. web_call P pin t \<Longrightarrow> segments R t"
    and others: "\<And>w c. R w (w\<lparr>host := c\<rparr>)" "\<And>p r w n w'. new_identity_store p r w = (Inr n, w') \<Longrightarrow> R w w'"
    and step: "web_step P pin (pool, w) (pool', w')" and pool: "list_all (pending R) pool"
  shows "R w w' \<and> list_all (pending R) pool'"
  using step
proof (cases rule: web_step.cases)
  case (start t)
  with pool calls [of t] frame.frame_refl [OF fr] show ?thesis by simp
next
  case (resume i t oc)
  have "pending R (pool ! i)" using pool resume(2) by (simp add: list_all_length)
  then have "segments R t" using resume by simp
  from segmentsD [OF this resume(4)] have "R w w'" "pending R oc" .
  moreover from this(2) have "list_all (pending R) (pool[i := oc])"
    using pool by (simp add: list_all_length) (metis nth_list_update_eq nth_list_update_neq)
  ultimately show ?thesis using resume by simp
qed (use pool others in auto)

lemma web_run_frame:
  assumes fr: "frame R"
    and calls: "\<And>t. web_call P pin t \<Longrightarrow> segments R t"
    and others: "\<And>w c. R w (w\<lparr>host := c\<rparr>)" "\<And>p r w n w'. new_identity_store p r w = (Inr n, w') \<Longrightarrow> R w w'"
    and run: "(web_step P pin)\<^sup>*\<^sup>* c c'" and pool: "list_all (pending R) (fst c)"
  shows "R (snd c) (snd c') \<and> list_all (pending R) (fst c')"
  using run
proof (induction rule: rtranclp_induct)
  case base
  with pool frame.frame_refl [OF fr] show ?case by simp
next
  case (step d d')
  obtain p w q v where d: "d = (p, w)" "d' = (q, v)" by (cases d; cases d')
  from web_step_frame [OF fr calls others, where pool = p and w = w and pool' = q and w' = v] step d have "R w v \<and> list_all (pending R) q" by simp
  with step d frame.frame_trans [OF fr, of "snd c" w v] show ?case by simp
qed

subsection \<open>Pinned identities\<close>

definition pins_kept :: "'c web \<Rightarrow> 'c web \<Rightarrow> bool" where
  "pins_kept w w' \<longleftrightarrow> next_ref w \<le> next_ref w' \<and>
     (\<forall>IS a k. IS < next_ref w \<longrightarrow> web_known w IS a = Some k \<longrightarrow> web_known w' IS a = Some k)"

interpretation pins: frame pins_kept
  by unfold_locales (auto simp: pins_kept_def)

lemma next_ref_kept [simp]:
  "next_ref (with_session SS a r w) = next_ref w" "next_ref (with_known IS a k w) = next_ref w"
  "next_ref (without_pre_key PS i w) = next_ref w" "next_ref (with_kyber_used KPS i w) = next_ref w"
  by (simp_all add: with_session_def with_known_def without_pre_key_def with_kyber_used_def)

lemma pins_ops:
  "pins.quiet (on_host m)" "pins.quiet (at_pre_keys r m1)" "pins.quiet (at_signed r m1)" "pins.quiet (at_kyber r m2)"
  "pins.quiet (at_sessions r m3)" "pins.quiet (at_senders r m3)" "pins.quiet (at_identity r (wi_export_identity a))"
  "pins.quiet (own_secret r)" "pins.quiet (own_registration r)" "pins.quiet (require_trusted r a k)"
  by (auto simp: pins.quiet_def pins_kept_def on_host_def at_pre_keys_def at_signed_def at_kyber_def at_sessions_def
      at_senders_def zoom_apply web_known_def wi_export_identity_def store_reads require_trusted_run)

text \<open>An operation that fails clean and keeps the pins when it returns.\<close>

lemma pins_quiet_if:
  "pf.clean m \<Longrightarrow> (\<And>w u w'. m w = (Inr u, w') \<Longrightarrow> pins_kept w w') \<Longrightarrow> pins.quiet m"
proof -
  assume clean: "pf.clean m" and done1: "\<And>w u w'. m w = (Inr u, w') \<Longrightarrow> pins_kept w w'"
  have "pins_kept w (snd (m w))" for w
  proof (cases "m w")
    case (Pair r w')
    show ?thesis
    proof (cases r)
      case (Inl e)
      with pf.cleanD [OF clean] Pair have "platform_only w w'" by blast
      with Pair show ?thesis by (auto simp: platform_only_def pins_kept_def web_views)
    next
      case (Inr u)
      with Pair done1 show ?thesis by simp
    qed
  qed
  then show ?thesis by (simp add: pins.quiet_def)
qed

lemma save_session_pins:
  "trusts w IS a k \<Longrightarrow> pins_kept w (with_session SS a r (with_known IS a k (w\<lparr>host := c\<rparr>)))"
  by (auto simp: pins_kept_def web_views trusts_def) (auto simp: web_known_def)

lemma pins_commit: "pins.quiet (web_commit P r a SS IS)"
  by (rule pins_quiet_if [OF commit_clean]) (auto dest!: commit_done intro: save_session_pins)

lemma bundle_sync:
  "processPreKeyBundle P a local reg idk sid sk ssig pid pk kid kk ksig SS IS =
     sync (runT (processPreKeyBundle P a local reg idk sid sk ssig pid pk kid kk ksig SS IS))"
  by (simp add: processPreKeyBundle_def Let_def runT_sync)

lemma pins_bundle: "segments pins_kept (processPreKeyBundle P a local reg idk sid sk ssig pid pk kid kk ksig SS IS)"
  by (subst bundle_sync, subst pins.segments_sync, rule pins_quiet_if [OF bundle_clean]) (auto dest!: bundle_done simp: bundle_processed_def intro: save_session_pins)

lemmas web_defs = export_identity_def export_pre_key_def import_pre_key_def remove_pre_key_def export_signed_pre_key_def
  import_signed_pre_key_def remove_signed_pre_key_def export_kyber_pre_key_def import_kyber_pre_key_def
  remove_kyber_pre_key_def has_kyber_pre_key_been_used_def has_session_def export_session_def import_session_def
  archive_session_def remove_session_def export_sender_key_def import_sender_key_def
  encryptMessage_def decryptMessage_def decrypt_first_def decrypt_whisper_def fetch_optional_def fetch_key_def
  consume_keys_def generatePreKeys_def generateSignedPreKey_def generateKyberPreKey_def
  createSenderKeyDistribution_def processSenderKeyDistribution_def encryptGroupMessage_def decryptGroupMessage_def

lemma pins_pre_keys: "segments pins_kept (pre_keys_loop P start i n PS)"
  by (induction n arbitrary: i)
    (auto simp: one_pre_key_def pins.quiet_basic import_pre_key_def intro!: pins.segments_intros pins.quiet_intros pins_ops)

lemma pins_calls: "web_call P False t \<Longrightarrow> segments pins_kept t"
proof (induction rule: web_call.induct)
  case start_session
  show ?case by (rule pins_bundle)
qed (auto simp: web_defs intro!: pins.segments_voidT pins.segments_intros pins.quiet_intros pins_ops pins_commit pins_pre_keys)

lemma new_store_pins: "new_identity_store p r w = (Inr n, w') \<Longrightarrow> pins_kept w w'"
  by (auto simp: new_identity_store_def pins_kept_def web_known_def)

text \<open>C9: trust on first use is safe under interleaving. In the web client the check of an identity
  and the write that pins it are in one segment, so in any run of the event loop in which the host
  itself imports no identity, whatever calls are in flight and however they are scheduled, an
  identity once pinned for an address in a store stays pinned for good.\<close>

theorem pinned_identity_stable:
  assumes "(web_step P False)\<^sup>*\<^sup>* ([], w) (pool, w')" and "IS < next_ref w" and "web_known w IS a = Some k"
  shows "web_known w' IS a = Some k"
proof -
  have "pins_kept w w'"
    using web_run_frame [OF pins.frame_axioms pins_calls _ new_store_pins assms(1)]
    by (simp add: pins_kept_def web_views)
  with assms(2,3) show ?thesis by (simp add: pins_kept_def)
qed

subsection \<open>Well-formed stores\<close>

definition uint32 :: "int \<Rightarrow> bool" where
  "uint32 i \<longleftrightarrow> 0 \<le> i \<and> i < 2 ^ 32"

lemma uint32_to_uint32 [simp]: "uint32 (to_uint32 i)"
  using to_uint32_bounds [of i] by (simp add: uint32_def)

text \<open>A map whose keys are distinct 32-bit ids, and a map whose keys are distinct.\<close>

definition id_map :: "record_store \<Rightarrow> bool" where
  "id_map m \<longleftrightarrow> distinct (map_keys m) \<and> (\<forall>i\<in>set (map_keys m). uint32 i)"

definition web_wf :: "'c web \<Rightarrow> bool" where
  "web_wf w \<longleftrightarrow> (\<forall>r. uint32 (wi_registrationId (identity_stores w r)) \<and> distinct (map_keys (wi_known (identity_stores w r))) \<and>
     id_map (pre_key_stores w r) \<and> id_map (signed_stores w r) \<and> id_map (ks_records (kyber_stores w r)) \<and>
     distinct (ks_used (kyber_stores w r)) \<and> (\<forall>i\<in>set (ks_used (kyber_stores w r)). uint32 i) \<and>
     distinct (map_keys (session_stores w r)) \<and> distinct (map_keys (sender_stores w r)))"

lemma id_map_ops: "id_map m \<Longrightarrow> id_map (map_set (to_uint32 i) b m)" "id_map m \<Longrightarrow> id_map (map_delete j m)"
  by (auto simp: id_map_def map_keys_set map_keys_delete distinct_removeAll)

definition wf_kept :: "'c web \<Rightarrow> 'c web \<Rightarrow> bool" where
  "wf_kept w w' \<longleftrightarrow> (web_wf w \<longrightarrow> web_wf w')"

interpretation wf: frame wf_kept
  by unfold_locales (auto simp: wf_kept_def)

text \<open>A method keeps the well-formedness of its store when it keeps that of the contents.\<close>

lemma wf_at:
  "(\<And>s. id_map s \<Longrightarrow> id_map (snd (m1 s))) \<Longrightarrow> wf.quiet (at_pre_keys r m1)"
  "(\<And>s. id_map s \<Longrightarrow> id_map (snd (m1 s))) \<Longrightarrow> wf.quiet (at_signed r m1)"
  "(\<And>s. distinct (map_keys s) \<Longrightarrow> distinct (map_keys (snd (m2 s)))) \<Longrightarrow> wf.quiet (at_sessions r m2)"
  "(\<And>s. distinct (map_keys s) \<Longrightarrow> distinct (map_keys (snd (m2 s)))) \<Longrightarrow> wf.quiet (at_senders r m2)"
  "(\<And>s. wi_registrationId (snd (m3 s)) = wi_registrationId s) \<Longrightarrow>
   (\<And>s. distinct (map_keys (wi_known s)) \<Longrightarrow> distinct (map_keys (wi_known (snd (m3 s))))) \<Longrightarrow> wf.quiet (at_identity r m3)"
  by (auto simp: wf.quiet_def wf_kept_def web_wf_def at_pre_keys_def at_signed_def at_sessions_def at_senders_def
      at_identity_def zoom_apply)

lemma wf_at_kyber:
  "(\<And>s. id_map (ks_records s) \<Longrightarrow> distinct (ks_used s) \<Longrightarrow> Ball (set (ks_used s)) uint32 \<Longrightarrow>
     id_map (ks_records (snd (m s))) \<and> distinct (ks_used (snd (m s))) \<and> Ball (set (ks_used (snd (m s)))) uint32) \<Longrightarrow>
   wf.quiet (at_kyber r m)"
  by (auto simp: wf.quiet_def wf_kept_def web_wf_def at_kyber_def zoom_apply)

lemma wf_ops:
  "wf.quiet (on_host m)" "wf.quiet (require_trusted r a k)" "wf.quiet (own_secret r)" "wf.quiet (own_registration r)"
  "wf.quiet (at_identity r (wi_export_identity a))" "wf.quiet (at_identity r (wi_pin a k))" "wf.quiet (at_identity r (wi_save a k))"
  "wf.quiet (at_pre_keys r (RecordStore_get i))" "wf.quiet (at_pre_keys r (RecordStore_put i b))" "wf.quiet (at_pre_keys r (RecordStore_drop i))"
  "wf.quiet (at_signed r (RecordStore_get i))" "wf.quiet (at_signed r (RecordStore_put i b))" "wf.quiet (at_signed r (RecordStore_drop i))"
  "wf.quiet (at_kyber r (ks_lift (RecordStore_get i)))" "wf.quiet (at_kyber r (ks_lift (RecordStore_put i b)))"
  "wf.quiet (at_kyber r (ks_remove i))" "wf.quiet (at_kyber r (ks_markUsed i))" "wf.quiet (at_kyber r (ks_been_used i))"
  "wf.quiet (at_sessions r (ss_load a))" "wf.quiet (at_sessions r (ss_export a))" "wf.quiet (at_sessions r (ss_store a b))"
  "wf.quiet (at_sessions r (ss_remove a))" "wf.quiet (at_senders r (sks_load l a d))" "wf.quiet (at_senders r (sks_export l a d))"
  "wf.quiet (at_senders r (sks_store l a d b))"
proof -
  have same: "(\<And>w. snd (m w) = w) \<Longrightarrow> wf.quiet m" for m :: "('c web, 'x) op"
    by (simp add: wf.quiet_def wf_kept_def)
  show "wf.quiet (on_host m)" by (simp add: wf.quiet_def wf_kept_def web_wf_def on_host_run)
  show "wf.quiet (require_trusted r a k)" "wf.quiet (own_secret r)" "wf.quiet (own_registration r)"
    "wf.quiet (at_sessions r (ss_load a))" "wf.quiet (at_sessions r (ss_export a))"
    "wf.quiet (at_pre_keys r (RecordStore_get i))" "wf.quiet (at_signed r (RecordStore_get i))"
    "wf.quiet (at_kyber r (ks_lift (RecordStore_get i)))"
    by (simp_all add: wf.quiet_def wf_kept_def require_trusted_run store_reads)
  show "wf.quiet (at_identity r (wi_export_identity a))" "wf.quiet (at_kyber r (ks_been_used i))"
    "wf.quiet (at_senders r (sks_load l a d))" "wf.quiet (at_senders r (sks_export l a d))"
    by (simp_all add: wf.quiet_def wf_kept_def wi_export_identity_def ks_been_used_def sks_load_def sks_export_def)
  show "wf.quiet (at_identity r (wi_pin a k))" "wf.quiet (at_identity r (wi_save a k))"
    by (rule wf_at(5); simp add: wi_save_def wi_pin_def andThen_apply distinct_map_keys_set)+
  show "wf.quiet (at_pre_keys r (RecordStore_put i b))" "wf.quiet (at_pre_keys r (RecordStore_drop i))"
    by (rule wf_at(1); simp add: RecordStore_put_def RecordStore_drop_def id_map_ops)+
  show "wf.quiet (at_signed r (RecordStore_put i b))" "wf.quiet (at_signed r (RecordStore_drop i))"
    by (rule wf_at(2); simp add: RecordStore_put_def RecordStore_drop_def id_map_ops)+
  show "wf.quiet (at_sessions r (ss_store a b))" "wf.quiet (at_sessions r (ss_remove a))"
    by (rule wf_at(3); simp add: ss_store_def ss_remove_def distinct_map_keys_set distinct_map_keys_delete)+
  show "wf.quiet (at_senders r (sks_store l a d b))"
    by (rule wf_at(4)) (simp add: sks_store_def distinct_map_keys_set)
  show "wf.quiet (at_kyber r (ks_lift (RecordStore_put i b)))" "wf.quiet (at_kyber r (ks_remove i))"
    "wf.quiet (at_kyber r (ks_markUsed i))"
    by (rule wf_at_kyber; simp add: ks_lift_def ks_remove_def ks_markUsed_def RecordStore_put_def RecordStore_drop_def
        zoom_apply andThen_apply id_map_ops distinct_removeAll distinct_set_add)+
qed

lemma wf_pre_keys: "segments wf_kept (pre_keys_loop P start i n PS)"
  by (induction n arbitrary: i)
    (auto simp: one_pre_key_def wf.quiet_basic import_pre_key_def intro!: wf.segments_intros wf.quiet_intros wf_ops)

lemma wf_commit: "wf.quiet (web_commit P r a SS IS)"
  unfolding web_commit_def by (rule wf.quiet_intros wf_ops)+

lemma wf_bundle: "segments wf_kept (processPreKeyBundle P a local reg idk sid sk ssig pid pk kid kk ksig SS IS)"
  unfolding processPreKeyBundle_def Let_def wf.segments_sync by (rule wf.quiet_intros wf_ops)+

lemma wf_import: "segments wf_kept (import_identity P IS a b)"
  unfolding import_identity_def wf.segments_sync by (rule wf.quiet_intros wf_ops)+

lemma wf_calls: "web_call P pin t \<Longrightarrow> segments wf_kept t"
proof (induction rule: web_call.induct)
  case start_session
  show ?case by (rule wf_bundle)
next
  case import_identity
  show ?case by (rule wf_import)
qed (auto simp: web_defs intro!: wf.segments_voidT wf.segments_intros wf.quiet_intros wf_ops wf_commit wf_pre_keys)

lemma new_store_wf:
  assumes "new_identity_store p r w = (Inr n, w')"
  shows "wf_kept w w'"
proof -
  from assms have w': "identity_stores w' = (identity_stores w)(next_ref w := WasmInMemIdentityKeyStore_new p r)"
    "pre_key_stores w' = pre_key_stores w" "signed_stores w' = signed_stores w" "kyber_stores w' = kyber_stores w"
    "session_stores w' = session_stores w" "sender_stores w' = sender_stores w"
    by (auto simp: new_identity_store_def)
  have "uint32 (wi_registrationId (WasmInMemIdentityKeyStore_new p r))"
    "map_keys (wi_known (WasmInMemIdentityKeyStore_new p r)) = []"
    by (simp_all add: WasmInMemIdentityKeyStore_new_def map_keys_def)
  then show ?thesis unfolding wf_kept_def web_wf_def w' by simp
qed

lemma host_wf: "wf_kept w (w\<lparr>host := c\<rparr>)"
  by (simp add: wf_kept_def web_wf_def)

text \<open>C23: in every state a run of the event loop reaches, each pre-key store holds at most one record
  under an id and every id, of a record or of a used kyber key, is a 32-bit one, whatever numbers the
  host passed; registration ids are 32-bit too, and no other store holds two entries for one name.\<close>

theorem web_stores_well_formed:
  assumes "(web_step P True)\<^sup>*\<^sup>* ([], w) (pool, w')" and "web_wf w"
  shows "web_wf w'"
proof -
  have "wf_kept w w'"
    using web_run_frame [OF wf.frame_axioms wf_calls host_wf new_store_wf assms(1)] by simp
  with assms(2) show ?thesis by (simp add: wf_kept_def)
qed

subsection \<open>Calls that never suspend\<close>

text \<open>A chain of steps, each of a call with the record it found and the record it left: the first
  finds \<open>b\<close>, every other the record the one before it left, and the last leaves \<open>b'\<close>.\<close>

fun record_chain :: "bytes \<Rightarrow> (nat \<times> bytes \<times> bytes) list \<Rightarrow> bytes \<Rightarrow> bool" where
  "record_chain b [] b' \<longleftrightarrow> b' = b"
| "record_chain b ((i, r, r') # steps) b' \<longleftrightarrow> r = b \<and> record_chain r' steps b'"

lemma web_atomic: "atomic (encryptMessage P m a local SS IS)"
  by (simp add: encryptMessage_def)

lemma encrypt_exec: "exec (encryptMessage P m a local SS IS) w =
    (Done (fst (runT (encryptMessage P m a local SS IS) w)), snd (runT (encryptMessage P m a local SS IS) w))"
  using web_atomic [of P m a local SS IS] by (simp add: atomic_def prod_eq_iff)

text \<open>One call in a chain: it fails and leaves the session, or seals with it and leaves the next.\<close>

lemma encrypt_step:
  assumes "web_session w SS a = Some b" and "runT (encryptMessage P m a local SS IS) w = (r, w')"
  shows "case r of Inl e \<Rightarrow> web_session w' SS a = Some b
    | Inr ct \<Rightarrow> \<exists>s. message_sealed P a m local b s \<and> ct = WasmCiphertext (sl_kind s) (sl_sealed s) \<and>
        web_session w' SS a = Some (sl_record s)"
  using encrypt_run [where P = P and m = m and a = a and local = local and SS = SS and IS = IS and w = w] assms
  by (cases r) (auto simp: message_sealed_def web_views, blast)

definition chained ::
    "'c platform \<Rightarrow> wasm_address \<Rightarrow> (bytes \<times> wasm_address) list \<Rightarrow> (wasm_ciphertext, ('c web, wasm_ciphertext) task) outcome list \<Rightarrow>
      (nat \<times> bytes \<times> bytes) list \<Rightarrow> bool" where
  "chained P a messages pool steps \<longleftrightarrow> distinct (map fst steps) \<and> (\<forall>(i, r, r')\<in>set steps. \<exists>s.
     message_sealed P a (fst (messages ! i)) (snd (messages ! i)) r s \<and> r' = sl_record s \<and>
     pool ! i = Done (Inr (WasmCiphertext (sl_kind s) (sl_sealed s))))"

lemma encrypts_chain:
  assumes "web_session w SS a = Some b" and "length pool = length messages"
    and "\<forall>i<length messages. pool ! i = Await (encryptMessage P (fst (messages ! i)) a (snd (messages ! i)) SS IS) \<or> (\<exists>r. pool ! i = Done r)"
    and "run_schedule sched pool w = (pool', w')"
  shows "length pool' = length messages \<and> (\<forall>i<length messages. \<forall>r. pool ! i = Done r \<longrightarrow> pool' ! i = Done r) \<and>
    (\<exists>steps b'. web_session w' SS a = Some b' \<and> record_chain b steps b' \<and> chained P a messages pool' steps \<and>
      fst ` set steps = {i. i < length messages \<and> (\<exists>t. pool ! i = Await t) \<and> (\<exists>ct. pool' ! i = Done (Inr ct))})"
  using assms
proof (induction sched arbitrary: pool w b)
  case Nil
  have "record_chain b [] b \<and> chained P a messages pool []" by (simp add: chained_def)
  moreover have "{i. i < length messages \<and> (\<exists>t. pool ! i = Await t) \<and> (\<exists>ct. pool ! i = Done (Inr ct))} = {}" by auto
  ultimately show ?case using Nil by (auto intro!: exI [of _ "[]"] exI [of _ b])
next
  case (Cons i sched)
  show ?case
  proof (cases "i < length messages \<and> (\<exists>t. pool ! i = Await t)")
    case False
    then have "run_schedule sched pool w = (pool', w')"
      using Cons.prems(2,4) by (cases "pool ! i") (auto split: if_splits)
    with Cons.IH [OF Cons.prems(1-3)] show ?thesis by blast
  next
    case True
    then have i: "i < length messages" and t: "pool ! i = Await (encryptMessage P (fst (messages ! i)) a (snd (messages ! i)) SS IS)"
      using Cons.prems(3) by auto
    obtain r w1 where run: "runT (encryptMessage P (fst (messages ! i)) a (snd (messages ! i)) SS IS) w = (r, w1)" by fastforce
    have next1: "run_schedule sched (pool[i := Done r]) w1 = (pool', w')"
      using Cons.prems(2,4) i t run by (simp add: encrypt_exec)
    have pool1: "length (pool[i := Done r]) = length messages" "\<forall>j<length messages.
        (pool[i := Done r]) ! j = Await (encryptMessage P (fst (messages ! j)) a (snd (messages ! j)) SS IS) \<or> (\<exists>x. (pool[i := Done r]) ! j = Done x)"
      using Cons.prems(2,3) i by (auto simp: nth_list_update)
    show ?thesis
    proof (cases r)
      case (Inl e)
      with encrypt_step [OF Cons.prems(1) run] have s1: "web_session w1 SS a = Some b" by simp
      note IH = Cons.IH [OF s1 pool1 next1]
      have at_i: "pool' ! i = Done (Inl e)" using IH Inl i Cons.prems(2) by simp
      then have "{j. j < length messages \<and> (\<exists>t. (pool[i := Done r]) ! j = Await t) \<and> (\<exists>ct. pool' ! j = Done (Inr ct))} =
          {j. j < length messages \<and> (\<exists>t. pool ! j = Await t) \<and> (\<exists>ct. pool' ! j = Done (Inr ct))}"
        using i Cons.prems(2) by (auto simp: nth_list_update)
      moreover have "\<forall>j<length messages. \<forall>x. pool ! j = Done x \<longrightarrow> pool' ! j = Done x"
        using IH [THEN conjunct2, THEN conjunct1] t Cons.prems(2) by (metis nth_list_update_neq outcome.distinct(1))
      ultimately show ?thesis using IH by simp
    next
      case (Inr ct)
      with encrypt_step [OF Cons.prems(1) run] obtain s where s: "message_sealed P a (fst (messages ! i)) (snd (messages ! i)) b s"
        "ct = WasmCiphertext (sl_kind s) (sl_sealed s)" "web_session w1 SS a = Some (sl_record s)" by auto
      from Cons.IH [OF s(3) pool1 next1] obtain steps b' where IH: "length pool' = length messages"
        "\<forall>j<length messages. \<forall>x. (pool[i := Done r]) ! j = Done x \<longrightarrow> pool' ! j = Done x"
        "web_session w' SS a = Some b'" "record_chain (sl_record s) steps b'" "chained P a messages pool' steps"
        "fst ` set steps = {j. j < length messages \<and> (\<exists>t. (pool[i := Done r]) ! j = Await t) \<and> (\<exists>ct. pool' ! j = Done (Inr ct))}"
        by blast
      have at_i: "pool' ! i = Done (Inr ct)" using IH(2) Inr i Cons.prems(2) by simp
      have new: "i \<notin> fst ` set steps" using IH(6) i Cons.prems(2) by simp
      have "chained P a messages pool' ((i, b, sl_record s) # steps)"
        using IH(5) new s(1,2) at_i by (auto simp: chained_def)
      moreover have "fst ` set ((i, b, sl_record s) # steps) =
          {j. j < length messages \<and> (\<exists>t. pool ! j = Await t) \<and> (\<exists>ct. pool' ! j = Done (Inr ct))}"
        using IH(6) i t at_i Cons.prems(2) by (auto simp: nth_list_update)
      moreover have "record_chain b ((i, b, sl_record s) # steps) b'" using IH(4) by simp
      moreover have "\<forall>j<length messages. \<forall>x. pool ! j = Done x \<longrightarrow> pool' ! j = Done x"
        using IH(2) t Cons.prems(2) by (metis nth_list_update_neq outcome.distinct(1))
      ultimately show ?thesis using IH(1,3) by blast
    qed
  qed
qed

text \<open>C28: calls of the web client's \<^verbatim>\<open>encryptMessage\<close> for one recipient never seal with the
  same record, and none of their advances is lost. However any number of them is scheduled, the calls
  that return form a chain: the first is sealed with the record stored at the beginning, each next one
  with the record the one before it stored, and the record stored at the end is the last one's; calls
  that throw leave the chain alone.\<close>

theorem web_encrypts_serialise:
  assumes "web_session w SS a = Some b"
    and "run_schedule sched (map (\<lambda>(m, local). Await (encryptMessage P m a local SS IS)) messages) w = (pool, w')"
  shows "\<exists>steps b'. record_chain b steps b' \<and> web_session w' SS a = Some b' \<and> distinct (map fst steps) \<and>
    fst ` set steps = {i. i < length messages \<and> (\<exists>ct. pool ! i = Done (Inr ct))} \<and>
    (\<forall>(i, r, r')\<in>set steps. \<exists>s. message_sealed P a (fst (messages ! i)) (snd (messages ! i)) r s \<and> r' = sl_record s \<and>
       pool ! i = Done (Inr (WasmCiphertext (sl_kind s) (sl_sealed s))))"
proof -
  let ?pool = "map (\<lambda>(m, local). Await (encryptMessage P m a local SS IS)) messages
    :: (wasm_ciphertext, ('a web, wasm_ciphertext) task) outcome list"
  have "length ?pool = length messages" by simp
  moreover have "\<forall>i<length messages. ?pool ! i = Await (encryptMessage P (fst (messages ! i)) a (snd (messages ! i)) SS IS) \<or>
      (\<exists>r. ?pool ! i = Done r)"
    by (simp add: case_prod_unfold)
  ultimately obtain steps b' where chain: "web_session w' SS a = Some b'" "record_chain b steps b'" "chained P a messages pool steps"
    "fst ` set steps = {i. i < length messages \<and> (\<exists>t. ?pool ! i = Await t) \<and> (\<exists>ct. pool ! i = Done (Inr ct))}"
    using encrypts_chain [OF assms(1) _ _ assms(2)] by blast
  from chain(4) have "fst ` set steps = {i. i < length messages \<and> (\<exists>ct. pool ! i = Done (Inr ct))}"
    by (auto simp: case_prod_unfold)
  with chain(1-3) show ?thesis unfolding chained_def by blast
qed

end
