(* ===== verification/Web_Sample.thy ===== *)
theory Web_Sample
  imports Web_Loop Sample_Peer
begin

text \<open>
  A small platform whose core extends the record it is given, and a client with one store of each
  class, on which the theorems on the web client are applied, those on calls in flight together among them.
\<close>

fun step_data :: "step \<Rightarrow> bytes" where
  "step_data (SBytes v) = data_of v"
| "step_data _ = []"

definition web_opener :: opener_info where
  "web_opener = \<lparr>o_version = 4, o_registrationId = 2, o_oneTimeId = Some 5, o_signedId = 1, o_pqId = Some 2,
     o_base = replicate 33 7, o_identity = replicate 33 6\<rparr>"

text \<open>Sealing appends 2 to the record and opening a first message appends 6.\<close>

definition web_run :: "jsstring \<Rightarrow> step list \<Rightarrow> bytes list \<times> bytes list" where
  "web_run name steps =
     (if name = js ''gv_session_info'' then ([], [c_session_info sample_info])
      else if name = js ''gv_session_seal'' then ([step_data (steps ! 0), step_data (steps ! 0) @ [2]], [le_bytes 1 2])
      else if name = js ''gv_session_open_first'' then ([[5], step_data (steps ! 2) @ [6]], [c_consumed sample_consumed])
      else if name = js ''gv_opener_parse'' then ([[0]], [c_opener_info web_opener])
      else ([[1], [2], [3]], [le_bytes 4 7]))"

definition web_sample_calls :: "nat core_calls" where
  "web_sample_calls = \<lparr>run_call = (\<lambda>name steps n. (Inr (web_run name steps), Suc n)),
     run_start = (\<lambda>sk i b p t n. (Inr (b @ [9]), Suc n)), run_poolValid = (\<lambda>p n. (Inr True, Suc n)),
     run_abiVersion = ret 1\<rparr>"

definition web_platform :: "nat platform" where
  "web_platform = \<lparr>platform_calls = web_sample_calls, date_now = ret 5000, lower_case = id\<rparr>"

definition web_peer :: wasm_address where "web_peer = WasmProtocolAddress (js ''a'') 1"
definition web_self :: wasm_address where "web_self = WasmProtocolAddress (js ''b'') 1"

definition web_world :: "nat web" where
  "web_world = \<lparr>host = 0, next_ref = 1,
     identity_stores = (\<lambda>r. \<lparr>wi_identity = WasmIdentityKeyPair (WasmPublicKey []) (WasmPrivateKey []),
       wi_registrationId = 1, wi_known = []\<rparr>),
     pre_key_stores = (\<lambda>r. [(5, [8])]), signed_stores = (\<lambda>r. [(1, [8])]),
     kyber_stores = (\<lambda>r. \<lparr>ks_records = [(2, [8])], ks_used = []\<rparr>),
     session_stores = (\<lambda>r. [(js ''a.1'', [7])]), sender_stores = (\<lambda>r. [])\<rparr>"

lemma web_sample_core:
  "session_info_now web_platform b c = (Inr sample_info, Suc c)"
  "web_nowSecs web_platform c = (Inr 5, c)"
  "core_sessionSeal web_sample_calls b m t bd c = (Inr \<lparr>sl_kind = 2, sl_sealed = b, sl_record = b @ [2]\<rparr>, Suc c)"
  "core_sessionOpenFirst web_sample_calls sk i b m s1 o1 p1 bd c =
     (Inr \<lparr>op_plain = [5], op_record = b @ [6], op_consumed = sample_consumed\<rparr>, Suc c)"
  "core_openerParse web_sample_calls m c = (Inr (web_opener, [0]), Suc c)"
  "platform_calls web_platform = web_sample_calls"
proof -
  have opener: "read_opener_info (c_opener_info web_opener) = web_opener"
    using read_opener_info_layout [of web_opener]
    by (simp add: opener_info_ok_def web_opener_def u8_def u32_def id63_def)
  show "session_info_now web_platform b c = (Inr sample_info, Suc c)"
    by (simp add: session_info_now_def web_nowSecs_def web_platform_def web_sample_calls_def andThen_def
        core_sessionInfo_def finish_def web_run_def sample_reads)
  show "web_nowSecs web_platform c = (Inr 5, c)"
    by (simp add: web_nowSecs_def web_platform_def andThen_def)
  show "core_sessionSeal web_sample_calls b m t bd c = (Inr \<lparr>sl_kind = 2, sl_sealed = b, sl_record = b @ [2]\<rparr>, Suc c)"
    by (simp add: core_sessionSeal_def finish_def andThen_def web_sample_calls_def web_run_def bound_def
        getUint8_def slice_whole from_le_le_bytes del: One_nat_def)
  show "core_sessionOpenFirst web_sample_calls sk i b m s1 o1 p1 bd c =
     (Inr \<lparr>op_plain = [5], op_record = b @ [6], op_consumed = sample_consumed\<rparr>, Suc c)"
    by (simp add: core_sessionOpenFirst_def finish_def andThen_def web_sample_calls_def web_run_def bound_def sample_reads)
  show "core_openerParse web_sample_calls m c = (Inr (web_opener, [0]), Suc c)"
    by (simp add: core_openerParse_def finish_def andThen_def web_sample_calls_def web_run_def opener)
  show "platform_calls web_platform = web_sample_calls" by (simp add: web_platform_def)
qed

lemma web_peer_text: "WasmProtocolAddress_toString web_peer = js ''a.1''"
  by (simp add: WasmProtocolAddress_toString_def web_peer_def decimal_def nat_decimal.simps)

lemma web_world_views:
  "web_session web_world SS web_peer = Some [7]" "web_known web_world IS web_peer = None"
  "map_get (signed_stores web_world r) 1 = Some [8]" "map_get (pre_key_stores web_world r) 5 = Some [8]"
  "map_get (ks_records (kyber_stores web_world r)) 2 = Some [8]"
  by (simp_all add: web_session_def web_known_def web_world_def web_peer_text map_get_def)

theorem encryptMessage_effect_witness:
  "\<exists>w'. runT (encryptMessage web_platform [0] web_peer web_self 0 0) web_world = (Inr (WasmCiphertext 2 [7]), w') \<and>
     web_session w' 0 web_peer = Some [7, 2] \<and> web_known w' 0 web_peer = None"
proof -
  obtain r w' where run: "runT (encryptMessage web_platform [0] web_peer web_self 0 0) web_world = (r, w')"
    by (cases "runT (encryptMessage web_platform [0] web_peer web_self 0 0) web_world")
  have r: "r = Inr (WasmCiphertext 2 [7])"
    using run by (auto simp: encryptMessage_def runT_sync andThen_apply store_reads on_host_run web_sample_core
        web_world_views or_empty_def require_trusted_run store_writes WasmCiphertext_of_def trusts_def)
  have "case runT (encryptMessage web_platform [0] web_peer web_self 0 0) web_world of
      (Inl e, w') \<Rightarrow> (\<exists>c. w' = web_world\<lparr>host := c\<rparr>) \<and> (web_session web_world 0 web_peer = None \<longrightarrow> e = web_no_session web_peer)
    | (Inr ct, w') \<Rightarrow> (\<exists>existing t c0 s c1 info c2. web_session web_world 0 web_peer = Some existing \<and> existing \<noteq> [] \<and>
        web_nowSecs web_platform (host web_world) = (Inr t, c0) \<and>
        core_sessionSeal (platform_calls web_platform) existing [0] t (web_binding web_self web_peer) c0 = (Inr s, c1) \<and>
        session_info_now web_platform (sl_record s) c1 = (Inr info, c2) \<and> trusts web_world 0 web_peer (remoteIdentity info) \<and>
        ct = WasmCiphertext (sl_kind s) (sl_sealed s) \<and>
        w' = with_session 0 web_peer (sl_record s) (web_world\<lparr>host := c2\<rparr>))"
    by (rule conjunct2 [OF encryptMessage_effect])
  with run r show ?thesis
    by (auto simp: web_world_views web_sample_core web_views)
qed

subsection \<open>Calls in flight together\<close>

definition open_first :: "(nat web, bytes) task" where
  "open_first = decryptMessage web_platform [1] (MessageType PreKey) web_peer web_self 0 0 0 0 0"

lemmas web_exec = open_first_def decryptMessage_def decrypt_first_def fetch_optional_def fetch_key_def
  export_signed_pre_key_def export_pre_key_def export_kyber_pre_key_def consume_keys_def remove_pre_key_def
  encryptMessage_def exec_bindT exec_awaitT task_simps andThen_apply store_reads on_host_run web_sample_core require_trusted_run
  store_writes web_commit_def

lemma web_values:
  "o_oneTimeId web_opener = Some 5" "o_signedId web_opener = 1" "o_pqId web_opener = Some 2"
  "o_identity web_opener = replicate 33 6" "remoteIdentity sample_info = replicate 33 6"
  "c_used sample_consumed" "c_oneTimeId sample_consumed = Some 5"
  "to_uint32 1 = 1" "to_uint32 2 = 2" "to_uint32 5 = 5" "or_empty (Some b) = b" "or_empty None = []"
  by (simp_all add: web_opener_def sample_info_def sample_consumed_def to_uint32_def or_empty_def)

text \<open>A message sealed while \<open>open_first\<close> is suspended stores \<open>[7, 2]\<close>; the record stored at
  the end is opened from \<open>[7]\<close>.\<close>

theorem concurrent_decrypt_witness:
  "\<exists>t w1 ct w2 w'. exec open_first web_world = (Await t, w1) \<and>
     runT (encryptMessage web_platform [0] web_peer web_self 0 0) w1 = (Inr ct, w2) \<and> web_session w2 0 web_peer = Some [7, 2] \<and>
     runT t w2 = (Inr [5], w') \<and> web_session w' 0 web_peer = Some [7, 6]"
proof -
  obtain t w1 where start: "exec open_first web_world = (Await t, w1)"
    by (simp add: web_exec web_views web_fields web_values web_world_views trusts_def del: js_Cons replicate.simps MessageType.simps)
  obtain ct w2 where enc: "runT (encryptMessage web_platform [0] web_peer web_self 0 0) w1 = (Inr ct, w2)"
    and two: "web_session w2 0 web_peer = Some [7, 2]"
    using start
    by (auto simp: web_exec web_views web_fields web_values web_world_views trusts_def WasmCiphertext_of_def
        simp del: js_Cons replicate.simps MessageType.simps)
  obtain w' where run: "runT t w2 = (Inr [5], w')"
    using start enc
    by (auto simp: web_exec web_views web_fields web_values web_world_views wi_save_eq trusts_def WasmCiphertext_of_def
        simp del: js_Cons replicate.simps MessageType.simps)
  from concurrent_decrypt [OF start [unfolded open_first_def]] enc run obtain b opened where
    "web_session web_world 0 web_peer = Some b" "opened_from web_platform web_peer [1] web_self b opened"
    "web_session w' 0 web_peer = Some (op_record opened)"
    by blast
  then have "web_session w' 0 web_peer = Some [7, 6]"
    by (auto simp: web_world_views opened_from_def web_sample_core)
  with start enc two run show ?thesis by blast
qed

theorem web_encrypts_serialise_witness:
  "\<exists>steps pool w'. run_schedule [1, 0] [Await (encryptMessage web_platform [0] web_peer web_self 0 0),
      Await (encryptMessage web_platform [1] web_peer web_self 0 0)] web_world = (pool, w') \<and>
     record_chain [7] steps [7, 2, 2] \<and> fst ` set steps = {0, 1} \<and> web_session w' 0 web_peer = Some [7, 2, 2]"
proof -
  obtain c1 c2 w' where run: "run_schedule [1, 0] (map (\<lambda>(m, local). Await (encryptMessage web_platform m web_peer local 0 0))
      [([0], web_self), ([1], web_self)]) web_world = ([Done (Inr c1), Done (Inr c2)], w')"
    and final: "web_session w' 0 web_peer = Some [7, 2, 2]"
    by (simp add: web_exec web_views web_fields web_values web_world_views trusts_def WasmCiphertext_of_def
        del: js_Cons replicate.simps)
  have b: "web_session web_world 0 web_peer = Some [7]" by (simp add: web_world_views)
  from web_encrypts_serialise [OF b run] final obtain steps where "record_chain [7] steps [7, 2, 2]"
    "fst ` set steps = {i. i < Suc (Suc 0) \<and> (\<exists>ct. [Done (Inr c1), Done (Inr c2)] ! i = (Done (Inr ct) :: (wasm_ciphertext, (nat web, wasm_ciphertext) task) outcome))}"
    by auto
  moreover have "{i. i < Suc (Suc 0) \<and> (\<exists>ct. [Done (Inr c1), Done (Inr c2)] ! i = (Done (Inr ct) :: (wasm_ciphertext, (nat web, wasm_ciphertext) task) outcome))} = {0, 1}"
    by (auto simp: less_Suc_eq)
  ultimately show ?thesis using run final by auto
qed

subsection \<open>A run of the event loop\<close>

text \<open>One call started and run through its first segment.\<close>

lemma one_call_run:
  assumes "web_call P pin t"
  shows "(web_step P pin)\<^sup>*\<^sup>* ([], w) ([fst (exec t w)], snd (exec t w))"
proof -
  have 1: "web_step P pin ([], w) ([Await t], w)" using web_step.start [OF assms, of "[]" w] by simp
  have 2: "web_step P pin ([Await t], w) ([fst (exec t w)], snd (exec t w))"
    using web_step.resume [of 0 "[Await t]" t w "fst (exec t w)" "snd (exec t w)" P pin] by simp
  from 1 2 show ?thesis by simp
qed

theorem pinned_identity_stable_witness:
  "web_known (snd (exec (voidT (encryptMessage web_platform [0] web_peer web_self 0 0))
      (with_known 0 web_peer (replicate 33 6) web_world))) 0 web_peer = Some (replicate 33 6)"
  by (rule pinned_identity_stable [OF one_call_run [OF web_call.encrypt], of 0])
    (simp_all add: web_views web_world_def)

lemma web_world_wf: "web_wf web_world"
  by (simp add: web_wf_def web_world_def map_keys_def id_map_def uint32_def)

theorem web_stores_well_formed_witness:
  "web_wf (snd (exec (import_pre_key web_platform 0 (2 ^ 32 + 7) [1]) web_world)) \<and>
   map_get (pre_key_stores (snd (exec (import_pre_key web_platform 0 (2 ^ 32 + 7) [1]) web_world)) 0) 7 = Some [1]"
proof
  show "web_wf (snd (exec (import_pre_key web_platform 0 (2 ^ 32 + 7) [1]) web_world))"
    by (rule web_stores_well_formed [OF one_call_run [OF web_call.import_pre_key] web_world_wf])
  obtain x where "core_oneTimeParse web_sample_calls [1] (host web_world) = (Inr x, Suc (host web_world))"
    by (simp add: core_oneTimeParse_def finish_def andThen_def web_sample_calls_def case_prod_unfold)
  then show "map_get (pre_key_stores (snd (exec (import_pre_key web_platform 0 (2 ^ 32 + 7) [1]) web_world)) 0) 7 = Some [1]"
    by (simp add: import_pre_key_def andThen_apply on_host_run web_sample_core(6) at_pre_keys_def zoom_apply
        RecordStore_put_def to_uint32_def)
qed

end
