(* ===== verification/Web_Keys.thy ===== *)
theory Web_Keys
  imports Web_Sample Extras
begin

text \<open>
  Key generation and the helpers of the web client: which records a batch of pre-keys leaves in the
  store, also when it throws part way; the life of a kyber pre-key; the bits of a generated UUID; and
  the sizes the key classes of both interfaces guarantee.
\<close>

subsection \<open>generatePreKeys\<close>

text \<open>The store after the records of a batch, from index \<open>i\<close> on, are put in it.\<close>

fun store_keys :: "int \<Rightarrow> nat \<Rightarrow> bytes list \<Rightarrow> record_store \<Rightarrow> record_store" where
  "store_keys start_id i [] m = m"
| "store_keys start_id i (r # rs) m = store_keys start_id (Suc i) rs (map_set (to_uint32 (start_id + int i)) r m)"

definition with_keys :: "nat \<Rightarrow> int \<Rightarrow> nat \<Rightarrow> bytes list \<Rightarrow> 'c \<Rightarrow> 'c web \<Rightarrow> 'c web" where
  "with_keys PS start_id i rs c w = w\<lparr>host := c,
     pre_key_stores := (pre_key_stores w)(PS := store_keys start_id i rs (pre_key_stores w PS))\<rparr>"

lemma with_keys_simps:
  "with_keys PS s (Suc i) rs c (with_keys PS s i [r] c' w) = with_keys PS s i (r # rs) c w"
  "with_keys PS s i rs c (w\<lparr>host := c'\<rparr>) = with_keys PS s i rs c w"
  "(with_keys PS s i rs c w)\<lparr>host := c'\<rparr> = with_keys PS s i rs c' w"
  "host (with_keys PS s i rs c w) = c"
  by (simp_all add: with_keys_def)

lemma one_pre_key_effect:
  assumes "runT (one_pre_key P (to_uint32 (s + int i)) PS) w = (res, w')"
  shows "\<exists>rs c. w' = with_keys PS s i rs c w \<and>
    (case res of Inl e \<Rightarrow> length rs \<le> 1 | Inr k \<Rightarrow> rs = [pk_record k])"
proof -
  let ?gen = "andThen (core_curvePair (platform_calls P)) (\<lambda>(secret, publicKey).
    core_oneTimeRecord (platform_calls P) (to_uint32 (s + int i)) secret)"
  have none: "\<exists>rs c'. w\<lparr>host := c\<rparr> = with_keys PS s i rs c' w \<and> length rs \<le> 1" for c
    by (intro exI [of _ "[]"] exI [of _ c]) (simp add: with_keys_def)
  have run: "runT (one_pre_key P (to_uint32 (s + int i)) PS) w =
      andThen (on_host ?gen) (\<lambda>r. andThen (on_host (core_oneTimeParse (platform_calls P) r)) (\<lambda>_.
        andThen (at_pre_keys PS (RecordStore_put (to_uint32 (s + int i)) r)) (\<lambda>_.
        on_host (WasmPreKey_fromRecord (platform_calls P) r)))) w"
    by (simp add: one_pre_key_def task_simps import_pre_key_def andThen_assoc)
  have put: "at_pre_keys PS (RecordStore_put (to_uint32 (s + int i)) r) v = (Inr (), with_keys PS s i [r] (host v) v)" for r v
    by (simp add: at_pre_keys_def zoom_apply RecordStore_put_def with_keys_def)
  obtain g c1 where 1: "?gen (host w) = (g, c1)" by (cases "?gen (host w)")
  show ?thesis
  proof (cases g)
    case (Inl e)
    with assms run 1 none [of c1] show ?thesis by (auto simp: andThen_apply [of "on_host ?gen"] on_host_run)
  next
    case (Inr r)
    obtain x c2 where 2: "core_oneTimeParse (platform_calls P) r c1 = (x, c2)"
      by (cases "core_oneTimeParse (platform_calls P) r c1")
    obtain k c3 where 3: "WasmPreKey_fromRecord (platform_calls P) r c2 = (k, c3)"
      by (cases "WasmPreKey_fromRecord (platform_calls P) r c2")
    have gen: "on_host ?gen w = (Inr r, w\<lparr>host := c1\<rparr>)" using 1 Inr by (simp add: on_host_eq)
    have fin: "(res, w') = (case x of Inl e \<Rightarrow> (Inl e, w\<lparr>host := c2\<rparr>) | Inr p \<Rightarrow> (k, with_keys PS s i [r] c3 w))"
      using assms 2 3 unfolding run andThen_apply [of "on_host ?gen"] gen
      by (simp add: andThen_apply on_host_run put with_keys_simps split: sum.splits)
    have "pk_record k' = r" if "k = Inr k'" for k'
      using 3 that unfolding WasmPreKey_fromRecord_def by (auto elim!: andThen_InrE)
    with fin none [of c2] show ?thesis
      by (cases x; cases k) (auto intro!: exI [of _ "[r]"])
  qed
qed

lemma pre_keys_loop_effect:
  "runT (pre_keys_loop P s i n PS) w = (res, w') \<Longrightarrow>
   \<exists>rs c. w' = with_keys PS s i rs c w \<and>
     (case res of Inl e \<Rightarrow> length rs \<le> n | Inr ks \<Rightarrow> length ks = n \<and> rs = map pk_record ks)"
proof (induction n arbitrary: i w res w')
  case 0
  then have "w' = w" "res = Inr []" by (simp_all add: runT_sync)
  then show ?case by (intro exI [of _ "[]"] exI [of _ "host w"]) (simp add: with_keys_def)
next
  case (Suc n)
  obtain y w1 where 1: "runT (one_pre_key P (to_uint32 (s + int i)) PS) w = (y, w1)"
    by (cases "runT (one_pre_key P (to_uint32 (s + int i)) PS) w")
  from one_pre_key_effect [OF 1] obtain rs1 c1 where w1: "w1 = with_keys PS s i rs1 c1 w"
    "case y of Inl e \<Rightarrow> length rs1 \<le> 1 | Inr k \<Rightarrow> rs1 = [pk_record k]" by blast
  show ?case
  proof (cases y)
    case (Inl e)
    with Suc.prems 1 w1 show ?thesis by (auto simp: task_simps andThen_apply)
  next
    case (Inr k)
    obtain res2 w2 where 2: "runT (pre_keys_loop P s (Suc i) n PS) w1 = (res2, w2)"
      by (cases "runT (pre_keys_loop P s (Suc i) n PS) w1")
    from Suc.IH [OF 2] obtain rs c where IH: "w2 = with_keys PS s (Suc i) rs c w1"
      "case res2 of Inl e \<Rightarrow> length rs \<le> n | Inr ks \<Rightarrow> length ks = n \<and> rs = map pk_record ks" by blast
    have "w' = w2" "res = (case res2 of Inl e \<Rightarrow> Inl e | Inr ks \<Rightarrow> Inr (k # ks))"
      using Suc.prems 1 2 Inr by (auto simp: task_simps andThen_apply split: sum.splits)
    with IH w1 Inr show ?thesis
      by (intro exI [of _ "pk_record k # rs"] exI [of _ c]) (auto simp: with_keys_simps split: sum.splits)
  qed
qed

text \<open>A batch that throws did so in the round of one key, after all the rounds before it returned.\<close>

lemma pre_keys_loop_stops:
  "runT (pre_keys_loop P s i n PS) w = (Inl e, w') \<Longrightarrow>
   \<exists>k<n. \<exists>ks w1. runT (pre_keys_loop P s i k PS) w = (Inr ks, w1) \<and>
     runT (one_pre_key P (to_uint32 (s + int (i + k))) PS) w1 = (Inl e, w')"
proof (induction n arbitrary: i w w')
  case (Suc n)
  obtain y w1 where 1: "runT (one_pre_key P (to_uint32 (s + int i)) PS) w = (y, w1)"
    by (cases "runT (one_pre_key P (to_uint32 (s + int i)) PS) w")
  show ?case
  proof (cases y)
    case (Inl e')
    with Suc.prems 1 have "runT (one_pre_key P (to_uint32 (s + int (i + 0))) PS) w = (Inl e, w')"
      by (simp add: task_simps andThen_apply)
    moreover have "runT (pre_keys_loop P s i 0 PS) w = (Inr [], w)" by (simp add: task_simps)
    ultimately show ?thesis by blast
  next
    case (Inr y')
    then have "runT (pre_keys_loop P s (Suc i) n PS) w1 = (Inl e, w')"
      using Suc.prems 1 by (auto simp: task_simps andThen_apply split: sum.splits intro: prod_eqI)
    from Suc.IH [OF this] obtain k ks w2 where k: "k < n" "runT (pre_keys_loop P s (Suc i) k PS) w1 = (Inr ks, w2)"
      "runT (one_pre_key P (to_uint32 (s + int (i + Suc k))) PS) w2 = (Inl e, w')" by auto
    from k(2) 1 Inr have "runT (pre_keys_loop P s i (Suc k) PS) w = (Inr (y' # ks), w2)"
      by (simp add: task_simps andThen_apply)
    with k show ?thesis by (intro exI [of _ "Suc k"]) auto
  qed
qed (simp add: task_simps)

lemma store_keys_append: "store_keys s i (xs @ ys) m = store_keys s (i + length xs) ys (store_keys s i xs m)"
  by (induction xs arbitrary: i m) auto

lemma with_keys_append: "with_keys PS s (i + length xs) ys c (with_keys PS s i xs c' w) = with_keys PS s i (xs @ ys) c w"
  by (simp add: with_keys_def store_keys_append)

text \<open>Consecutive ids are distinct modulo \<open>2 ^ 32\<close> for as many keys as there are ids.\<close>

lemma consecutive_ids:
  assumes "j < 2 ^ 32" "k < 2 ^ 32"
  shows "to_uint32 (s + int j) = to_uint32 (s + int k) \<longleftrightarrow> j = k"
proof
  assume "to_uint32 (s + int j) = to_uint32 (s + int k)"
  then have "int j mod 2 ^ 32 = int k mod 2 ^ 32" by (simp add: to_uint32_def mod_eq_dvd_iff)
  with assms show "j = k" by simp
qed simp

lemma store_keys_other:
  "(\<forall>k\<in>{i..<i + length rs}. to_uint32 (s + int k) \<noteq> j) \<Longrightarrow> map_get (store_keys s i rs m) j = map_get m j"
  by (induction rs arbitrary: i m) auto

lemma store_keys_found:
  "i + length rs \<le> 2 ^ 32 \<Longrightarrow> j < length rs \<Longrightarrow>
   map_get (store_keys s i rs m) (to_uint32 (s + int (i + j))) = Some (rs ! j)"
proof (induction rs arbitrary: i j m)
  case (Cons r rs)
  show ?case
  proof (cases j)
    case 0
    have "\<forall>k\<in>{Suc i..<Suc i + length rs}. to_uint32 (s + int k) \<noteq> to_uint32 (s + int i)"
      using Cons.prems consecutive_ids by auto
    from store_keys_other [OF this] 0 show ?thesis by simp
  next
    case (Suc l)
    with Cons.IH [of "Suc i" l] Cons.prems show ?thesis by simp
  qed
qed simp


text \<open>A platform whose core fails after the first key.\<close>

definition dying_calls :: "nat core_calls" where
  "dying_calls = web_sample_calls\<lparr>run_call := (\<lambda>name steps n.
     if n < 4 then (Inr (web_run name steps), Suc n) else (Inl RuntimeError, n))\<rparr>"

definition dying_platform :: "nat platform" where
  "dying_platform = web_platform\<lparr>platform_calls := dying_calls\<rparr>"


subsection \<open>The life of a kyber pre-key\<close>

definition kyber_record :: "'c web \<Rightarrow> nat \<Rightarrow> int \<Rightarrow> bytes option" where
  "kyber_record w KPS j = map_get (ks_records (kyber_stores w KPS)) (to_uint32 j)"

definition kyber_used :: "'c web \<Rightarrow> nat \<Rightarrow> int \<Rightarrow> bool" where
  "kyber_used w KPS j \<longleftrightarrow> to_uint32 j \<in> set (ks_used (kyber_stores w KPS))"

text \<open>C29: a kyber pre-key is kept under its id modulo \<open>2 ^ 32\<close>, on which all its methods agree.
  Importing stores the record and leaves the marks alone, so a key imported again under a used id is
  still marked; marking marks that id only; removing drops the record together with its mark.\<close>

theorem kyber_key_life:
  "(case runT (import_kyber_pre_key P KPS i b) w of
      (Inl e, w') \<Rightarrow> \<exists>c. w' = w\<lparr>host := c\<rparr>
    | (Inr u, w') \<Rightarrow>
        runT (export_kyber_pre_key KPS j) w' = (Inr (if j mod 2 ^ 32 = i mod 2 ^ 32 then Some b else kyber_record w KPS j), w') \<and>
        runT (has_kyber_pre_key_been_used KPS j) w' = (Inr (kyber_used w KPS j), w')) \<and>
   (case runT (sync (at_kyber KPS (ks_markUsed i))) w of
      (r, w') \<Rightarrow> r = Inr () \<and>
        runT (export_kyber_pre_key KPS j) w' = (Inr (kyber_record w KPS j), w') \<and>
        runT (has_kyber_pre_key_been_used KPS j) w' = (Inr (j mod 2 ^ 32 = i mod 2 ^ 32 \<or> kyber_used w KPS j), w')) \<and>
   (case runT (remove_kyber_pre_key KPS i) w of
      (r, w') \<Rightarrow> r = Inr () \<and>
        runT (export_kyber_pre_key KPS j) w' = (Inr (if j mod 2 ^ 32 = i mod 2 ^ 32 then None else kyber_record w KPS j), w') \<and>
        runT (has_kyber_pre_key_been_used KPS j) w' = (Inr (j mod 2 ^ 32 \<noteq> i mod 2 ^ 32 \<and> kyber_used w KPS j), w'))"
proof (intro conjI)
  have used: "runT (has_kyber_pre_key_been_used KPS j) v = (Inr (kyber_used v KPS j), v)" for v
    by (simp add: has_kyber_pre_key_been_used_def runT_sync ks_been_used_def kyber_used_def)
  have record1: "runT (export_kyber_pre_key KPS j) v = (Inr (kyber_record v KPS j), v)" for v
    by (simp add: export_kyber_pre_key_def runT_sync store_reads kyber_record_def)
  note views = used record1 kyber_used_def kyber_record_def to_uint32_def at_kyber_def ks_lift_def zoom_apply
  show "case runT (import_kyber_pre_key P KPS i b) w of
      (Inl e, w') \<Rightarrow> \<exists>c. w' = w\<lparr>host := c\<rparr>
    | (Inr u, w') \<Rightarrow>
        runT (export_kyber_pre_key KPS j) w' = (Inr (if j mod 2 ^ 32 = i mod 2 ^ 32 then Some b else kyber_record w KPS j), w') \<and>
        runT (has_kyber_pre_key_been_used KPS j) w' = (Inr (kyber_used w KPS j), w')"
    by (auto simp: import_kyber_pre_key_def runT_sync andThen_apply on_host_run views RecordStore_put_def
        split: sum.split prod.split)
  show "case runT (sync (at_kyber KPS (ks_markUsed i))) w of
      (r, w') \<Rightarrow> r = Inr () \<and>
        runT (export_kyber_pre_key KPS j) w' = (Inr (kyber_record w KPS j), w') \<and>
        runT (has_kyber_pre_key_been_used KPS j) w' = (Inr (j mod 2 ^ 32 = i mod 2 ^ 32 \<or> kyber_used w KPS j), w')"
    by (auto simp: runT_sync views ks_markUsed_def)
  show "case runT (remove_kyber_pre_key KPS i) w of
      (r, w') \<Rightarrow> r = Inr () \<and>
        runT (export_kyber_pre_key KPS j) w' = (Inr (if j mod 2 ^ 32 = i mod 2 ^ 32 then None else kyber_record w KPS j), w') \<and>
        runT (has_kyber_pre_key_been_used KPS j) w' = (Inr (j mod 2 ^ 32 \<noteq> i mod 2 ^ 32 \<and> kyber_used w KPS j), w')"
    by (auto simp: remove_kyber_pre_key_def runT_sync views ks_remove_def RecordStore_drop_def andThen_apply)
qed

subsection \<open>generate_uuid\<close>

lemma stamp_bits:
  fixes x :: byte
  shows "and (or (and x 15) 64) 240 = 64" "and (or (and x 15) 64) 15 = and x 15"
    "and (or (and x 63) 128) 192 = 128" "and (or (and x 63) 128) 63 = and x 63"
  by (simp_all add: bit.conj_disj_distrib2 and.assoc)

text \<open>C30: \<^verbatim>\<open>generate_uuid\<close> returns sixteen bytes that are a version 4 UUID of the RFC
  variant: the four version bits are 0100 and the two variant bits are 10, the other 122 bits are those
  the core drew, and \<^verbatim>\<open>uuid_to_string\<close> prints it as text \<^verbatim>\<open>uuid_from_string\<close> reads back.\<close>

theorem generate_uuid_version4:
  assumes "core_random K 16 s = (Inr r, s')" and "length r = 16"
  shows "\<exists>b t. generate_uuid K s = (Inr b, s') \<and> length b = 16 \<and>
     and (b ! 6) 240 = 64 \<and> and (b ! 6) 15 = and (r ! 6) 15 \<and>
     and (b ! 8) 192 = 128 \<and> and (b ! 8) 63 = and (r ! 8) 63 \<and>
     (\<forall>i<16. i \<notin> {6, 8} \<longrightarrow> b ! i = r ! i) \<and>
     uuid_to_string b = Inr t \<and> uuid_from_string t = Inr b"
proof -
  have len: "length (stamp_uuid r) = 16" using assms(2) by (simp add: stamp_uuid_def Let_def)
  then obtain t where "bytesToUuid (stamp_uuid r) = Inr t" using bytesToUuid_Inr_iff by blast
  then have "uuid_to_string (stamp_uuid r) = Inr t" "uuid_from_string t = Inr (stamp_uuid r)"
    using uuid_bytes_roundtrip_aux by (auto simp: uuid_to_string_def uuid_from_string_def)
  moreover have "generate_uuid K s = (Inr (stamp_uuid r), s')"
    using assms(1) by (simp add: generate_uuid_def andThen_apply)
  ultimately show ?thesis
    using len assms(2) by (intro exI [of _ "stamp_uuid r"] exI [of _ t]) (auto simp: stamp_uuid_def Let_def stamp_bits)
qed

theorem generate_uuid_version4_witness:
  "\<exists>b. generate_uuid (fixed_core [replicate 16 255] []) () = (Inr b, ()) \<and> b ! 6 = 79 \<and> b ! 8 = 191 \<and> b ! 0 = 255"
proof -
  have "core_random (fixed_core [replicate 16 255] []) 16 () = (Inr (replicate 16 255), ())"
    by (simp add: core_random_def first_def finish_def fixed_core_def andThen_def)
  from generate_uuid_version4 [OF this] obtain b where b: "generate_uuid (fixed_core [replicate 16 255] []) () = (Inr b, ())"
    by auto
  moreover have "generate_uuid (fixed_core [replicate 16 255] []) () = (Inr (stamp_uuid (replicate 16 255)), ())"
    by (simp add: generate_uuid_def core_random_def first_def finish_def fixed_core_def andThen_def)
  ultimately show ?thesis by (auto simp: stamp_uuid_def Let_def)
qed

subsection \<open>Sizes of key objects\<close>

text \<open>A result that is an exception or has a given property.\<close>

definition returns :: "('a \<Rightarrow> bool) \<Rightarrow> js_error + 'a \<Rightarrow> bool" where
  "returns Q r = (case r of Inl e \<Rightarrow> True | Inr x \<Rightarrow> Q x)"

lemma returns_simps [simp]: "returns Q (Inl e)" "returns Q (Inr x) = Q x"
  by (simp_all add: returns_def)

text \<open>A parser that accepts exactly the bytes with a given property and keeps them as they are.\<close>

definition accepts :: "(bytes \<Rightarrow> bool) \<Rightarrow> ('a \<Rightarrow> bytes) \<Rightarrow> (bytes \<Rightarrow> js_error + 'a) \<Rightarrow> bool" where
  "accepts ok out parse \<longleftrightarrow> (\<forall>b. if ok b then \<exists>k. parse b = Inr k \<and> out k = b else \<exists>e. parse b = Inl e)"

lemma accepts_returns: "accepts ok out parse \<Longrightarrow> returns (\<lambda>k. ok (out k)) (parse b)"
  unfolding accepts_def returns_def by (cases "ok b") (metis sum.case)+

lemma returns_andThen:
  "(\<And>x. returns Q (k x)) \<Longrightarrow> returns Q (fst (andThen m (\<lambda>x. pureOp (k x)) s))"
  by (cases "fst (m s)") (simp_all add: andThen_apply)

lemma key_parsers:
  "accepts (\<lambda>b. length b = 32) sk_bytes PrivateKey_deserialize"
  "accepts (\<lambda>b. length b = 32) ws_bytes WasmPrivateKey_deserialize"
  "accepts (\<lambda>b. length b = 32) bk_bytes BackupKey_new"
  "accepts (\<lambda>b. length b = 32) gm_bytes GroupMasterKey_new"
  "accepts (\<lambda>b. length b = 32) wgm_bytes WasmGroupMasterKey_from_bytes"
  "accepts (\<lambda>b. length b = 32) ak_key Aes256GcmSiv_new"
  "accepts (\<lambda>b. pqTagged b 1569) kp_bytes KEMPublicKey_deserialize"
  "accepts (\<lambda>b. pqTagged b 3169) ks_bytes KEMSecretKey_deserialize"
  by (auto simp: accepts_def PrivateKey_deserialize_def WasmPrivateKey_deserialize_def BackupKey_new_def BackupKey_SIZE_def
      GroupMasterKey_new_def GroupMasterKey_SIZE_def WasmGroupMasterKey_from_bytes_def Aes256GcmSiv_new_def
      KEMPublicKey_deserialize_def KEMSecretKey_deserialize_def PQ_PUBLIC_LENGTH_def PQ_SECRET_LENGTH_def)


end
