(* ===== verification/Registration.thy ===== *)
theory Registration
  imports Effects
begin

text \<open>
  \<^verbatim>\<open>generateRegistrationId\<close> of \<^verbatim>\<open>sdk/ts/src/wasm-api.ts\<close>: rejection sampling
  from 16-bit draws. The loop may run for ever, so it is a partial function with \<open>None\<close> for not
  returning; it returns exactly when some draw is accepted, and the accepted draws hit every id
  equally often.
\<close>

definition MAX_REGISTRATION_ID :: int where "MAX_REGISTRATION_ID = 16380"

text \<open>\<^verbatim>\<open>buf[0] & 0x3fff\<close>.\<close>

definition candidate_of :: "16 word \<Rightarrow> int" where
  "candidate_of w = uint (and w 16383)"

definition accepted :: "16 word \<Rightarrow> bool" where
  "accepted w \<longleftrightarrow> 1 \<le> candidate_of w \<and> candidate_of w \<le> MAX_REGISTRATION_ID"

text \<open>\<open>draw\<close> is \<^verbatim>\<open>crypto.getRandomValues\<close> on a \<^verbatim>\<open>Uint16Array(1)\<close> over the
  state of the random source.\<close>

partial_function (option) generateRegistrationId :: "('e \<Rightarrow> 16 word \<times> 'e) \<Rightarrow> 'e \<Rightarrow> (int \<times> 'e) option" where
  "generateRegistrationId draw e =
     (let (w, e') = draw e in
      if accepted w then Some (candidate_of w, e') else generateRegistrationId draw e')"

text \<open>The source after \<open>n\<close> draws, and the draw numbered \<open>n\<close>.\<close>

definition after_draws :: "('e \<Rightarrow> 16 word \<times> 'e) \<Rightarrow> 'e \<Rightarrow> nat \<Rightarrow> 'e" where
  "after_draws draw e n = ((snd \<circ> draw) ^^ n) e"

definition drawn :: "('e \<Rightarrow> 16 word \<times> 'e) \<Rightarrow> 'e \<Rightarrow> nat \<Rightarrow> 16 word" where
  "drawn draw e n = fst (draw (after_draws draw e n))"

lemma after_draws_Suc: "after_draws draw e (Suc n) = after_draws draw (snd (draw e)) n"
  by (simp add: after_draws_def funpow_swap1)

lemma drawn_Suc: "drawn draw e (Suc n) = drawn draw (snd (draw e)) n"
  by (simp add: drawn_def after_draws_Suc)

lemma drawn_0: "drawn draw e 0 = fst (draw e)" "after_draws draw e 0 = e"
  by (simp_all add: drawn_def after_draws_def)

lemma registration_step:
  "generateRegistrationId draw e =
     (if accepted (drawn draw e 0) then Some (candidate_of (drawn draw e 0), after_draws draw e 1)
      else generateRegistrationId draw (snd (draw e)))"
  by (subst generateRegistrationId.simps) (simp add: drawn_0 after_draws_def split: prod.split)

lemma registration_found:
  "accepted (drawn draw e n) \<Longrightarrow> (\<forall>m<n. \<not> accepted (drawn draw e m)) \<Longrightarrow>
   generateRegistrationId draw e = Some (candidate_of (drawn draw e n), after_draws draw e (Suc n))"
proof (induction n arbitrary: e)
  case 0
  then show ?case by (subst registration_step) (simp add: after_draws_def)
next
  case (Suc n)
  have "\<not> accepted (drawn draw e 0)" using Suc.prems by blast
  moreover have "\<not> accepted (drawn draw (snd (draw e)) m)" if "m < n" for m
    using Suc.prems(2) that by (auto simp flip: drawn_Suc)
  moreover have "accepted (drawn draw (snd (draw e)) n)" using Suc.prems(1) by (simp add: drawn_Suc)
  ultimately show ?case
    using Suc.IH [of "snd (draw e)"] by (subst registration_step) (simp add: drawn_Suc after_draws_Suc)
qed

lemma registration_returns: "generateRegistrationId draw e = Some y \<Longrightarrow> \<exists>n. accepted (drawn draw e n)"
proof (rule generateRegistrationId.raw_induct [of "\<lambda>draw e y. \<exists>n. accepted (drawn draw e n)"])
  fix f and draw :: "'e \<Rightarrow> 16 word \<times> 'e" and e y
  assume IH: "\<And>draw e y. f draw e = Some y \<Longrightarrow> \<exists>n. accepted (drawn draw e n)"
    and eq: "(let (w, e') = draw e in if accepted w then Some (candidate_of w, e') else f draw e') = Some y"
  obtain w e' where d: "draw e = (w, e')" by (cases "draw e")
  show "\<exists>n. accepted (drawn draw e n)"
  proof (cases "accepted w")
    case True
    then show ?thesis using d by (intro exI [of _ 0]) (simp add: drawn_0)
  next
    case False
    with eq d have "f draw e' = Some y" by simp
    then obtain n where "accepted (drawn draw e' n)" using IH by blast
    then show ?thesis using d by (intro exI [of _ "Suc n"]) (simp add: drawn_Suc)
  qed
qed

text \<open>C25: \<^verbatim>\<open>generateRegistrationId\<close> returns exactly when some draw of the source is accepted,
  and then it returns the candidate of the first accepted draw and has consumed the draws up to it.\<close>

theorem registration_id_first_accepted:
  "generateRegistrationId draw e =
     (if \<exists>n. accepted (drawn draw e n)
      then let n = LEAST n. accepted (drawn draw e n)
           in Some (candidate_of (drawn draw e n), after_draws draw e (Suc n))
      else None)"
proof (cases "\<exists>n. accepted (drawn draw e n)")
  case True
  then have "accepted (drawn draw e (LEAST n. accepted (drawn draw e n)))" by (rule LeastI_ex)
  moreover have "\<forall>m < (LEAST n. accepted (drawn draw e n)). \<not> accepted (drawn draw e m)"
    using not_less_Least by blast
  ultimately show ?thesis using True by (simp only: if_True Let_def registration_found)
next
  case False
  then have "generateRegistrationId draw e = None"
    using registration_returns [of draw e] by (meson not_None_eq)
  with False show ?thesis by (simp only: if_False)
qed

subsection \<open>No id is favoured\<close>

lemma candidate_of_mod: "candidate_of w = uint w mod 16384"
proof -
  have "(16383 :: 16 word) = mask 14" by (simp add: mask_eq_exp_minus_1)
  then have "and w 16383 = take_bit 14 w" by (simp only: take_bit_eq_mask)
  then show ?thesis by (simp only: candidate_of_def unsigned_take_bit_eq) (simp add: take_bit_eq_mod)
qed

lemma residues_16384:
  assumes "0 \<le> i" "i < (16384 :: int)"
  shows "{n. 0 \<le> n \<and> n < 65536 \<and> n mod 16384 = i} = {i, i + 16384, i + 32768, i + 49152}"
proof (intro set_eqI iffI)
  fix n
  assume "n \<in> {n. 0 \<le> n \<and> n < 65536 \<and> n mod 16384 = i}"
  then have n: "0 \<le> n" "n < 65536" "n = 16384 * (n div 16384) + i" by auto
  then have "n div 16384 \<in> {0, 1, 2, 3}" by auto
  with n(3) show "n \<in> {i, i + 16384, i + 32768, i + 49152}" by auto
next
  fix n
  assume "n \<in> {i, i + 16384, i + 32768, i + 49152}"
  then obtain k :: int where "n = i + k * 16384" "0 \<le> k" "k \<le> 3"
    by (elim insertE emptyE) (auto intro: that [of 0] that [of 1] that [of 2] that [of 3])
  moreover have "(i + k * 16384) mod 16384 = i" for k
    using assms by (simp only: mod_mult_self1 mod_pos_pos_trivial)
  ultimately show "n \<in> {n. 0 \<le> n \<and> n < 65536 \<and> n mod 16384 = i}" using assms by simp
qed

lemma card_words: "card {w :: 16 word. P (uint w)} = card {n. 0 \<le> n \<and> n < 65536 \<and> P n}"
proof (rule bij_betw_same_card [of uint])
  have onto: "n \<in> uint ` {w :: 16 word. P (uint w)}" if "0 \<le> n" "n < 65536" "P n" for n
  proof -
    have "uint (word_of_int n :: 16 word) = n" using that by (simp add: uint_word_of_int)
    with that(3) show ?thesis by (intro image_eqI [where x = "word_of_int n"]) simp_all
  qed
  have "uint w < 65536" for w :: "16 word"
    using uint_lt2p [of w] by simp
  then have "uint ` {w :: 16 word. P (uint w)} = {n. 0 \<le> n \<and> n < 65536 \<and> P n}"
    using onto by (intro equalityI subsetI) auto
  then show "bij_betw uint {w :: 16 word. P (uint w)} {n. 0 \<le> n \<and> n < 65536 \<and> P n}"
    unfolding bij_betw_def by (blast intro: inj_onI word_uint_eqI)
qed

text \<open>C26: the sampling is unbiased, as its comment says: of the 65536 draws exactly four give each id
  from 1 to 16380, none gives any other id, and the sixteen others are rejected.\<close>

theorem registration_id_unbiased:
  "card {w. accepted w \<and> candidate_of w = i} = (if 1 \<le> i \<and> i \<le> MAX_REGISTRATION_ID then 4 else 0) \<and>
   card {w. \<not> accepted w} = 16"
proof -
  have four: "card {w. candidate_of w = i} = 4" if "0 \<le> i" "i < 16384" for i
    using residues_16384 [OF that] card_words [of "\<lambda>n. n mod 16384 = i"] by (simp add: candidate_of_mod)
  have "{w. accepted w \<and> candidate_of w = i} =
      (if 1 \<le> i \<and> i \<le> MAX_REGISTRATION_ID then {w. candidate_of w = i} else {})"
    by (auto simp: accepted_def)
  moreover have "i < 16384" if "i \<le> MAX_REGISTRATION_ID"
    using that by (simp add: MAX_REGISTRATION_ID_def)
  moreover have "card {w. \<not> accepted w} = 16"
  proof -
    have "{w. \<not> accepted w} = (\<Union>i\<in>{0, 16381, 16382, 16383}. {w. candidate_of w = i})"
    proof (intro set_eqI)
      fix w :: "16 word"
      have "0 \<le> candidate_of w" "candidate_of w < 16384" by (simp_all add: candidate_of_mod)
      then show "w \<in> {w. \<not> accepted w} \<longleftrightarrow> w \<in> (\<Union>i\<in>{0, 16381, 16382, 16383}. {w. candidate_of w = i})"
        by (auto simp: accepted_def MAX_REGISTRATION_ID_def)
    qed
    moreover have "card \<dots> = (\<Sum>i\<in>{0, 16381, 16382, 16383}. card {w. candidate_of w = i})"
      by (rule card_UN_disjoint) auto
    ultimately show ?thesis by (simp add: four)
  qed
  ultimately show ?thesis using four by simp
qed

end
