(* ===== verification/Spec2Isabelle.thy ===== *)
theory Spec2Isabelle
  imports Call_Memory Bridge_Machine Session_Facts Group_Facts Listing_Facts Sealed_Facts Extras Accessors
    Loader Web_Keys Registration
begin

text \<open>
  A verification library for the TypeScript package of gossveil, \<^verbatim>\<open>sdk/ts/src\<close>: the
  Signal protocol's client interfaces over a core written in Zig and compiled to WebAssembly.

  \<^bold>\<open>The program.\<close>  Five files carry behaviour. \<^verbatim>\<open>core.ts\<close> instantiates the wasm
  module and moves bytes through its linear memory: allocation, input and output cells, pads,
  statuses turned into exceptions. \<^verbatim>\<open>bridge.ts\<close> makes one typed operation of every export,
  each a chain of builder steps of the class \<^verbatim>\<open>Call\<close>, and reads the C structs the core
  fills. \<^verbatim>\<open>uuid.ts\<close> converts UUIDs. \<^verbatim>\<open>api.ts\<close> is the interface in the shape of
  libsignal: value classes that hold serialized bytes, stores the host implements and
  \<^verbatim>\<open>async\<close> session, group and sealed-sender functions that load from a store, call the
  core and save what it returned. \<^verbatim>\<open>wasm-api.ts\<close> is a second interface for a web client,
  with its own classes and its own synchronous in-memory stores. Both interfaces reach the core
  only through the object \<^verbatim>\<open>core\<close> of the bridge.

  \<^bold>\<open>Shared ground.\<close>
  \<^item> \<open>Prelude\<close>: bytes and strings (\<open>8 word list\<close>, UTF-16 \<open>16 word list\<close>), the
    JavaScript conversions \<open>to_uint32\<close>, \<open>to_int32\<close>, insertion-ordered maps.
  \<^item> \<open>Faults\<close>: \<^verbatim>\<open>GossveilError\<close>, \<^verbatim>\<open>Status\<close>, \<^verbatim>\<open>kinds\<close>, \<^verbatim>\<open>fault\<close>.
  \<^item> \<open>Effects\<close>: synchronous code as state passing with \<open>Inl\<close> for an exception;
    \<^verbatim>\<open>async\<close> functions as tasks, a segment of synchronous code between two suspensions;
    \<open>runT\<close> runs a task alone, \<open>run_schedule\<close> several of them in a chosen order.
  \<^item> \<open>Frames\<close>: the locale \<open>frame\<close>, a reflexive transitive relation every segment keeps,
    and the reliance of calls in flight on each other (\<open>meets\<close>).
  \<^item> \<open>Text\<close>: decimal and hexadecimal forms, the UTF-8 codecs, \<^verbatim>\<open>split\<close>.

  \<^bold>\<open>core.ts and bridge.ts.\<close>
  \<^item> \<open>Memory\<close>: \<^verbatim>\<open>reserve\<close>, \<^verbatim>\<open>In\<close>, \<^verbatim>\<open>Out\<close>, \<^verbatim>\<open>Pad\<close>,
    \<^verbatim>\<open>check\<close>, \<^verbatim>\<open>invoke\<close>, \<^verbatim>\<open>bytesEqual\<close> over a record of the linear memory,
    the exports being a parameter.
  \<^item> \<open>Loader\<close>: \<^verbatim>\<open>init\<close>, \<^verbatim>\<open>initSync\<close>, \<^verbatim>\<open>loadSource\<close>,
    \<^verbatim>\<open>fillRandom\<close>. Once adopted a module stays adopted and one call creates one instance;
    of calls in flight together each that returns has created its own, and one of these is the loaded one;
    random bytes fill exactly the block asked for.
  \<^item> \<open>Call\<close>, \<open>Call_Memory\<close>: the builder and what it does to memory. A call that returns
    leaves exactly the blocks that were live before and the result is what the export means; a
    failed allocation and a missing export leave blocks behind.
  \<^item> \<open>Bridge\<close>, \<open>Bridge_Machine\<close>, \<open>Structs\<close>: every operation of \<^verbatim>\<open>core\<close>
    and every reader of a pad; each reader gives back the fields of the C struct laid out by the
    rules of the wasm32 ABI, and \<^verbatim>\<open>sessionStart\<close> writes the struct the header declares.

  \<^bold>\<open>uuid.ts and api.ts.\<close>
  \<^item> \<open>Uuid\<close>, \<open>Keys\<close>, \<open>Address\<close>, \<open>Records\<close>, \<open>Messages\<close>, \<open>Extras\<close>,
    \<open>Accessors\<close>: the value classes. UUIDs and the three forms of a service id read back, the
    text of an address is injective, key comparison is a total order. \<open>Accessors\<close> holds the
    getters and \<^verbatim>\<open>Number\<close> of a \<^verbatim>\<open>bigint\<close>, exact below \<open>2 ^ 53\<close>.
  \<^item> \<open>Stores\<close>: the store interfaces, as records of tasks over the host's world, and
    \<^verbatim>\<open>InMemoryProtocolStore\<close>; session and sender-key records are objects on a heap,
    since the in-memory store keeps the reference and \<^verbatim>\<open>archiveCurrentState\<close> replaces the bytes
    in place.
  \<^item> \<open>Sessions\<close>, \<open>Sealed\<close>: the \<^verbatim>\<open>async\<close> functions, every \<^verbatim>\<open>await\<close>
    a suspension.
  \<^item> \<open>Store_Laws\<close>: the locales \<open>session_host\<close> and \<open>prekey_host\<close>, the laws these
    functions rely on from a host, and their effects proved from the laws; \<open>Mem_Store\<close> proves
    the laws of \<^verbatim>\<open>InMemoryProtocolStore\<close>. \<open>Session_Facts\<close>, \<open>Group_Facts\<close> (locale
    \<open>sender_key_host\<close>), \<open>Sealed_Facts\<close> (locale \<open>directory_host\<close>) and
    \<open>Listing_Facts\<close> state the results on that store: which entries a call changes, that a
    call that throws leaves the stores alone except where the text says otherwise, and the byte
    format of a multi-recipient listing against an independent reader, which reads as many recipients as
    the count byte says. Calls of \<^verbatim>\<open>sessionEncrypt\<close> that have all loaded the session seal
    with the same record, under any schedule; a distribution id in other cases is the same to store and
    core, one without dashes only to the core.
  \<^item> \<open>Sample_Core\<close>, \<open>Sample_Peer\<close>: small concrete cores, on which the
    contracts hold and the theorems are applied.

  \<^bold>\<open>wasm-api.ts.\<close>
  \<^item> \<open>Web_Types\<close>, \<open>Web_Stores\<close>, \<open>Web_Api\<close>, \<open>Registration\<close>: the value
    classes, the stores (a heap by reference), and the operations.
  \<^item> \<open>Web_Facts\<close>: the effect of the session operations on the whole heap of stores, and a first
    message in flight: it stores a record opened from the one it read before it suspended, so that the
    advance of a message sealed meanwhile is lost.
  \<^item> \<open>Web_Loop\<close>: the event loop as a step relation, in which calls start, suspend and
    resume in any order. In every reachable state a pinned identity is still the pinned one, and
    the keys of the stores are unsigned 32-bit ids; calls that seal for one recipient
    form a chain, each with the record the one before it stored.
  \<^item> \<open>Web_Keys\<close>, \<open>Web_Sample\<close>: key batches, which keep the keys made before a
    failure, the life of a kyber pre-key, UUID version bits, which parsers and constructors check the
    size of a key; and a sample client on which the theorems are applied.

  \<^bold>\<open>What is assumed.\<close>  The Zig core is a parameter: a record of exports for the memory level,
  with the contract \<open>Call.core_ok\<close> (a live-block view of the allocator, inputs left alone,
  outputs owned by the caller, no output on a failure), and a record of calls (\<open>core_calls\<close>)
  above the bridge. The runtime of the loader has the contract \<open>Loader.runtime_ok\<close>, and segment by segment
  \<open>Loader.runtime_steps_ok\<close>: reading a
  source does not touch the module's state, and instantiating adds one instance.
  \<^verbatim>\<open>toLowerCase\<close>, the clock and the random source are parameters. A \<^verbatim>\<open>number\<close>
  that counts, indexes or identifies is an \<open>int\<close>, reduced where the source reduces it
  (\<^verbatim>\<open>>>> 0\<close>, \<^verbatim>\<open>setUint32\<close>, \<^verbatim>\<open>Uint8Array.from\<close>); fractions and NaN
  are not represented. Arrays of bytes are values: the package copies them where it keeps them,
  and callers that write into an array they handed over are not modelled.

  \<^bold>\<open>Loops.\<close>  No fuel is used. \<^verbatim>\<open>fillRandom\<close>, the UTF-8 decoder, the text of a
  status and \<open>Accessors.excess\<close> recurse on a measure; \<^verbatim>\<open>generateRegistrationId\<close>,
  which draws until a draw is accepted, is a \<open>partial_function\<close> whose value is shown to exist
  as soon as some draw of the source is acceptable.

  \<^bold>\<open>Not modelled.\<close>  \<^verbatim>\<open>index.ts\<close> re-exports and has no behaviour.
  \<^verbatim>\<open>free()\<close> and \<^verbatim>\<open>Symbol.dispose\<close> of the web client do nothing;
  \<^verbatim>\<open>log_to_console\<close> prints. The Zig core and its C ABI, the Swift, Kotlin and C packages,
  the conformance vectors and the tools are other programs than this package.
\<close>

end
